theory Spec2Isabelle
  imports Complex_Main "HOL-Library.Log_Nat"
begin

section \<open>JavaScript numbers\<close>

text \<open>
  A JavaScript number is an IEEE 754 double. File sizes, byte offsets and part numbers are
  integers far below \<open>2 ^ 53\<close>, where addition, multiplication and comparison of doubles are
  exact; they are modelled as \<open>nat\<close>. The two places where the client leaves the integers,
  \<^verbatim>\<open>file.size / CHUNK_SIZE\<close> and \<^verbatim>\<open>(totalUploadedBytes / file.size) * 100\<close>, are modelled
  with the rounding of the double operations written out: every operation returns the double
  nearest to the exact result, ties to the even significand. The values that occur lie
  between \<open>2 ^ - 53\<close> and \<open>2 ^ 53\<close>, far from the subnormal and overflow ranges, so the
  exponent is not clipped.
\<close>

definition round_half_even :: "rat \<Rightarrow> int" where
  "round_half_even y =
     (let f = \<lfloor>y\<rfloor>; d = y - of_int f
      in if d < 1 / 2 then f else if 1 / 2 < d then f + 1 else if even f then f else f + 1)"

text \<open>The exponent \<open>e\<close> of a positive \<open>x\<close>: \<open>2 ^ e \<le> x < 2 ^ (e + 1)\<close>.\<close>

definition binade :: "rat \<Rightarrow> int" where
  "binade x =
     (let d = bitlen (fst (quotient_of x)) - bitlen (snd (quotient_of x))
      in if 2 powi d \<le> x then d else d - 1)"

text \<open>The double nearest to a non-negative \<open>x\<close> (53 significant bits).\<close>

definition fl :: "rat \<Rightarrow> rat" where
  "fl x =
     (if x = 0 then 0
      else let q = 2 powi (binade x - 52) in of_int (round_half_even (x / q)) * q)"

datatype jsnum = Num rat | PosInf | NaN

text \<open>\<^verbatim>\<open>a / b\<close> for non-negative integers \<open>a\<close>, \<open>b\<close>.\<close>

definition js_div :: "nat \<Rightarrow> nat \<Rightarrow> jsnum" where
  "js_div a b =
     (if b = 0 then (if a = 0 then NaN else PosInf)
      else Num (fl (of_nat a / of_nat b)))"

text \<open>\<^verbatim>\<open>x * 100\<close> for a non-negative \<open>x\<close>.\<close>

definition js_times_100 :: "jsnum \<Rightarrow> jsnum" where
  "js_times_100 x = (case x of Num r \<Rightarrow> Num (fl (r * 100)) | PosInf \<Rightarrow> PosInf | NaN \<Rightarrow> NaN)"

text \<open>\<^verbatim>\<open>Math.round\<close>: the nearest integer, a tie going up; no rounding error of its own.\<close>

definition Math_round :: "jsnum \<Rightarrow> jsnum" where
  "Math_round x = (case x of Num r \<Rightarrow> Num (of_int \<lfloor>r + 1 / 2\<rfloor>) | PosInf \<Rightarrow> PosInf | NaN \<Rightarrow> NaN)"

text \<open>
  \<^verbatim>\<open>Math.ceil(a / b)\<close> for a non-zero \<open>b\<close>, read back as the natural number it is (the loop
  bound and the \<^verbatim>\<open>chunkCount\<close> of the request).
\<close>

definition Math_ceil_div :: "nat \<Rightarrow> nat \<Rightarrow> nat" where
  "Math_ceil_div a b = nat \<lceil>fl (of_nat a / of_nat b)\<rceil>"

section \<open>The upload component (client)\<close>

definition CHUNK_SIZE :: nat where
  "CHUNK_SIZE = 5 * 1024 * 1024"

definition MAX_RETRY :: nat where
  "MAX_RETRY = 5"

text \<open>A \<^verbatim>\<open>File\<close>: its size in bytes, its name and its MIME type.\<close>

record js_file =
  fsize :: nat
  fname :: string
  ftype :: string

text \<open>
  A \<^verbatim>\<open>Blob\<close> cut from the file by \<^verbatim>\<open>file.slice(start, end)\<close>: both ends are clamped to the
  size of the file, and the size of the blob is \<open>max (end - start) 0\<close>.
\<close>

record blob =
  blob_start :: nat
  blob_end :: nat

definition slice :: "js_file \<Rightarrow> nat \<Rightarrow> nat \<Rightarrow> blob" where
  "slice f s e = \<lparr>blob_start = min s (fsize f), blob_end = min e (fsize f)\<rparr>"

definition blob_size :: "blob \<Rightarrow> nat" where
  "blob_size b = blob_end b - blob_start b"

record part =
  PartNumber :: nat
  ETag :: string

datatype js_error =
    Network_error        \<comment> \<open>\<^verbatim>\<open>fetch\<close> rejects\<close>
  | Chunk_upload_failed  \<comment> \<open>\<^verbatim>\<open>new Error('Failed to upload chunk: ...')\<close>\<close>
  | TypeError            \<comment> \<open>a property read on \<^verbatim>\<open>null\<close> or \<^verbatim>\<open>undefined\<close>\<close>
  | SyntaxError          \<comment> \<open>\<^verbatim>\<open>response.json()\<close> on a body that is not JSON\<close>

text \<open>What the component does that can be observed from outside, in the order it does it.\<close>

datatype event =
    Ev_create_multipart string string nat
      \<comment> \<open>POST /files/create-multipart: fileName, fileType, chunkCount\<close>
  | Ev_put "string option" blob
      \<comment> \<open>PUT of a chunk to a URL (\<open>None\<close>: the URL is \<^verbatim>\<open>undefined\<close>)\<close>
  | Ev_delay nat
      \<comment> \<open>\<^verbatim>\<open>await delay(ms)\<close>\<close>
  | Ev_progress jsnum
      \<comment> \<open>\<^verbatim>\<open>setProgress(n)\<close>\<close>
  | Ev_complete_multipart string "string option" "part list" nat
      \<comment> \<open>POST /files/complete-multipart: fileName, uploadId, parts, fileSize\<close>
  | Ev_onUploadComplete
  | Ev_message string

text \<open>What the outside answers.\<close>

datatype put_response =
    Put_rejected                       \<comment> \<open>\<^verbatim>\<open>fetch\<close> rejects\<close>
  | Put_response bool "string option"  \<comment> \<open>\<^verbatim>\<open>response.ok\<close>, \<^verbatim>\<open>response.headers.get('ETag')\<close>\<close>

datatype create_response =
    Create_rejected                    \<comment> \<open>\<^verbatim>\<open>fetch\<close> rejects\<close>
  | Create_not_json                    \<comment> \<open>\<^verbatim>\<open>json()\<close> rejects\<close>
  | Create_null                        \<comment> \<open>the body is \<^verbatim>\<open>null\<close>: destructuring throws\<close>
  | Create_json "string option" "string list option"
      \<comment> \<open>\<^verbatim>\<open>uploadId\<close> and \<^verbatim>\<open>preSignedUrls\<close> of the body, \<open>None\<close> when absent\<close>

datatype complete_response =
    Complete_rejected                  \<comment> \<open>\<^verbatim>\<open>fetch\<close> rejects\<close>
  | Complete_response bool             \<comment> \<open>\<^verbatim>\<open>response.ok\<close>, which the component never reads\<close>

record world =
  now_text :: string
    \<comment> \<open>\<^verbatim>\<open>Date.now()\<close> as the string that \<^verbatim>\<open>+ "_"\<close> makes of it\<close>
  create_multipart :: "string \<Rightarrow> string \<Rightarrow> nat \<Rightarrow> create_response"
  put_chunk :: "string option \<Rightarrow> blob \<Rightarrow> nat \<Rightarrow> put_response"
    \<comment> \<open>the answer to the PUT of a chunk to a URL at a given value of \<^verbatim>\<open>retry\<close>\<close>
  complete_multipart :: "string \<Rightarrow> string option \<Rightarrow> part list \<Rightarrow> nat \<Rightarrow> complete_response"

text \<open>
  The state of the component: the three \<^verbatim>\<open>useState\<close> cells, the value of the file input
  behind \<^verbatim>\<open>fileInputRef\<close>, the two variables of \<^verbatim>\<open>uploadChunks\<close> that the progress callback
  captures and updates, and the events so far.
\<close>

record client =
  file_state :: "js_file option"
  progress :: "jsnum option"
  message :: string
  input_value :: string
  totalUploadedBytes :: nat
  parts :: "part list"
  trace :: "event list"

definition emit :: "event \<Rightarrow> client \<Rightarrow> client" where
  "emit e c = c\<lparr>trace := trace c @ [e]\<rparr>"

text \<open>
  \<^verbatim>\<open>setProgress\<close>, with the effect that depends on \<^verbatim>\<open>progress\<close>: when the new value
  is 100 the effect clears the file cell and the file input. (React runs the effect after the
  render that follows the update; the component suspends at a network call after every
  update, so the effect has run before the next event.)
\<close>

definition setProgress :: "jsnum \<Rightarrow> client \<Rightarrow> client" where
  "setProgress p c =
     (let c' = emit (Ev_progress p) (c\<lparr>progress := Some p\<rparr>)
      in if p = Num 100 then c'\<lparr>file_state := None, input_value := []\<rparr> else c')"

definition setMessage :: "string \<Rightarrow> client \<Rightarrow> client" where
  "setMessage m c = emit (Ev_message m) (c\<lparr>message := m\<rparr>)"

definition delay :: "nat \<Rightarrow> client \<Rightarrow> client" where
  "delay ms c = emit (Ev_delay ms) c"

text \<open>
  \<^verbatim>\<open>handleFileChange\<close>: \<open>f\<close> is \<^verbatim>\<open>e.target.files[0]\<close> (\<open>None\<close> for an empty selection)
  and \<open>v\<close> the value the browser has given the input.
\<close>

definition handleFileChange :: "js_file option \<Rightarrow> string \<Rightarrow> client \<Rightarrow> client" where
  "handleFileChange f v c = c\<lparr>file_state := f, progress := None, message := [], input_value := v\<rparr>"

text \<open>The \<^verbatim>\<open>disabled\<close> attribute of the file input and of the upload button.\<close>

definition controls_disabled :: "client \<Rightarrow> bool" where
  "controls_disabled c = (progress c \<noteq> None \<and> progress c \<noteq> Some (Num 100))"

text \<open>\<^verbatim>\<open>etag.replace(/"/g, '')\<close>\<close>

definition strip_quotes :: "string \<Rightarrow> string" where
  "strip_quotes s = filter (\<lambda>ch. ch \<noteq> CHR 0x22) s"

text \<open>
  A computation of the component returns the error it threw, if any, and the state it left.
  The \<^verbatim>\<open>try\<close> block of \<^verbatim>\<open>uploadChunkWithFetch\<close>: the request, the check of the status,
  the callback.
\<close>

definition try_upload ::
  "world \<Rightarrow> string option \<Rightarrow> blob \<Rightarrow> (string option \<Rightarrow> client \<Rightarrow> js_error option \<times> client)
     \<Rightarrow> nat \<Rightarrow> client \<Rightarrow> js_error option \<times> client" where
  "try_upload w url chunk onProgress retry c =
     (let c1 = emit (Ev_put url chunk) c
      in case put_chunk w url chunk retry of
           Put_rejected \<Rightarrow> (Some Network_error, c1)
         | Put_response ok etag \<Rightarrow>
             if \<not> ok then (Some Chunk_upload_failed, c1) else onProgress etag c1)"

function uploadChunkWithFetch ::
  "world \<Rightarrow> string option \<Rightarrow> blob \<Rightarrow> (string option \<Rightarrow> client \<Rightarrow> js_error option \<times> client)
     \<Rightarrow> nat \<Rightarrow> client \<Rightarrow> js_error option \<times> client" where
  "uploadChunkWithFetch w url chunk onProgress retry c =
     (case try_upload w url chunk onProgress retry c of
        (None, c') \<Rightarrow> (None, c')
      | (Some error, c') \<Rightarrow>
          if retry < MAX_RETRY
          then uploadChunkWithFetch w url chunk onProgress (retry + 1) (delay (retry * 20 * 1000) c')
          else (Some error, c'))"
  by pat_completeness auto
termination
  by (relation "measure (\<lambda>(w, url, chunk, onProgress, retry, c). MAX_RETRY - retry)") auto

text \<open>
  The callback that \<^verbatim>\<open>uploadChunks\<close> passes for chunk \<open>i\<close>. The object pushed onto
  \<^verbatim>\<open>parts\<close> is built first, so \<^verbatim>\<open>etag.replace\<close> on a \<^verbatim>\<open>null\<close> entity tag throws before
  anything is changed.
\<close>

definition onProgress_of ::
  "js_file \<Rightarrow> nat \<Rightarrow> blob \<Rightarrow> string option \<Rightarrow> client \<Rightarrow> js_error option \<times> client" where
  "onProgress_of f i chunk etag c =
     (case etag of
        None \<Rightarrow> (Some TypeError, c)
      | Some t \<Rightarrow>
          let c1 = c\<lparr>parts := parts c @ [\<lparr>PartNumber = i + 1, ETag = strip_quotes t\<rparr>]\<rparr>;
              c2 = c1\<lparr>totalUploadedBytes := totalUploadedBytes c1 + blob_size chunk\<rparr>;
              percentCompleted = Math_round (js_times_100 (js_div (totalUploadedBytes c2) (fsize f)))
          in (None, setProgress percentCompleted c2))"

text \<open>\<^verbatim>\<open>preSignedUrls[i]\<close>: \<^verbatim>\<open>undefined\<close> past the end of the array.\<close>

definition url_at :: "string list \<Rightarrow> nat \<Rightarrow> string option" where
  "url_at urls i = (if i < length urls then Some (urls ! i) else None)"

text \<open>The \<^verbatim>\<open>for\<close> loop of \<^verbatim>\<open>uploadChunks\<close>, from index \<open>i\<close> on.\<close>

function upload_loop ::
  "world \<Rightarrow> js_file \<Rightarrow> string list option \<Rightarrow> nat \<Rightarrow> nat \<Rightarrow> client \<Rightarrow> js_error option \<times> client" where
  "upload_loop w f preSignedUrls chunkCount i c =
     (if i < chunkCount then
        let start = i * CHUNK_SIZE;
            end = min (fsize f) (start + CHUNK_SIZE);
            chunk = slice f start end
        in case preSignedUrls of
             None \<Rightarrow> (Some TypeError, c)
           | Some urls \<Rightarrow>
               (case uploadChunkWithFetch w (url_at urls i) chunk (onProgress_of f i chunk) 1 c of
                  (Some error, c') \<Rightarrow> (Some error, c')
                | (None, c') \<Rightarrow> upload_loop w f preSignedUrls chunkCount (i + 1) c')
      else (None, c))"
  by pat_completeness auto
termination
  by (relation "measure (\<lambda>(w, f, preSignedUrls, chunkCount, i, c). chunkCount - i)") auto

definition uploadChunks :: "world \<Rightarrow> js_file \<Rightarrow> client \<Rightarrow> js_error option \<times> client" where
  "uploadChunks w f c =
     (let chunkCount = Math_ceil_div (fsize f) CHUNK_SIZE;
          fileName = now_text w @ ''_'' @ fname f;
          c1 = emit (Ev_create_multipart fileName (ftype f) chunkCount) c
      in case create_multipart w fileName (ftype f) chunkCount of
           Create_rejected \<Rightarrow> (Some Network_error, c1)
         | Create_not_json \<Rightarrow> (Some SyntaxError, c1)
         | Create_null \<Rightarrow> (Some TypeError, c1)
         | Create_json uploadId preSignedUrls \<Rightarrow>
             let c2 = setProgress (Num 0) (c1\<lparr>totalUploadedBytes := 0, parts := []\<rparr>)
             in (case upload_loop w f preSignedUrls chunkCount 0 c2 of
                   (Some error, c3) \<Rightarrow> (Some error, c3)
                 | (None, c3) \<Rightarrow>
                     let c4 = emit (Ev_complete_multipart fileName uploadId (parts c3) (fsize f)) c3
                     in (case complete_multipart w fileName uploadId (parts c3) (fsize f) of
                           Complete_rejected \<Rightarrow> (Some Network_error, c4)
                         | Complete_response ok \<Rightarrow>
                             (None, setMessage ''File uploaded successfully!''
                                      (emit Ev_onUploadComplete c4)))))"

definition handleUpload :: "world \<Rightarrow> client \<Rightarrow> client" where
  "handleUpload w c =
     (case file_state c of
        None \<Rightarrow> c
      | Some f \<Rightarrow>
          (case uploadChunks w f (setProgress (Num 0) c) of
             (None, c') \<Rightarrow> c'
           | (Some error, c') \<Rightarrow> setMessage ''Failed to upload file'' c'))"

text \<open>The component as it is mounted, and after the user has chosen the file \<open>f\<close>.\<close>

definition mounted :: client where
  "mounted =
     \<lparr>file_state = None, progress = None, message = [], input_value = [],
      totalUploadedBytes = 0, parts = [], trace = []\<rparr>"

definition selected :: "js_file \<Rightarrow> client" where
  "selected f = handleFileChange (Some f) (fname f) mounted"

section \<open>The file controller (server)\<close>

definition EXPIRATION_HOURS :: nat where
  "EXPIRATION_HOURS = 60 * 60 * 24"

text \<open>The parameters of \<^verbatim>\<open>getSignedUrlPromise('uploadPart', ...)\<close>; \<open>Expires\<close> is in seconds.\<close>

record upload_part_params =
  up_Bucket :: string
  up_Key :: string
  up_UploadId :: string
  up_Expires :: nat
  up_PartNumber :: nat

text \<open>A document of the \<^verbatim>\<open>File\<close> model.\<close>

record file_doc =
  file_name :: string
  file_size :: nat
  s3Key :: string
  uploadDate :: nat

text \<open>
  The storage service, the metadata store and the environment, as the controller sees them:
  every call returns a value or throws (\<open>Inl\<close>) the message of an error.
\<close>

record backend =
  AWS_BUCKET_NAME :: string
  s3_createMultipartUpload :: "string \<Rightarrow> string \<Rightarrow> string \<Rightarrow> string + string"
    \<comment> \<open>Bucket, Key, ContentType; returns the UploadId\<close>
  s3_getSignedUrl_uploadPart :: "upload_part_params \<Rightarrow> string + string"
  s3_completeMultipartUpload :: "string \<Rightarrow> string \<Rightarrow> string \<Rightarrow> part list \<Rightarrow> string + unit"
    \<comment> \<open>Bucket, Key, UploadId, Parts\<close>
  s3_getSignedUrl_getObject :: "string \<Rightarrow> string \<Rightarrow> nat \<Rightarrow> string + string"
    \<comment> \<open>Bucket, Key, Expires\<close>
  save_rejects :: "file_doc \<Rightarrow> string option"
    \<comment> \<open>the error with which \<^verbatim>\<open>save()\<close> rejects the document, if it does\<close>
  Date_now :: nat

datatype backend_call =
    Call_createMultipartUpload string string string
  | Call_getSignedUrl_uploadPart upload_part_params
  | Call_completeMultipartUpload string string string "part list"
  | Call_getSignedUrl_getObject string string nat
  | Call_save file_doc

text \<open>The state that outlives a request: the documents stored, and the calls made so far.\<close>

record server =
  docs :: "file_doc list"
  calls :: "backend_call list"

definition call :: "backend_call \<Rightarrow> server \<Rightarrow> server" where
  "call k s = s\<lparr>calls := calls s @ [k]\<rparr>"

datatype body =
    Body_create string "string list"   \<comment> \<open>\<^verbatim>\<open>{uploadId, preSignedUrls}\<close>\<close>
  | Body_complete string string        \<comment> \<open>\<^verbatim>\<open>{message, downloadUrl}\<close>\<close>
  | Body_error string                  \<comment> \<open>\<^verbatim>\<open>{error}\<close>\<close>

text \<open>
  How a handler ends: it has sent a response with a status and a body, or its promise
  rejects with an error nobody catches and it has sent nothing.
\<close>

datatype handler_result =
    Sent nat body
  | Rejected string

record create_body =
  cr_fileName :: string
  cr_fileType :: string
  cr_chunkCount :: nat

record complete_body =
  co_fileName :: string
  co_uploadId :: string
  co_parts :: "part list"
  co_fileSize :: nat

text \<open>The \<^verbatim>\<open>for\<close> loop of \<^verbatim>\<open>createMultipartUpload\<close>, from index \<open>i\<close> on.\<close>

function sign_loop ::
  "backend \<Rightarrow> string \<Rightarrow> string \<Rightarrow> nat \<Rightarrow> nat \<Rightarrow> string list \<Rightarrow> server
     \<Rightarrow> (string + string list) \<times> server" where
  "sign_loop be Key UploadId chunkCount i urls s =
     (if i < chunkCount then
        let params = \<lparr>up_Bucket = AWS_BUCKET_NAME be, up_Key = Key, up_UploadId = UploadId,
                        up_Expires = EXPIRATION_HOURS, up_PartNumber = i + 1\<rparr>;
            s' = call (Call_getSignedUrl_uploadPart params) s
        in case s3_getSignedUrl_uploadPart be params of
             Inl err \<Rightarrow> (Inl err, s')
           | Inr signedUrl \<Rightarrow> sign_loop be Key UploadId chunkCount (i + 1) (urls @ [signedUrl]) s'
      else (Inr urls, s))"
  by pat_completeness auto
termination
  by (relation "measure (\<lambda>(be, Key, UploadId, chunkCount, i, urls, s). chunkCount - i)") auto

definition createMultipartUpload :: "backend \<Rightarrow> create_body \<Rightarrow> server \<Rightarrow> handler_result \<times> server" where
  "createMultipartUpload be req s =
     (let fileName = cr_fileName req; fileType = cr_fileType req; chunkCount = cr_chunkCount req;
          s1 = call (Call_createMultipartUpload (AWS_BUCKET_NAME be) fileName fileType) s
      in case s3_createMultipartUpload be (AWS_BUCKET_NAME be) fileName fileType of
           Inl err \<Rightarrow> (Rejected err, s1)
         | Inr UploadId \<Rightarrow>
             (case sign_loop be fileName UploadId chunkCount 0 [] s1 of
                (Inl err, s2) \<Rightarrow> (Sent 500 (Body_error err), s2)
              | (Inr urls, s2) \<Rightarrow> (Sent 200 (Body_create UploadId urls), s2)))"

definition completeMultipartUpload :: "backend \<Rightarrow> complete_body \<Rightarrow> server \<Rightarrow> handler_result \<times> server" where
  "completeMultipartUpload be req s =
     (let fileName = co_fileName req; uploadId = co_uploadId req; parts = co_parts req;
          fileSize = co_fileSize req;
          s1 = call (Call_completeMultipartUpload (AWS_BUCKET_NAME be) fileName uploadId parts) s
      in case s3_completeMultipartUpload be (AWS_BUCKET_NAME be) fileName uploadId parts of
           Inl err \<Rightarrow> (Sent 500 (Body_error err), s1)
         | Inr result \<Rightarrow>
             let s2 = call (Call_getSignedUrl_getObject (AWS_BUCKET_NAME be) fileName EXPIRATION_HOURS) s1
             in (case s3_getSignedUrl_getObject be (AWS_BUCKET_NAME be) fileName EXPIRATION_HOURS of
                   Inl err \<Rightarrow> (Sent 500 (Body_error err), s2)
                 | Inr downloadUrl \<Rightarrow>
                     let newFile = \<lparr>file_name = fileName, file_size = fileSize, s3Key = fileName,
                                     uploadDate = Date_now be\<rparr>;
                         s3 = call (Call_save newFile) s2
                     in (case save_rejects be newFile of
                           Some err \<Rightarrow> (Sent 500 (Body_error err), s3)
                         | None \<Rightarrow>
                             (Sent 200 (Body_complete ''File uploaded successfully!'' downloadUrl),
                              s3\<lparr>docs := docs s3 @ [newFile]\<rparr>))))"

section \<open>Reading a run\<close>

text \<open>\<^verbatim>\<open>a <= b\<close> on numbers: false as soon as one side is \<^verbatim>\<open>NaN\<close>.\<close>

fun js_le :: "jsnum \<Rightarrow> jsnum \<Rightarrow> bool" where
  "js_le (Num a) (Num b) = (a \<le> b)"
| "js_le (Num a) PosInf = True"
| "js_le PosInf PosInf = True"
| "js_le _ _ = False"

text \<open>The value of \<^verbatim>\<open>percentCompleted\<close> when \<open>uploaded\<close> bytes of \<open>sz\<close> are uploaded.\<close>

definition percent_of :: "nat \<Rightarrow> nat \<Rightarrow> jsnum" where
  "percent_of uploaded sz = Math_round (js_times_100 (js_div uploaded sz))"

text \<open>The values passed to \<^verbatim>\<open>setProgress\<close>, in order.\<close>

fun progress_values :: "event list \<Rightarrow> jsnum list" where
  "progress_values [] = []"
| "progress_values (Ev_progress p # es) = p # progress_values es"
| "progress_values (e # es) = progress_values es"

text \<open>The requests made to the two endpoints of the server, and the end of a run.\<close>

fun is_create :: "event \<Rightarrow> bool" where
  "is_create (Ev_create_multipart fileName fileType chunkCount) = True"
| "is_create e = False"

fun is_complete :: "event \<Rightarrow> bool" where
  "is_complete (Ev_complete_multipart fileName uploadId ps fileSize) = True"
| "is_complete e = False"

text \<open>What the loop over the chunks does: requests to the storage, waiting, progress.\<close>

fun is_put :: "event \<Rightarrow> bool" where
  "is_put (Ev_put url chunk) = True"
| "is_put e = False"

fun is_transfer :: "event \<Rightarrow> bool" where
  "is_transfer (Ev_put url chunk) = True"
| "is_transfer (Ev_delay ms) = True"
| "is_transfer (Ev_progress p) = True"
| "is_transfer e = False"

text \<open>A response to a PUT that the component takes as a failure of the attempt.\<close>

fun non_success :: "put_response \<Rightarrow> bool" where
  "non_success Put_rejected = True"
| "non_success (Put_response ok etag) = (\<not> ok)"

text \<open>Chunk \<open>i\<close> of a file, as the loop slices it.\<close>

definition chunk_of :: "js_file \<Rightarrow> nat \<Rightarrow> blob" where
  "chunk_of f i =
     slice f (i * CHUNK_SIZE) (min (fsize f) (i * CHUNK_SIZE + CHUNK_SIZE))"

text \<open>
  A run: the user has chosen \<open>f\<close> in a component just mounted and presses the button.
  It succeeds when \<^verbatim>\<open>uploadChunks\<close> returns without throwing.
\<close>

definition run :: "world \<Rightarrow> js_file \<Rightarrow> client" where
  "run w f = handleUpload w (selected f)"

definition run_succeeds :: "world \<Rightarrow> js_file \<Rightarrow> bool" where
  "run_succeeds w f = (fst (uploadChunks w f (setProgress (Num 0) (selected f))) = None)"

declare uploadChunkWithFetch.simps [simp del]

declare upload_loop.simps [simp del]

declare sign_loop.simps [simp del]

text \<open>One attempt, with the callback of chunk \<open>i\<close>.\<close>

definition chunk_done :: "js_file \<Rightarrow> nat \<Rightarrow> blob \<Rightarrow> string \<Rightarrow> client \<Rightarrow> client" where
  "chunk_done f i chunk t c =
     setProgress (percent_of (totalUploadedBytes c + blob_size chunk) (fsize f))
       (c\<lparr>parts := parts c @ [\<lparr>PartNumber = i + 1, ETag = strip_quotes t\<rparr>],
          totalUploadedBytes := totalUploadedBytes c + blob_size chunk\<rparr>)"

fun is_attempt :: "string option \<Rightarrow> blob \<Rightarrow> event \<Rightarrow> bool" where
  "is_attempt url chunk (Ev_put url' chunk') = (url' = url \<and> chunk' = chunk)"
| "is_attempt url chunk (Ev_delay ms) = True"
| "is_attempt url chunk e = False"

fun is_chunk_event :: "js_file \<Rightarrow> string list \<Rightarrow> nat \<Rightarrow> event \<Rightarrow> bool" where
  "is_chunk_event f urls n (Ev_put url b) = (\<exists>i<n. url = url_at urls i \<and> b = chunk_of f i)"
| "is_chunk_event f urls n (Ev_delay ms) = True"
| "is_chunk_event f urls n (Ev_progress p) = True"
| "is_chunk_event f urls n e = False"

definition tracked :: "client \<Rightarrow> bool" where
  "tracked c =
     (progress c = (if progress_values (trace c) = [] then None
                    else Some (last (progress_values (trace c)))))"

definition fileName_of :: "world \<Rightarrow> js_file \<Rightarrow> string" where
  "fileName_of w f = now_text w @ ''_'' @ fname f"

definition chunkCount_of :: "js_file \<Rightarrow> nat" where
  "chunkCount_of f = Math_ceil_div (fsize f) CHUNK_SIZE"

text \<open>The state in which the loop over the chunks starts.\<close>

definition before_loop :: "world \<Rightarrow> js_file \<Rightarrow> client" where
  "before_loop w f =
     \<lparr>file_state = Some f, progress = Some (Num 0), message = [], input_value = fname f,
      totalUploadedBytes = 0, parts = [],
      trace = [Ev_progress (Num 0),
               Ev_create_multipart (fileName_of w f) (ftype f) (chunkCount_of f),
               Ev_progress (Num 0)]\<rparr>"

fun attempt_fails :: "put_response \<Rightarrow> bool" where
  "attempt_fails (Put_response True (Some t)) = False"
| "attempt_fails r = True"

section \<open>Worlds and files to run on\<close>

text \<open>An entity tag as the storage sends it, in double quotes.\<close>

definition quoted_etag :: string where
  "quoted_etag = [CHR 0x22, CHR ''e'', CHR 0x22]"

text \<open>A world in which every request succeeds at once.\<close>

definition ok_world :: world where
  "ok_world =
     \<lparr>now_text = ''17'',
      create_multipart = (\<lambda>fileName fileType chunkCount.
         Create_json (Some ''u'') (Some (replicate chunkCount ''s''))),
      put_chunk = (\<lambda>url chunk retry. Put_response True (Some quoted_etag)),
      complete_multipart = (\<lambda>fileName uploadId ps fileSize. Complete_response True)\<rparr>"

definition one_byte_file :: js_file where
  "one_byte_file = \<lparr>fsize = 1, fname = ''a'', ftype = ''t''\<rparr>"

text \<open>
  A world in which the storage answers the first PUT of every chunk but the first with an
  error status and the second with a success that shows no entity tag, and every other
  request succeeds.
\<close>

definition flaky_world :: world where
  "flaky_world =
     \<lparr>now_text = ''17'',
      create_multipart = (\<lambda>fileName fileType chunkCount.
         Create_json (Some ''u'') (Some (replicate chunkCount ''s''))),
      put_chunk = (\<lambda>url chunk retry.
         if blob_start chunk = 0 then Put_response True (Some quoted_etag)
         else if retry = 1 then Put_response False None
         else if retry = 2 then Put_response True None
         else Put_response True (Some quoted_etag)),
      complete_multipart = (\<lambda>fileName uploadId ps fileSize. Complete_response True)\<rparr>"

text \<open>A file of 8 MiB: a chunk of 5 MiB and one of 3 MiB.\<close>

definition two_chunk_file :: js_file where
  "two_chunk_file = \<lparr>fsize = 8388608, fname = ''a'', ftype = ''t''\<rparr>"

definition flaky_after_loop :: client where
  "flaky_after_loop =
     \<lparr>file_state = None, progress = Some (Num 100), message = [], input_value = [],
      totalUploadedBytes = 8388608,
      parts = [\<lparr>PartNumber = 1, ETag = ''e''\<rparr>, \<lparr>PartNumber = 2, ETag = ''e''\<rparr>],
      trace =
        [Ev_progress (Num 0), Ev_create_multipart ''17_a'' ''t'' 2, Ev_progress (Num 0),
         Ev_put (Some ''s'') \<lparr>blob_start = 0, blob_end = 5242880\<rparr>, Ev_progress (Num 63),
         Ev_put (Some ''s'') \<lparr>blob_start = 5242880, blob_end = 8388608\<rparr>, Ev_delay 20000,
         Ev_put (Some ''s'') \<lparr>blob_start = 5242880, blob_end = 8388608\<rparr>, Ev_delay 40000,
         Ev_put (Some ''s'') \<lparr>blob_start = 5242880, blob_end = 8388608\<rparr>,
         Ev_progress (Num 100)]\<rparr>"

text \<open>The parameters with which the controller signs the URL of part \<open>k\<close>.\<close>

definition part_params :: "backend \<Rightarrow> string \<Rightarrow> string \<Rightarrow> nat \<Rightarrow> upload_part_params" where
  "part_params be Key UploadId k =
     \<lparr>up_Bucket = AWS_BUCKET_NAME be, up_Key = Key, up_UploadId = UploadId,
      up_Expires = EXPIRATION_HOURS, up_PartNumber = k\<rparr>"

text \<open>A storage service and a metadata store that accept everything.\<close>

definition ok_backend :: backend where
  "ok_backend =
     \<lparr>AWS_BUCKET_NAME = ''b'',
      s3_createMultipartUpload = (\<lambda>Bucket Key ContentType. Inr ''u''),
      s3_getSignedUrl_uploadPart = (\<lambda>params. Inr (replicate (up_PartNumber params) (CHR ''s''))),
      s3_completeMultipartUpload = (\<lambda>Bucket Key UploadId Parts. Inr ()),
      s3_getSignedUrl_getObject = (\<lambda>Bucket Key Expires. Inr ''d''),
      save_rejects = (\<lambda>doc. None),
      Date_now = 17\<rparr>"

text \<open>A storage service that refuses to open a session, and one that refuses to assemble.\<close>

definition no_session_backend :: backend where
  "no_session_backend = ok_backend\<lparr>s3_createMultipartUpload := (\<lambda>Bucket Key ContentType. Inl ''NoSuchBucket'')\<rparr>"

definition no_assembly_backend :: backend where
  "no_assembly_backend = ok_backend\<lparr>s3_completeMultipartUpload := (\<lambda>Bucket Key UploadId Parts. Inl ''InvalidPartOrder'')\<rparr>"

definition no_signing_backend :: backend where
  "no_signing_backend = ok_backend\<lparr>s3_getSignedUrl_uploadPart := (\<lambda>params. Inl ''CredentialsError'')\<rparr>"

definition empty_server :: server where
  "empty_server = \<lparr>docs = [], calls = []\<rparr>"

definition create_request :: create_body where
  "create_request = \<lparr>cr_fileName = ''17_a'', cr_fileType = ''t'', cr_chunkCount = 2\<rparr>"

definition complete_request :: complete_body where
  "complete_request =
     \<lparr>co_fileName = ''17_a'', co_uploadId = ''u'',
      co_parts = [\<lparr>PartNumber = 2, ETag = ''e''\<rparr>, \<lparr>PartNumber = 1, ETag = ''e''\<rparr>],
      co_fileSize = 8388608\<rparr>"

text \<open>A file of no bytes.\<close>

definition empty_file :: js_file where
  "empty_file = \<lparr>fsize = 0, fname = ''a'', ftype = ''t''\<rparr>"

text \<open>
  A world in which the storage answers every PUT of a chunk but the first with an error
  status, and every other request succeeds.
\<close>

definition stuck_world :: world where
  "stuck_world =
     \<lparr>now_text = ''17'',
      create_multipart = (\<lambda>fileName fileType chunkCount.
         Create_json (Some ''u'') (Some (replicate chunkCount ''s''))),
      put_chunk = (\<lambda>url chunk retry.
         if blob_start chunk = 0 then Put_response True (Some quoted_etag)
         else Put_response False None),
      complete_multipart = (\<lambda>fileName uploadId ps fileSize. Complete_response True)\<rparr>"

text \<open>A file of 200 MiB: forty chunks of 5 MiB.\<close>

definition file_200MiB :: js_file where
  "file_200MiB = \<lparr>fsize = 209715200, fname = ''a'', ftype = ''t''\<rparr>"

text \<open>
  The component when the loop has given up on the second chunk of the file of 8 MiB in
  \<open>stuck_world\<close>.
\<close>

definition stuck_after_loop :: client where
  "stuck_after_loop =
     \<lparr>file_state = Some two_chunk_file, progress = Some (Num 63), message = [], input_value = ''a'',
      totalUploadedBytes = 5242880,
      parts = [\<lparr>PartNumber = 1, ETag = ''e''\<rparr>],
      trace =
        [Ev_progress (Num 0), Ev_create_multipart ''17_a'' ''t'' 2, Ev_progress (Num 0),
         Ev_put (Some ''s'') \<lparr>blob_start = 0, blob_end = 5242880\<rparr>, Ev_progress (Num 63),
         Ev_put (Some ''s'') \<lparr>blob_start = 5242880, blob_end = 8388608\<rparr>, Ev_delay 20000,
         Ev_put (Some ''s'') \<lparr>blob_start = 5242880, blob_end = 8388608\<rparr>, Ev_delay 40000,
         Ev_put (Some ''s'') \<lparr>blob_start = 5242880, blob_end = 8388608\<rparr>, Ev_delay 60000,
         Ev_put (Some ''s'') \<lparr>blob_start = 5242880, blob_end = 8388608\<rparr>, Ev_delay 80000,
         Ev_put (Some ''s'') \<lparr>blob_start = 5242880, blob_end = 8388608\<rparr>]\<rparr>"

text \<open>A file of 5 MiB and one byte: a chunk of 5 MiB and one of a single byte.\<close>

definition file_5MiB_1 :: js_file where
  "file_5MiB_1 = \<lparr>fsize = 5242881, fname = ''a'', ftype = ''t''\<rparr>"

section \<open>Rounding to a double\<close>

lemma round_half_even_cases: "round_half_even y = \<lfloor>y\<rfloor> \<or> round_half_even y = \<lfloor>y\<rfloor> + 1"
  by (simp add: round_half_even_def Let_def)

lemma round_half_even_of_int: "round_half_even (of_int n) = n"
  by (simp add: round_half_even_def Let_def)

lemma round_half_even_err: "\<bar>of_int (round_half_even y) - y\<bar> \<le> 1 / 2"
proof -
  have "of_int \<lfloor>y\<rfloor> \<le> y" "y < of_int \<lfloor>y\<rfloor> + 1" by linarith+
  then show ?thesis
    by (auto simp: round_half_even_def Let_def)
qed

lemma round_half_even_mono:
  assumes "y \<le> z"
  shows "round_half_even y \<le> round_half_even z"
proof (cases "\<lfloor>y\<rfloor> = \<lfloor>z\<rfloor>")
  case True
  with assms have "y - of_int \<lfloor>y\<rfloor> \<le> z - of_int \<lfloor>z\<rfloor>" by simp
  with True show ?thesis
    by (auto simp: round_half_even_def Let_def)
next
  case False
  with assms have "\<lfloor>y\<rfloor> < \<lfloor>z\<rfloor>" by (simp add: floor_mono order.strict_iff_order)
  moreover have "round_half_even y \<le> \<lfloor>y\<rfloor> + 1" using round_half_even_cases [of y] by auto
  moreover have "\<lfloor>z\<rfloor> \<le> round_half_even z" using round_half_even_cases [of z] by auto
  ultimately show ?thesis by linarith
qed

lemma powi_numeral_int: "0 \<le> k \<Longrightarrow> (2::rat) powi k = of_int (2 ^ nat k)"
  by (simp add: power_int_def)

lemma binade_bounds:
  assumes "0 < x"
  shows "2 powi binade x \<le> x" and "x < 2 powi (binade x + 1)"
proof -
  obtain a b where q: "quotient_of x = (a, b)" by force
  have b: "0 < b" using quotient_of_denom_pos [OF q] .
  have x: "x = of_int a / of_int b" using quotient_of_div [OF q] .
  have a: "0 < a" using assms b by (simp add: x zero_less_divide_iff)
  define la lb where "la = bitlen a" and "lb = bitlen b"
  have la: "1 \<le> la" and lb: "1 \<le> lb"
    using a b bitlen_eq_zero_iff [of a] bitlen_eq_zero_iff [of b] bitlen_nonneg [of a] bitlen_nonneg [of b]
    by (auto simp: la_def lb_def)
  have a1: "(2::rat) powi (la - 1) \<le> of_int a" and a2: "of_int a < (2::rat) powi la"
    using bitlen_bounds [OF a] la
    unfolding la_def [symmetric] by (simp_all add: powi_numeral_int del: of_int_power)
  have b1: "(2::rat) powi (lb - 1) \<le> of_int b" and b2: "of_int b < (2::rat) powi lb"
    using bitlen_bounds [OF b] lb
    unfolding lb_def [symmetric] by (simp_all add: powi_numeral_int del: of_int_power)
  have bpos: "(0::rat) < of_int b" using b by simp
  have p: "(0::rat) < 2 powi k" for k by (simp add: zero_less_power_int)
  have up: "x < 2 powi (la - lb + 1)"
  proof -
    have "x < 2 powi la / of_int b" unfolding x using a2 bpos by (simp add: divide_strict_right_mono)
    also have "\<dots> \<le> 2 powi la / 2 powi (lb - 1)"
      using b1 p [of "lb - 1"] p [of la] by (simp add: frac_le)
    also have "\<dots> = 2 powi (la - lb + 1)"
      by (simp add: power_int_diff [symmetric] algebra_simps)
    finally show ?thesis .
  qed
  have lo: "2 powi (la - lb - 1) < x"
  proof -
    have "(2::rat) powi (la - lb - 1) = 2 powi (la - 1) / 2 powi lb"
      by (simp add: power_int_diff [symmetric] algebra_simps)
    also have "\<dots> < 2 powi (la - 1) / of_int b"
      using b2 bpos p [of "la - 1"] by (simp add: divide_strict_left_mono)
    also have "\<dots> \<le> x" unfolding x using a1 bpos by (simp add: divide_right_mono)
    finally show ?thesis .
  qed
  have d: "binade x = (if 2 powi (la - lb) \<le> x then la - lb else la - lb - 1)"
    by (simp add: binade_def q la_def lb_def Let_def)
  show "2 powi binade x \<le> x" using lo by (simp add: d)
  show "x < 2 powi (binade x + 1)" using up by (simp add: d not_le)
qed

lemma binade_unique:
  assumes "0 < x" "2 powi e \<le> x" "x < 2 powi (e + 1)"
  shows "binade x = e"
proof -
  have "(2::rat) powi e < 2 powi (binade x + 1)"
    using assms(2) binade_bounds(2) [OF assms(1)] by simp
  then have "e < binade x + 1"
    by (metis linorder_not_less power_int_increasing one_le_numeral)
  have "(2::rat) powi binade x < 2 powi (e + 1)"
    using assms(3) binade_bounds(1) [OF assms(1)] by simp
  then have "binade x < e + 1"
    by (metis linorder_not_less power_int_increasing one_le_numeral)
  with \<open>e < binade x + 1\<close> show ?thesis by simp
qed

lemma binade_mono:
  assumes "0 < x" "x \<le> y"
  shows "binade x \<le> binade y"
proof -
  have "(2::rat) powi binade x < 2 powi (binade y + 1)"
    using binade_bounds(1) [OF assms(1)] binade_bounds(2) [of y] assms by simp
  then have "binade x < binade y + 1"
    by (metis linorder_not_less power_int_increasing one_le_numeral)
  then show ?thesis by simp
qed

lemma powi_pos: "(0::rat) < 2 powi k"
  by (simp add: zero_less_power_int)

lemma powi_less_cancel: "(2::rat) powi m < 2 powi n \<Longrightarrow> m < n"
  by (metis linorder_not_less power_int_increasing one_le_numeral)

lemma scaled_bounds:
  assumes "0 < x"
  shows "2 ^ 52 \<le> x / 2 powi (binade x - 52)" and "x / 2 powi (binade x - 52) \<le> 2 ^ 53"
proof -
  let ?e = "binade x"
  have e: "(2::rat) powi ?e = 2 ^ 52 * 2 powi (?e - 52)"
    using power_int_add [of "2::rat" 52 "?e - 52"] by simp
  have e1: "(2::rat) powi (?e + 1) = 2 ^ 53 * 2 powi (?e - 52)"
    using power_int_add [of "2::rat" 53 "?e - 52"] by (simp add: add.commute)
  show "2 ^ 52 \<le> x / 2 powi (?e - 52)"
    using binade_bounds(1) [OF assms] powi_pos [of "?e - 52"]
    unfolding e by (simp add: pos_le_divide_eq)
  show "x / 2 powi (?e - 52) \<le> 2 ^ 53"
    using binade_bounds(2) [OF assms] powi_pos [of "?e - 52"]
    unfolding e1 by (simp add: pos_divide_le_eq)
qed

lemma fl_pos_def: "0 < x \<Longrightarrow> fl x = of_int (round_half_even (x / 2 powi (binade x - 52))) * 2 powi (binade x - 52)"
  by (simp add: fl_def Let_def)

lemma fl_bounds:
  assumes "0 < x"
  shows "2 powi binade x \<le> fl x" and "fl x \<le> 2 powi (binade x + 1)"
proof -
  let ?e = "binade x"
  let ?q = "(2::rat) powi (?e - 52)"
  let ?m = "round_half_even (x / ?q)"
  have "round_half_even (of_int (2 ^ 52)) \<le> ?m"
    using scaled_bounds(1) [OF assms] by (intro round_half_even_mono) simp
  then have m1: "2 ^ 52 \<le> ?m" unfolding round_half_even_of_int .
  have "?m \<le> round_half_even (of_int (2 ^ 53))"
    using scaled_bounds(2) [OF assms] by (intro round_half_even_mono) simp
  then have m2: "?m \<le> 2 ^ 53" unfolding round_half_even_of_int .
  have e: "(2::rat) powi ?e = 2 ^ 52 * ?q"
    using power_int_add [of "2::rat" 52 "?e - 52"] by simp
  have e1: "(2::rat) powi (?e + 1) = 2 ^ 53 * ?q"
    using power_int_add [of "2::rat" 53 "?e - 52"] by (simp add: add.commute)
  have "(2::rat) ^ 52 \<le> of_int ?m" using m1 by (metis of_int_le_iff of_int_numeral of_int_power)
  then show "2 powi ?e \<le> fl x"
    unfolding e fl_pos_def [OF assms] using powi_pos [of "?e - 52"] by (simp add: mult_right_mono)
  have "of_int ?m \<le> (2::rat) ^ 53" using m2 by (metis of_int_le_iff of_int_numeral of_int_power)
  then show "fl x \<le> 2 powi (?e + 1)"
    unfolding e1 fl_pos_def [OF assms] using powi_pos [of "?e - 52"] by (simp add: mult_right_mono)
qed

lemma fl_nonneg: "0 \<le> x \<Longrightarrow> 0 \<le> fl x"
proof (cases "x = 0")
  case True then show ?thesis by (simp add: fl_def)
next
  case False
  assume "0 \<le> x"
  with False have "0 < x" by simp
  from fl_bounds(1) [OF this] powi_pos [of "binade x"] show ?thesis by linarith
qed

lemma fl_pos: "0 < x \<Longrightarrow> 0 < fl x"
  using fl_bounds(1) [of x] powi_pos [of "binade x"] by linarith

lemma fl_mono:
  assumes "0 \<le> x" "x \<le> y"
  shows "fl x \<le> fl y"
proof (cases "x = 0")
  case True
  then show ?thesis using fl_nonneg [of y] assms by (simp add: fl_def)
next
  case False
  with assms have x: "0 < x" and y: "0 < y" by simp_all
  show ?thesis
  proof (cases "binade x = binade y")
    case True
    let ?q = "(2::rat) powi (binade y - 52)"
    have "x / ?q \<le> y / ?q" using assms(2) powi_pos [of "binade y - 52"] by (simp add: divide_right_mono)
    then have "round_half_even (x / ?q) \<le> round_half_even (y / ?q)" by (rule round_half_even_mono)
    then have "(of_int (round_half_even (x / ?q)) :: rat) \<le> of_int (round_half_even (y / ?q))" by simp
    then show ?thesis
      unfolding fl_pos_def [OF x] fl_pos_def [OF y] True
      using powi_pos [of "binade y - 52"] by (simp add: mult_right_mono)
  next
    case False
    with binade_mono [OF x assms(2)] have "binade x + 1 \<le> binade y" by simp
    then have "(2::rat) powi (binade x + 1) \<le> 2 powi binade y"
      by (intro power_int_increasing) simp_all
    with fl_bounds(2) [OF x] fl_bounds(1) [OF y] show ?thesis by linarith
  qed
qed

lemma fl_err:
  assumes "0 < x"
  shows "\<bar>fl x - x\<bar> \<le> 2 powi (binade x - 53)"
proof -
  let ?q = "(2::rat) powi (binade x - 52)"
  let ?m = "round_half_even (x / ?q)"
  have q: "0 < ?q" by (rule powi_pos)
  have "fl x - x = (of_int ?m - x / ?q) * ?q"
    unfolding fl_pos_def [OF assms] using q by (simp add: algebra_simps)
  then have "\<bar>fl x - x\<bar> = \<bar>of_int ?m - x / ?q\<bar> * ?q"
    using q by (simp add: abs_mult)
  also have "\<dots> \<le> 1 / 2 * ?q"
    using round_half_even_err [of "x / ?q"] q by (intro mult_right_mono) simp_all
  also have "\<dots> = 2 powi (binade x - 53)"
    using power_int_add [of "2::rat" "binade x - 53" 1] by simp
  finally show ?thesis .
qed

lemma fl_exact:
  assumes "0 < x" "x / 2 powi (binade x - 52) = of_int m"
  shows "fl x = x"
  unfolding fl_pos_def [OF assms(1)] assms(2) round_half_even_of_int
  using assms(2) powi_pos [of "binade x - 52"] by (simp add: field_simps)

lemma fl_of_nat:
  assumes "n < 2 ^ 53"
  shows "fl (of_nat n) = of_nat n"
proof (cases "n = 0")
  case True then show ?thesis by (simp add: fl_def)
next
  case False
  let ?x = "of_nat n :: rat"
  have x: "0 < ?x" using False by simp
  have "?x < 2 ^ 53" using assms by (metis of_nat_less_iff of_nat_numeral of_nat_power)
  then have "(2::rat) powi binade ?x < 2 powi 53"
    using binade_bounds(1) [OF x] by simp
  then have e: "binade ?x < 53" by (rule powi_less_cancel)
  define k where "k = nat (52 - binade ?x)"
  have "binade ?x - 52 = - int k" using e by (simp add: k_def)
  then have "(2::rat) powi (binade ?x - 52) = 1 / 2 ^ k"
    by (simp add: power_int_minus_divide)
  then have "?x / 2 powi (binade ?x - 52) = of_int (int n * 2 ^ k)" by simp
  from fl_exact [OF x this] show ?thesis .
qed


lemma ceil_fl_div:
  assumes "S < 2 ^ 53"
  shows "\<lceil>fl (of_nat S / of_nat CHUNK_SIZE)\<rceil> = \<lceil>(of_nat S / of_nat CHUNK_SIZE :: rat)\<rceil>"
proof (cases "S = 0")
  case True then show ?thesis by (simp add: fl_def)
next
  case False
  let ?x = "of_nat S / of_nat CHUNK_SIZE :: rat"
  define k where "k = \<lceil>?x\<rceil>"
  have Cpos: "(0::rat) < of_nat CHUNK_SIZE" by (simp add: CHUNK_SIZE_def)
  have x: "0 < ?x" using False by (simp add: CHUNK_SIZE_def)
  have xk: "?x \<le> of_int k" and kx: "of_int k - 1 < ?x"
    unfolding k_def by linarith+
  have k1: "1 \<le> k" using x xk by linarith
  \<comment> \<open>the quotient is at most \<open>k\<close>, a double\<close>
  have "?x \<le> of_nat S" using False by (simp add: CHUNK_SIZE_def field_simps)
  then have "k \<le> int S" unfolding k_def by (simp add: ceiling_le_iff)
  then have "nat k < 2 ^ 53" using assms by linarith
  from fl_of_nat [OF this] have flk: "fl (of_int k) = of_int k" using k1 by simp
  have up: "fl ?x \<le> of_int k"
    using fl_mono [OF _ xk] x flk by simp
  \<comment> \<open>the quotient is at least \<open>1 / C\<close> above \<open>k - 1\<close>, the error below that\<close>
  have "of_int ((k - 1) * int CHUNK_SIZE) < (of_nat S :: rat)"
    using kx Cpos by (simp add: field_simps)
  then have "(k - 1) * int CHUNK_SIZE < int S" by (metis of_int_less_iff of_int_of_nat_eq)
  then have "(k - 1) * int CHUNK_SIZE + 1 \<le> int S" by simp
  then have "(of_int ((k - 1) * int CHUNK_SIZE + 1) :: rat) \<le> of_int (int S)" by (simp only: of_int_le_iff)
  then have "of_int k * of_nat CHUNK_SIZE - of_nat CHUNK_SIZE + 1 \<le> (of_nat S :: rat)"
    by (simp add: algebra_simps)
  moreover have "(of_int k - 1 + 1 / of_nat CHUNK_SIZE) * of_nat CHUNK_SIZE = of_int k * of_nat CHUNK_SIZE - of_nat CHUNK_SIZE + (1::rat)"
    using Cpos by (simp add: algebra_simps)
  ultimately have gap: "of_int k - 1 + 1 / of_nat CHUNK_SIZE \<le> ?x"
    using Cpos by (simp only: pos_le_divide_eq)
  have "?x < 2 ^ 31"
  proof -
    have "(of_nat S :: rat) < 2 ^ 53" using assms by (metis of_nat_less_iff of_nat_numeral of_nat_power)
    then show ?thesis by (simp add: CHUNK_SIZE_def field_simps)
  qed
  then have "(2::rat) powi binade ?x < 2 powi 31"
    using binade_bounds(1) [OF x] by simp
  then have "binade ?x < 31" by (rule powi_less_cancel)
  then have "(2::rat) powi (binade ?x - 53) \<le> 2 powi (- 23)"
    by (intro power_int_increasing) simp_all
  with fl_err [OF x] have "\<bar>fl ?x - ?x\<bar> \<le> 1 / 2 ^ 23"
    by (simp add: power_int_minus_divide)
  moreover have "(1::rat) / 2 ^ 23 < 1 / of_nat CHUNK_SIZE" by (simp add: CHUNK_SIZE_def)
  ultimately have lo: "of_int k - 1 < fl ?x" using gap by linarith
  have "\<lceil>fl ?x\<rceil> = k" using lo up by (intro ceiling_unique) simp_all
  then show ?thesis by (simp add: k_def)
qed

lemma ceiling_div_nat:
  assumes "0 < c"
  shows "nat \<lceil>(of_nat s / of_nat c :: rat)\<rceil> = (s + c - 1) div c"
proof -
  define n where "n = (s + c - 1) div c"
  have c: "(0::rat) < of_nat c" using assms by simp
  have m: "(s + c - 1) mod c < c" using assms by simp
  have d: "n * c + (s + c - 1) mod c = s + c - 1" by (simp add: n_def)
  have a: "s \<le> n * c" using m d assms by linarith
  have b: "n * c < s + c" using m d assms by linarith
  have "(of_nat s :: rat) \<le> of_nat (n * c)" using a by (simp only: of_nat_le_iff)
  then have a': "(of_nat s / of_nat c :: rat) \<le> of_int (int n)" using c by (simp add: field_simps)
  have "(of_nat (n * c) :: rat) < of_nat (s + c)" using b by (simp only: of_nat_less_iff)
  then have b': "of_int (int n) - 1 < (of_nat s / of_nat c :: rat)" using c by (simp add: field_simps)
  have "\<lceil>(of_nat s / of_nat c :: rat)\<rceil> = int n" using a' b' by (intro ceiling_unique)
  then show ?thesis by (simp add: n_def)
qed

lemma emit_fields [simp]:
  "file_state (emit e c) = file_state c"
  "progress (emit e c) = progress c"
  "message (emit e c) = message c"
  "input_value (emit e c) = input_value c"
  "totalUploadedBytes (emit e c) = totalUploadedBytes c"
  "parts (emit e c) = parts c"
  "trace (emit e c) = trace c @ [e]"
  by (simp_all add: emit_def)

lemma delay_fields [simp]:
  "file_state (delay ms c) = file_state c"
  "progress (delay ms c) = progress c"
  "message (delay ms c) = message c"
  "input_value (delay ms c) = input_value c"
  "totalUploadedBytes (delay ms c) = totalUploadedBytes c"
  "parts (delay ms c) = parts c"
  "trace (delay ms c) = trace c @ [Ev_delay ms]"
  by (simp_all add: delay_def)

lemma setMessage_fields [simp]:
  "file_state (setMessage m c) = file_state c"
  "progress (setMessage m c) = progress c"
  "message (setMessage m c) = m"
  "input_value (setMessage m c) = input_value c"
  "totalUploadedBytes (setMessage m c) = totalUploadedBytes c"
  "parts (setMessage m c) = parts c"
  "trace (setMessage m c) = trace c @ [Ev_message m]"
  by (simp_all add: setMessage_def)

lemma setProgress_fields [simp]:
  "file_state (setProgress p c) = (if p = Num 100 then None else file_state c)"
  "progress (setProgress p c) = Some p"
  "message (setProgress p c) = message c"
  "input_value (setProgress p c) = (if p = Num 100 then [] else input_value c)"
  "totalUploadedBytes (setProgress p c) = totalUploadedBytes c"
  "parts (setProgress p c) = parts c"
  "trace (setProgress p c) = trace c @ [Ev_progress p]"
  by (simp_all add: setProgress_def Let_def)

lemma onProgress_of_Some: "onProgress_of f i chunk (Some t) c = (None, chunk_done f i chunk t c)"
  by (simp add: onProgress_of_def chunk_done_def percent_of_def Let_def)

lemma onProgress_of_None: "onProgress_of f i chunk None c = (Some TypeError, c)"
  by (simp add: onProgress_of_def)

lemma try_upload_cases:
  "try_upload w url chunk (onProgress_of f i chunk) retry c =
     (case put_chunk w url chunk retry of
        Put_rejected \<Rightarrow> (Some Network_error, emit (Ev_put url chunk) c)
      | Put_response ok etag \<Rightarrow>
          if \<not> ok then (Some Chunk_upload_failed, emit (Ev_put url chunk) c)
          else (case etag of
                  None \<Rightarrow> (Some TypeError, emit (Ev_put url chunk) c)
                | Some t \<Rightarrow> (None, chunk_done f i chunk t (emit (Ev_put url chunk) c))))"
  by (simp add: try_upload_def Let_def onProgress_of_Some onProgress_of_None
      split: put_response.split option.split)

lemma try_upload_outcome:
  "(\<exists>t. try_upload w url chunk (onProgress_of f i chunk) retry c =
          (None, chunk_done f i chunk t (emit (Ev_put url chunk) c))) \<or>
   (\<exists>err. try_upload w url chunk (onProgress_of f i chunk) retry c =
          (Some err, emit (Ev_put url chunk) c))"
  by (auto simp: try_upload_cases split: put_response.split option.split)

lemma uploadChunkWithFetch_result:
  "uploadChunkWithFetch w url chunk cb retry c = (res, c') \<Longrightarrow> cb = onProgress_of f i chunk \<Longrightarrow>
   \<exists>es. list_all (is_attempt url chunk) es \<and>
     (case res of
        Some err \<Rightarrow> c' = c\<lparr>trace := trace c @ es\<rparr>
      | None \<Rightarrow> (\<exists>t. c' = chunk_done f i chunk t (c\<lparr>trace := trace c @ es\<rparr>)))"
proof (induction w url chunk cb retry c arbitrary: res c' rule: uploadChunkWithFetch.induct)
  case (1 w url chunk cb retry c)
  note cb = \<open>cb = onProgress_of f i chunk\<close>
  let ?c1 = "emit (Ev_put url chunk) c"
  consider (ok) t where "try_upload w url chunk cb retry c = (None, chunk_done f i chunk t ?c1)"
    | (fail) err where "try_upload w url chunk cb retry c = (Some err, ?c1)"
    using try_upload_outcome [of w url chunk f i retry c] unfolding cb by blast
  then show ?case
  proof cases
    case ok
    with "1.prems"(1) have "res = None" "c' = chunk_done f i chunk t ?c1"
      by (simp_all add: uploadChunkWithFetch.simps [of w url chunk cb retry c])
    then show ?thesis
      by (intro exI [of _ "[Ev_put url chunk]"]) (auto simp: emit_def)
  next
    case fail
    show ?thesis
    proof (cases "retry < MAX_RETRY")
      case True
      with fail "1.prems"(1)
      have "uploadChunkWithFetch w url chunk cb (retry + 1) (delay (retry * 20 * 1000) ?c1) = (res, c')"
        by (simp add: uploadChunkWithFetch.simps [of w url chunk cb retry c])
      from "1.IH" [OF fail [symmetric] refl True this cb]
      obtain es where es: "list_all (is_attempt url chunk) es"
        and r: "case res of
                  Some err \<Rightarrow> c' = (delay (retry * 20 * 1000) ?c1)\<lparr>trace := trace (delay (retry * 20 * 1000) ?c1) @ es\<rparr>
                | None \<Rightarrow> (\<exists>t. c' = chunk_done f i chunk t ((delay (retry * 20 * 1000) ?c1)\<lparr>trace := trace (delay (retry * 20 * 1000) ?c1) @ es\<rparr>))"
        by blast
      show ?thesis
        using es r
        by (intro exI [of _ "Ev_put url chunk # Ev_delay (retry * 20 * 1000) # es"])
           (auto simp: emit_def delay_def split: option.splits)
    next
      case False
      with fail "1.prems"(1) have "res = Some err" "c' = ?c1"
        by (simp_all add: uploadChunkWithFetch.simps [of w url chunk cb retry c])
      then show ?thesis
        by (intro exI [of _ "[Ev_put url chunk]"]) (auto simp: emit_def)
    qed
  qed
qed

lemma progress_values_append [simp]:
  "progress_values (xs @ ys) = progress_values xs @ progress_values ys"
  by (induction xs rule: progress_values.induct) simp_all

lemma progress_values_attempts:
  "list_all (is_attempt url chunk) es \<Longrightarrow> progress_values es = []"
  by (induction es rule: progress_values.induct) simp_all

lemma chunk_done_fields [simp]:
  "message (chunk_done f i chunk t c) = message c"
  "totalUploadedBytes (chunk_done f i chunk t c) = totalUploadedBytes c + blob_size chunk"
  "parts (chunk_done f i chunk t c) = parts c @ [\<lparr>PartNumber = i + 1, ETag = strip_quotes t\<rparr>]"
  "trace (chunk_done f i chunk t c) =
     trace c @ [Ev_progress (percent_of (totalUploadedBytes c + blob_size chunk) (fsize f))]"
  "progress (chunk_done f i chunk t c) =
     Some (percent_of (totalUploadedBytes c + blob_size chunk) (fsize f))"
  "file_state (chunk_done f i chunk t c) =
     (if percent_of (totalUploadedBytes c + blob_size chunk) (fsize f) = Num 100 then None
      else file_state c)"
  "input_value (chunk_done f i chunk t c) =
     (if percent_of (totalUploadedBytes c + blob_size chunk) (fsize f) = Num 100 then []
      else input_value c)"
  by (simp_all add: chunk_done_def)

lemma upload_loop_stop: "\<not> i < n \<Longrightarrow> upload_loop w f us n i c = (None, c)"
  by (simp add: upload_loop.simps [of w f us n i c])

lemma upload_loop_no_urls: "i < n \<Longrightarrow> upload_loop w f None n i c = (Some TypeError, c)"
  by (simp add: upload_loop.simps [of w f None n i c])

lemma upload_loop_step:
  "i < n \<Longrightarrow>
   upload_loop w f (Some urls) n i c =
     (case uploadChunkWithFetch w (url_at urls i) (chunk_of f i) (onProgress_of f i (chunk_of f i)) 1 c of
        (Some error, c') \<Rightarrow> (Some error, c')
      | (None, c') \<Rightarrow> upload_loop w f (Some urls) n (i + 1) c')"
  by (simp add: upload_loop.simps [of w f "Some urls" n i c] chunk_of_def Let_def)

text \<open>The bytes counted after chunk \<open>i\<close>.\<close>

lemma blob_size_chunk_of:
  "min (fsize f) (i * CHUNK_SIZE) + blob_size (chunk_of f i) = min (fsize f) ((i + 1) * CHUNK_SIZE)"
  by (simp add: chunk_of_def slice_def blob_size_def min_def)

lemma is_attempt_chunk_event:
  "i < n \<Longrightarrow> is_attempt (url_at urls i) (chunk_of f i) e \<Longrightarrow> is_chunk_event f urls n e"
  by (cases e) auto

lemma upload_loop_trace:
  "upload_loop w f us n i c = (res, c') \<Longrightarrow>
   \<exists>es. trace c' = trace c @ es \<and> (\<forall>urls. us = Some urls \<longrightarrow> list_all (is_chunk_event f urls n) es) \<and>
        (us = None \<longrightarrow> es = []) \<and>
        message c' = message c \<and> (tracked c \<longrightarrow> tracked c')"
proof (induction k \<equiv> "n - i" arbitrary: i c)
  case 0
  then show ?case by (simp add: upload_loop_stop)
next
  case (Suc k)
  then have i: "i < n" by simp
  show ?case
  proof (cases us)
    case None
    with Suc.prems i show ?thesis by (simp add: upload_loop_no_urls)
  next
    case (Some urls)
    let ?url = "url_at urls i" and ?chunk = "chunk_of f i"
    obtain r c1 where u: "uploadChunkWithFetch w ?url ?chunk (onProgress_of f i ?chunk) 1 c = (r, c1)"
      by force
    from uploadChunkWithFetch_result [OF u refl]
    obtain es where es: "list_all (is_attempt ?url ?chunk) es"
      and c1: "case r of Some err \<Rightarrow> c1 = c\<lparr>trace := trace c @ es\<rparr>
               | None \<Rightarrow> (\<exists>t. c1 = chunk_done f i ?chunk t (c\<lparr>trace := trace c @ es\<rparr>))"
      by blast
    have es': "list_all (is_chunk_event f urls n) es"
      using es i by (auto simp: list_all_iff intro: is_attempt_chunk_event)
    show ?thesis
    proof (cases r)
      case (Some err)
      with c1 u Suc.prems i \<open>us = Some urls\<close> have "res = Some err" "c' = c\<lparr>trace := trace c @ es\<rparr>"
        by (simp_all add: upload_loop_step)
      then show ?thesis using es' \<open>us = Some urls\<close> progress_values_attempts [OF es]
        by (auto simp: tracked_def)
    next
      case None
      with c1 obtain t where t: "c1 = chunk_done f i ?chunk t (c\<lparr>trace := trace c @ es\<rparr>)" by auto
      from None u Suc.prems i \<open>us = Some urls\<close> have "upload_loop w f us n (i + 1) c1 = (res, c')"
        by (simp add: upload_loop_step)
      moreover have "k = n - (i + 1)" using Suc.hyps(2) by simp
      ultimately obtain es2 where
        es2: "trace c' = trace c1 @ es2" "list_all (is_chunk_event f urls n) es2"
          "message c' = message c1" "tracked c1 \<longrightarrow> tracked c'"
        using Suc.hyps(1) [of "i + 1" c1] \<open>us = Some urls\<close> by auto
      have "tracked c1" by (simp add: t tracked_def)
      with es2 es' t \<open>us = Some urls\<close> show ?thesis
        by (intro exI [of _ "es @ Ev_progress (percent_of (totalUploadedBytes c + blob_size ?chunk) (fsize f)) # es2"])
           auto
    qed
  qed
qed

lemma upload_loop_success:
  "upload_loop w f us n i c = (None, c') \<Longrightarrow>
   totalUploadedBytes c = min (fsize f) (i * CHUNK_SIZE) \<Longrightarrow> i \<le> n \<Longrightarrow>
   totalUploadedBytes c' = min (fsize f) (n * CHUNK_SIZE) \<and>
   map PartNumber (parts c') = map PartNumber (parts c) @ map Suc [i..<n] \<and>
   progress_values (trace c') =
     progress_values (trace c) @
     map (\<lambda>j. percent_of (min (fsize f) ((j + 1) * CHUNK_SIZE)) (fsize f)) [i..<n] \<and>
   (i < n \<longrightarrow>
      (\<exists>pre. trace c' = pre @ [Ev_progress (percent_of (min (fsize f) (n * CHUNK_SIZE)) (fsize f))]) \<and>
      progress c' = Some (percent_of (min (fsize f) (n * CHUNK_SIZE)) (fsize f)) \<and>
      (percent_of (min (fsize f) (n * CHUNK_SIZE)) (fsize f) = Num 100 \<longrightarrow>
         file_state c' = None \<and> input_value c' = []))"
proof (induction k \<equiv> "n - i" arbitrary: i c)
  case 0
  then show ?case by (simp add: upload_loop_stop)
next
  case (Suc k)
  have i: "i < n" using Suc.hyps(2) by simp
  note run = Suc.prems(1) and tot = Suc.prems(2)
  obtain urls where us: "us = Some urls"
    using run i by (cases us) (simp_all add: upload_loop_no_urls)
  let ?url = "url_at urls i" and ?chunk = "chunk_of f i"
  obtain r c1 where u: "uploadChunkWithFetch w ?url ?chunk (onProgress_of f i ?chunk) 1 c = (r, c1)"
    by force
  have r: "r = None" using run u i us by (cases r) (simp_all add: upload_loop_step)
  from uploadChunkWithFetch_result [OF u refl] r
  obtain es t where es: "list_all (is_attempt ?url ?chunk) es"
    and c1: "c1 = chunk_done f i ?chunk t (c\<lparr>trace := trace c @ es\<rparr>)"
    by auto
  have next_run: "upload_loop w f us n (i + 1) c1 = (None, c')"
    using run u i us r by (simp add: upload_loop_step)
  have tot1: "totalUploadedBytes c1 = min (fsize f) ((i + 1) * CHUNK_SIZE)"
    using blob_size_chunk_of [of f i] by (simp add: c1 tot)
  have k: "k = n - (i + 1)" using Suc.hyps(2) by simp
  have le: "i + 1 \<le> n" using i by simp
  note ih = Suc.hyps(1) [OF k next_run tot1 le]
  have pv: "progress_values (trace c1) =
              progress_values (trace c) @ [percent_of (min (fsize f) ((i + 1) * CHUNK_SIZE)) (fsize f)]"
    using blob_size_chunk_of [of f i] progress_values_attempts [OF es] by (simp add: c1 tot)
  have a: "totalUploadedBytes c' = min (fsize f) (n * CHUNK_SIZE)" using ih by blast
  have b: "map PartNumber (parts c') = map PartNumber (parts c) @ map Suc [i..<n]"
    using ih i by (simp add: c1 upt_conv_Cons)
  have c: "progress_values (trace c') =
         progress_values (trace c) @
         map (\<lambda>j. percent_of (min (fsize f) ((j + 1) * CHUNK_SIZE)) (fsize f)) [i..<n]"
    using ih i by (simp add: pv upt_conv_Cons)
  have d: "(\<exists>pre. trace c' = pre @ [Ev_progress (percent_of (min (fsize f) (n * CHUNK_SIZE)) (fsize f))]) \<and>
      progress c' = Some (percent_of (min (fsize f) (n * CHUNK_SIZE)) (fsize f)) \<and>
      (percent_of (min (fsize f) (n * CHUNK_SIZE)) (fsize f) = Num 100 \<longrightarrow>
         file_state c' = None \<and> input_value c' = [])"
  proof (cases "i + 1 < n")
    case True
    with ih show ?thesis by blast
  next
    case False
    with i have n: "n = i + 1" by simp
    then have "c' = c1" using next_run by (simp add: upload_loop_stop)
    then show ?thesis using blob_size_chunk_of [of f i] by (simp add: c1 tot n)
  qed
  show ?case using a b c d by blast
qed

lemma percent_of_pos:
  "0 < s \<Longrightarrow> percent_of t s = Num (of_int \<lfloor>fl (fl (of_nat t / of_nat s) * 100) + 1 / 2\<rfloor>)"
  by (simp add: percent_of_def js_div_def js_times_100_def Math_round_def)

lemma percent_of_mono:
  assumes "0 < s" "t \<le> t'"
  shows "js_le (percent_of t s) (percent_of t' s)"
proof -
  have "(of_nat t / of_nat s :: rat) \<le> of_nat t' / of_nat s"
    using assms by (simp add: divide_right_mono)
  then have "fl (of_nat t / of_nat s) \<le> fl (of_nat t' / of_nat s)"
    by (intro fl_mono) simp_all
  then have "fl (fl (of_nat t / of_nat s) * 100) \<le> fl (fl (of_nat t' / of_nat s) * 100)"
    by (intro fl_mono mult_nonneg_nonneg fl_nonneg) simp_all
  then have "\<lfloor>fl (fl (of_nat t / of_nat s) * 100) + 1 / 2\<rfloor> \<le> \<lfloor>fl (fl (of_nat t' / of_nat s) * 100) + 1 / 2\<rfloor>"
    by (intro floor_mono) simp
  then show ?thesis using assms(1) by (simp add: percent_of_pos)
qed

lemma fl_1: "fl 1 = 1"
  using fl_of_nat [of 1] by simp

lemma fl_100: "fl 100 = 100"
  using fl_of_nat [of 100] by simp

lemma floor_100_half: "\<lfloor>(201::rat) / 2\<rfloor> = 100"
  by (rule floor_unique) simp_all

lemma floor_half: "\<lfloor>(1::rat) / 2\<rfloor> = 0"
  by (rule floor_unique) simp_all

lemma percent_of_full: "0 < s \<Longrightarrow> percent_of s s = Num 100"
  by (simp add: percent_of_pos fl_1 fl_100 floor_100_half)

lemma percent_of_zero: "0 < s \<Longrightarrow> percent_of 0 s = Num 0"
  by (simp add: percent_of_pos fl_def floor_half)

lemma Math_ceil_div_CHUNK_SIZE:
  "S < 2 ^ 53 \<Longrightarrow> Math_ceil_div S CHUNK_SIZE = (S + CHUNK_SIZE - 1) div CHUNK_SIZE"
  unfolding Math_ceil_div_def ceil_fl_div
  by (rule ceiling_div_nat) (simp add: CHUNK_SIZE_def)

lemma Math_ceil_div_zero: "Math_ceil_div 0 CHUNK_SIZE = 0"
  by (simp add: Math_ceil_div_def fl_def)

lemma chunk_count_covers:
  assumes "fsize f < 2 ^ 53"
  shows "fsize f \<le> chunkCount_of f * CHUNK_SIZE"
    and "0 < fsize f \<Longrightarrow> (chunkCount_of f - 1) * CHUNK_SIZE < fsize f"
    and "0 < fsize f \<Longrightarrow> 0 < chunkCount_of f"
proof -
  let ?n = "(fsize f + CHUNK_SIZE - 1) div CHUNK_SIZE"
  have n: "chunkCount_of f = ?n"
    unfolding chunkCount_of_def by (rule Math_ceil_div_CHUNK_SIZE [OF assms])
  have C: "0 < CHUNK_SIZE" by (simp add: CHUNK_SIZE_def)
  have m: "(fsize f + CHUNK_SIZE - 1) mod CHUNK_SIZE < CHUNK_SIZE" using C by simp
  have d: "?n * CHUNK_SIZE + (fsize f + CHUNK_SIZE - 1) mod CHUNK_SIZE = fsize f + CHUNK_SIZE - 1"
    by simp
  show "fsize f \<le> chunkCount_of f * CHUNK_SIZE" unfolding n using m d C by linarith
  show "0 < chunkCount_of f" if "0 < fsize f"
    unfolding n using that C by (simp add: div_greater_zero_iff)
  show "(chunkCount_of f - 1) * CHUNK_SIZE < fsize f" if "0 < fsize f"
  proof -
    have "0 < ?n" using that C by (simp add: div_greater_zero_iff)
    then obtain k where k: "?n = Suc k" by (cases ?n) simp_all
    have "k * CHUNK_SIZE + CHUNK_SIZE + (fsize f + CHUNK_SIZE - 1) mod CHUNK_SIZE = fsize f + CHUNK_SIZE - 1"
      using d unfolding k by simp
    then have "k * CHUNK_SIZE < fsize f" using that by linarith
    then show ?thesis unfolding n k by simp
  qed
qed

text \<open>How a run goes: the four ways it can end.\<close>

lemma run_cases:
  obtains
    (create_failed) err where
      "create_multipart w (fileName_of w f) (ftype f) (chunkCount_of f) \<in> {Create_rejected, Create_not_json, Create_null}"
      "uploadChunks w f (setProgress (Num 0) (selected f)) =
         (Some err, (before_loop w f)\<lparr>trace := [Ev_progress (Num 0),
               Ev_create_multipart (fileName_of w f) (ftype f) (chunkCount_of f)]\<rparr>)"
  | (chunk_failed) uploadId us err c3 where
      "create_multipart w (fileName_of w f) (ftype f) (chunkCount_of f) = Create_json uploadId us"
      "upload_loop w f us (chunkCount_of f) 0 (before_loop w f) = (Some err, c3)"
      "uploadChunks w f (setProgress (Num 0) (selected f)) = (Some err, c3)"
  | (complete_failed) uploadId us c3 where
      "create_multipart w (fileName_of w f) (ftype f) (chunkCount_of f) = Create_json uploadId us"
      "upload_loop w f us (chunkCount_of f) 0 (before_loop w f) = (None, c3)"
      "complete_multipart w (fileName_of w f) uploadId (parts c3) (fsize f) = Complete_rejected"
      "uploadChunks w f (setProgress (Num 0) (selected f)) =
         (Some Network_error, emit (Ev_complete_multipart (fileName_of w f) uploadId (parts c3) (fsize f)) c3)"
  | (completed) uploadId us c3 ok where
      "create_multipart w (fileName_of w f) (ftype f) (chunkCount_of f) = Create_json uploadId us"
      "upload_loop w f us (chunkCount_of f) 0 (before_loop w f) = (None, c3)"
      "complete_multipart w (fileName_of w f) uploadId (parts c3) (fsize f) = Complete_response ok"
      "uploadChunks w f (setProgress (Num 0) (selected f)) =
         (None, setMessage ''File uploaded successfully!''
                  (emit Ev_onUploadComplete
                     (emit (Ev_complete_multipart (fileName_of w f) uploadId (parts c3) (fsize f)) c3)))"
proof -
  have start: "setProgress (Num 0) ((emit (Ev_create_multipart (fileName_of w f) (ftype f) (chunkCount_of f))
                  (setProgress (Num 0) (selected f)))\<lparr>totalUploadedBytes := 0, parts := []\<rparr>) = before_loop w f"
    by (simp add: before_loop_def setProgress_def emit_def selected_def handleFileChange_def mounted_def)
  have start': "emit (Ev_create_multipart (fileName_of w f) (ftype f) (chunkCount_of f))
                  (setProgress (Num 0) (selected f)) =
                (before_loop w f)\<lparr>trace := [Ev_progress (Num 0),
               Ev_create_multipart (fileName_of w f) (ftype f) (chunkCount_of f)]\<rparr>"
    by (simp add: before_loop_def setProgress_def emit_def selected_def handleFileChange_def mounted_def)
  note uc = uploadChunks_def [of w f "setProgress (Num 0) (selected f)", unfolded Let_def,
      folded fileName_of_def chunkCount_of_def]
  show thesis
  proof (cases "create_multipart w (fileName_of w f) (ftype f) (chunkCount_of f)")
    case Create_rejected
    then show ?thesis
      by (intro create_failed [of Network_error])
         (simp_all add: uc start')
  next
    case Create_not_json
    then show ?thesis
      by (intro create_failed [of SyntaxError])
         (simp_all add: uc start')
  next
    case Create_null
    then show ?thesis
      by (intro create_failed [of TypeError])
         (simp_all add: uc start')
  next
    case (Create_json uploadId us)
    obtain r c3 where loop: "upload_loop w f us (chunkCount_of f) 0 (before_loop w f) = (r, c3)"
      by force
    show ?thesis
    proof (cases r)
      case (Some err)
      with Create_json loop show ?thesis
        by (intro chunk_failed [of uploadId us err c3])
           (simp_all add: uc start)
    next
      case None
      show ?thesis
      proof (cases "complete_multipart w (fileName_of w f) uploadId (parts c3) (fsize f)")
        case Complete_rejected
        with None Create_json loop show ?thesis
          by (intro complete_failed [of uploadId us c3])
             (simp_all add: uc start)
      next
        case (Complete_response ok)
        with None Create_json loop show ?thesis
          by (intro completed [of uploadId us c3 ok])
             (simp_all add: uc start)
      qed
    qed
  qed
qed

lemma run_eq:
  "run w f =
     (case uploadChunks w f (setProgress (Num 0) (selected f)) of
        (None, c') \<Rightarrow> c'
      | (Some error, c') \<Rightarrow> setMessage ''Failed to upload file'' c')"
  by (simp add: run_def handleUpload_def selected_def handleFileChange_def)

lemma non_success_attempt_fails: "non_success r \<Longrightarrow> attempt_fails r"
  by (cases r rule: attempt_fails.cases) simp_all

lemma try_upload_non_success:
  "non_success (put_chunk w url chunk retry) \<Longrightarrow>
   \<exists>err. try_upload w url chunk onProgress retry c = (Some err, emit (Ev_put url chunk) c)"
  by (cases "put_chunk w url chunk retry") (simp_all add: try_upload_def Let_def)

lemma try_upload_attempt_fails:
  "attempt_fails (put_chunk w url chunk retry) \<Longrightarrow>
   \<exists>err. try_upload w url chunk (onProgress_of f i chunk) retry c = (Some err, emit (Ev_put url chunk) c)"
  by (cases "put_chunk w url chunk retry" rule: attempt_fails.cases)
     (simp_all add: try_upload_cases)

lemma uploadChunkWithFetch_failed_attempt:
  "try_upload w url chunk onProgress retry c = (Some err, c1) \<Longrightarrow>
   uploadChunkWithFetch w url chunk onProgress retry c =
     (if retry < MAX_RETRY
      then uploadChunkWithFetch w url chunk onProgress (retry + 1) (delay (retry * 20 * 1000) c1)
      else (Some err, c1))"
  by (simp add: uploadChunkWithFetch.simps [of w url chunk onProgress retry c])

lemma uploadChunkWithFetch_all_fail:
  "\<forall>r. retry \<le> r \<and> r \<le> MAX_RETRY \<longrightarrow> attempt_fails (put_chunk w url chunk r) \<Longrightarrow>
   retry \<le> MAX_RETRY \<Longrightarrow>
   fst (uploadChunkWithFetch w url chunk (onProgress_of f i chunk) retry c) \<noteq> None"
proof (induction k \<equiv> "MAX_RETRY - retry" arbitrary: retry c)
  case 0
  then have r: "retry = MAX_RETRY" by simp
  from 0 obtain err where
    "try_upload w url chunk (onProgress_of f i chunk) retry c = (Some err, emit (Ev_put url chunk) c)"
    using try_upload_attempt_fails [of w url chunk retry f i c] by auto
  from uploadChunkWithFetch_failed_attempt [OF this] show ?case by (simp add: r)
next
  case (Suc k)
  then have r: "retry < MAX_RETRY" by simp
  from Suc.prems obtain err where
    "try_upload w url chunk (onProgress_of f i chunk) retry c = (Some err, emit (Ev_put url chunk) c)"
    using try_upload_attempt_fails [of w url chunk retry f i c] by auto
  from uploadChunkWithFetch_failed_attempt [OF this]
  have "uploadChunkWithFetch w url chunk (onProgress_of f i chunk) retry c =
        uploadChunkWithFetch w url chunk (onProgress_of f i chunk) (retry + 1)
          (delay (retry * 20 * 1000) (emit (Ev_put url chunk) c))"
    using r by simp
  moreover have "fst (uploadChunkWithFetch w url chunk (onProgress_of f i chunk) (retry + 1)
          (delay (retry * 20 * 1000) (emit (Ev_put url chunk) c))) \<noteq> None"
    using Suc.hyps(2) Suc.prems r by (intro Suc.hyps(1)) auto
  ultimately show ?case by simp
qed

lemma upload_loop_blocked:
  "i \<le> j \<Longrightarrow> j < n \<Longrightarrow>
   \<forall>r. 1 \<le> r \<and> r \<le> MAX_RETRY \<longrightarrow> attempt_fails (put_chunk w (url_at urls j) (chunk_of f j) r) \<Longrightarrow>
   upload_loop w f (Some urls) n i c = (res, c') \<Longrightarrow>
   res \<noteq> None \<and> PartNumber ` set (parts c') \<subseteq> PartNumber ` set (parts c) \<union> {i + 1..j}"
proof (induction k \<equiv> "j - i" arbitrary: i c)
  case 0
  then have ij: "i = j" by simp
  let ?url = "url_at urls j" and ?chunk = "chunk_of f j"
  obtain r c1 where u: "uploadChunkWithFetch w ?url ?chunk (onProgress_of f j ?chunk) 1 c = (r, c1)"
    by force
  have "r \<noteq> None"
    using uploadChunkWithFetch_all_fail [of 1 w ?url ?chunk f j c] "0.prems"(3) u
    by (simp add: MAX_RETRY_def)
  then obtain err where r: "r = Some err" by auto
  from uploadChunkWithFetch_result [OF u refl] r obtain es where "c1 = c\<lparr>trace := trace c @ es\<rparr>"
    by auto
  with "0.prems"(2,4) u r show ?case by (auto simp: ij upload_loop_step)
next
  case (Suc k)
  then have i: "i < j" "i < n" by simp_all
  let ?url = "url_at urls i" and ?chunk = "chunk_of f i"
  obtain r c1 where u: "uploadChunkWithFetch w ?url ?chunk (onProgress_of f i ?chunk) 1 c = (r, c1)"
    by force
  from uploadChunkWithFetch_result [OF u refl] obtain es where
    c1: "case r of Some err \<Rightarrow> c1 = c\<lparr>trace := trace c @ es\<rparr>
         | None \<Rightarrow> (\<exists>t. c1 = chunk_done f i ?chunk t (c\<lparr>trace := trace c @ es\<rparr>))"
    by blast
  show ?case
  proof (cases r)
    case (Some err)
    with c1 u Suc.prems(4) i show ?thesis by (auto simp: upload_loop_step)
  next
    case None
    with c1 obtain t where t: "c1 = chunk_done f i ?chunk t (c\<lparr>trace := trace c @ es\<rparr>)" by auto
    from None u Suc.prems(4) i have "upload_loop w f (Some urls) n (i + 1) c1 = (res, c')"
      by (simp add: upload_loop_step)
    moreover have "k = j - (i + 1)" "i + 1 \<le> j" using Suc.hyps(2) by simp_all
    ultimately have "res \<noteq> None \<and> PartNumber ` set (parts c') \<subseteq> PartNumber ` set (parts c1) \<union> {i + 1 + 1..j}"
      using Suc.hyps(1) [of "i + 1" c1] Suc.prems(2,3) by blast
    then show ?thesis using i by (auto simp: t)
  qed
qed

text \<open>Where a request for finalization in the trace of a run comes from.\<close>

lemma is_chunk_event_not_complete:
  "list_all (is_chunk_event f urls n) es \<Longrightarrow> e \<in> set es \<Longrightarrow> is_transfer e"
  by (cases e) (auto simp: list_all_iff)

lemma upload_loop_events:
  assumes "upload_loop w f us n i c = (res, c')"
  obtains es where "trace c' = trace c @ es" "\<forall>e\<in>set es. is_transfer e"
    "\<And>urls. us = Some urls \<Longrightarrow> list_all (is_chunk_event f urls n) es"
    "message c' = message c" "tracked c \<Longrightarrow> tracked c'"
proof -
  from upload_loop_trace [OF assms] obtain es where
    es: "trace c' = trace c @ es" "\<forall>urls. us = Some urls \<longrightarrow> list_all (is_chunk_event f urls n) es"
      "us = None \<longrightarrow> es = []" "message c' = message c" "tracked c \<longrightarrow> tracked c'"
    by blast
  have "\<forall>e\<in>set es. is_transfer e"
  proof (cases us)
    case None
    with es show ?thesis by simp
  next
    case (Some urls)
    with es show ?thesis by (auto intro: is_chunk_event_not_complete)
  qed
  with es show thesis by (intro that [of es]) auto
qed

lemma trace_before_loop:
  "trace (before_loop w f) =
     [Ev_progress (Num 0), Ev_create_multipart (fileName_of w f) (ftype f) (chunkCount_of f),
      Ev_progress (Num 0)]"
  by (simp add: before_loop_def)

lemma before_loop_fields [simp]:
  "totalUploadedBytes (before_loop w f) = 0"
  "parts (before_loop w f) = []"
  "message (before_loop w f) = []"
  "progress (before_loop w f) = Some (Num 0)"
  "file_state (before_loop w f) = Some f"
  by (simp_all add: before_loop_def)

lemma tracked_before_loop: "tracked (before_loop w f)"
  by (simp add: tracked_def before_loop_def)

lemma complete_in_run:
  assumes "Ev_complete_multipart fileName uploadId ps fileSize \<in> set (trace (run w f))"
  obtains us c3 where
    "create_multipart w (fileName_of w f) (ftype f) (chunkCount_of f) = Create_json uploadId us"
    "upload_loop w f us (chunkCount_of f) 0 (before_loop w f) = (None, c3)"
    "ps = parts c3" "fileName = fileName_of w f" "fileSize = fsize f"
proof (cases w f rule: run_cases)
  case (create_failed err)
  with assms show ?thesis by (simp add: run_eq before_loop_def)
next
  case (chunk_failed uid us err c3)
  from upload_loop_events [OF chunk_failed(2)] obtain es where
    "trace c3 = trace (before_loop w f) @ es" "\<forall>e\<in>set es. is_transfer e" by metis
  with assms chunk_failed(3) show ?thesis by (auto simp: run_eq trace_before_loop)
next
  case (complete_failed uid us c3)
  from upload_loop_events [OF complete_failed(2)] obtain es where
    "trace c3 = trace (before_loop w f) @ es" "\<forall>e\<in>set es. is_transfer e" by metis
  with assms complete_failed(4) have "uploadId = uid \<and> ps = parts c3 \<and> fileName = fileName_of w f \<and> fileSize = fsize f"
    by (auto simp: run_eq trace_before_loop)
  with complete_failed show ?thesis by (intro that [of us c3]) simp_all
next
  case (completed uid us c3 ok)
  from upload_loop_events [OF completed(2)] obtain es where
    "trace c3 = trace (before_loop w f) @ es" "\<forall>e\<in>set es. is_transfer e" by metis
  with assms completed(4) have "uploadId = uid \<and> ps = parts c3 \<and> fileName = fileName_of w f \<and> fileSize = fsize f"
    by (auto simp: run_eq trace_before_loop)
  with completed show ?thesis by (intro that [of us c3]) simp_all
qed

text \<open>
  Claim C1. A request for finalization, which the component sends only when every chunk has
  been stored, carries as many tokens as there are chunks, and their part numbers are
  \<open>1, 2, \<dots>, chunkCount\<close> in this order: none missing, none twice.
\<close>

theorem finalization_parts_contiguous:
  "Ev_complete_multipart fileName uploadId ps fileSize \<in> set (trace (run w f)) \<Longrightarrow>
   length ps = chunkCount_of f \<and> map PartNumber ps = [1..<chunkCount_of f + 1]"
proof -
  assume "Ev_complete_multipart fileName uploadId ps fileSize \<in> set (trace (run w f))"
  then obtain us c3 where loop: "upload_loop w f us (chunkCount_of f) 0 (before_loop w f) = (None, c3)"
    and ps: "ps = parts c3"
    by (rule complete_in_run)
  from upload_loop_success [OF loop]
  have "map PartNumber ps = map Suc [0..<chunkCount_of f]" by (simp add: ps)
  also have "\<dots> = [1..<chunkCount_of f + 1]" by (simp add: map_Suc_upt)
  finally have m: "map PartNumber ps = [1..<chunkCount_of f + 1]" .
  have "length ps = length (map PartNumber ps)" by simp
  also have "\<dots> = length [1..<chunkCount_of f + 1]" by (simp only: m)
  also have "\<dots> = chunkCount_of f" by simp
  finally show ?thesis using m by blast
qed

lemma strip_quoted_etag: "strip_quotes quoted_etag = ''e''"
  by (simp add: strip_quotes_def quoted_etag_def)

lemma uploadChunkWithFetch_first_try:
  "put_chunk w url chunk (Suc 0) = Put_response True (Some t) \<Longrightarrow>
   uploadChunkWithFetch w url chunk (onProgress_of f i chunk) (Suc 0) c =
     (None, chunk_done f i chunk t (emit (Ev_put url chunk) c))"
  by (subst uploadChunkWithFetch.simps) (simp add: try_upload_cases)

lemma run_completed:
  "create_multipart w (fileName_of w f) (ftype f) (chunkCount_of f) = Create_json uploadId us \<Longrightarrow>
   upload_loop w f us (chunkCount_of f) 0 (before_loop w f) = (None, c3) \<Longrightarrow>
   complete_multipart w (fileName_of w f) uploadId (parts c3) (fsize f) = Complete_response ok \<Longrightarrow>
   run w f = setMessage ''File uploaded successfully!''
               (emit Ev_onUploadComplete
                  (emit (Ev_complete_multipart (fileName_of w f) uploadId (parts c3) (fsize f)) c3))"
  by (cases w f rule: run_cases) (auto simp: run_eq)

lemma chunkCount_one_byte: "chunkCount_of one_byte_file = 1"
  by (simp add: chunkCount_of_def one_byte_file_def Math_ceil_div_CHUNK_SIZE) (simp add: CHUNK_SIZE_def)

lemma loop_ok_one_byte:
  "upload_loop ok_world one_byte_file (Some [''s'']) 1 0 (before_loop ok_world one_byte_file) =
     (None, chunk_done one_byte_file 0 (chunk_of one_byte_file 0) quoted_etag
              (emit (Ev_put (Some ''s'') (chunk_of one_byte_file 0)) (before_loop ok_world one_byte_file)))"
  by (simp add: upload_loop_step upload_loop_stop uploadChunkWithFetch_first_try ok_world_def url_at_def)

lemma run_ok_one_byte:
  "run ok_world one_byte_file =
     \<lparr>file_state = None, progress = Some (Num 100), message = ''File uploaded successfully!'',
      input_value = [], totalUploadedBytes = 1, parts = [\<lparr>PartNumber = 1, ETag = ''e''\<rparr>],
      trace =
        [Ev_progress (Num 0), Ev_create_multipart ''17_a'' ''t'' 1, Ev_progress (Num 0),
         Ev_put (Some ''s'') \<lparr>blob_start = 0, blob_end = 1\<rparr>, Ev_progress (Num 100),
         Ev_complete_multipart ''17_a'' (Some ''u'') [\<lparr>PartNumber = 1, ETag = ''e''\<rparr>] 1,
         Ev_onUploadComplete, Ev_message ''File uploaded successfully!'']\<rparr>"
proof -
  have cr: "create_multipart ok_world (fileName_of ok_world one_byte_file) (ftype one_byte_file)
          (chunkCount_of one_byte_file) = Create_json (Some ''u'') (Some [''s''])"
    by (simp add: ok_world_def chunkCount_one_byte)
  have co: "complete_multipart ok_world fileName uploadId ps fileSize = Complete_response True"
    for fileName uploadId ps fileSize
    by (simp add: ok_world_def)
  have ch: "chunk_of one_byte_file 0 = \<lparr>blob_start = 0, blob_end = 1\<rparr>"
    by (simp add: chunk_of_def slice_def one_byte_file_def CHUNK_SIZE_def)
  have p: "percent_of 1 (fsize one_byte_file) = Num 100"
    using percent_of_full [of 1] by (simp add: one_byte_file_def)
  have n: "fileName_of ok_world one_byte_file = ''17_a''"
    by (simp add: fileName_of_def ok_world_def one_byte_file_def)
  have fs: "fsize one_byte_file = 1" "fname one_byte_file = ''a''" "ftype one_byte_file = ''t''"
    by (simp_all add: one_byte_file_def)
  show ?thesis
    unfolding run_completed [OF cr loop_ok_one_byte [folded chunkCount_one_byte] co]
    by (simp add: ch n chunk_done_def setMessage_def emit_def setProgress_def before_loop_def
        blob_size_def strip_quoted_etag chunkCount_one_byte fs percent_of_full Let_def)
qed

lemma chunk_of_explicit:
  assumes "fsize f < 2 ^ 53" "i < chunkCount_of f"
  shows "chunk_of f i = \<lparr>blob_start = i * CHUNK_SIZE, blob_end = min (fsize f) ((i + 1) * CHUNK_SIZE)\<rparr>"
proof -
  have pos: "0 < fsize f"
  proof (rule ccontr)
    assume "\<not> 0 < fsize f"
    then have "chunkCount_of f = 0" by (simp add: chunkCount_of_def Math_ceil_div_zero)
    with assms(2) show False by simp
  qed
  have "i \<le> chunkCount_of f - 1" using assms(2) by linarith
  then have "i * CHUNK_SIZE \<le> (chunkCount_of f - 1) * CHUNK_SIZE" by (rule mult_le_mono1)
  with chunk_count_covers(2) [OF assms(1) pos] have "i * CHUNK_SIZE < fsize f" by linarith
  then show ?thesis by (simp add: chunk_of_def slice_def)
qed

lemma last_chunk_size:
  assumes "fsize f < 2 ^ 53" "0 < fsize f"
  shows "blob_size (chunk_of f (chunkCount_of f - 1)) = fsize f - (chunkCount_of f - 1) * CHUNK_SIZE"
    and "blob_size (chunk_of f (chunkCount_of f - 1)) \<le> CHUNK_SIZE"
    and "0 < blob_size (chunk_of f (chunkCount_of f - 1))"
proof -
  let ?n = "chunkCount_of f"
  have n: "0 < ?n" by (rule chunk_count_covers(3) [OF assms])
  then have n1: "?n - 1 + 1 = ?n" by simp
  have lo: "(?n - 1) * CHUNK_SIZE < fsize f" by (rule chunk_count_covers(2) [OF assms])
  have hi: "fsize f \<le> ?n * CHUNK_SIZE" by (rule chunk_count_covers(1) [OF assms(1)])
  have c: "chunk_of f (?n - 1) = \<lparr>blob_start = (?n - 1) * CHUNK_SIZE, blob_end = fsize f\<rparr>"
    using chunk_of_explicit [OF assms(1), of "?n - 1"] n hi by (simp add: n1)
  show "blob_size (chunk_of f (?n - 1)) = fsize f - (?n - 1) * CHUNK_SIZE"
    unfolding c blob_size_def by simp
  have "?n * CHUNK_SIZE = (?n - 1) * CHUNK_SIZE + CHUNK_SIZE"
    using n by (metis n1 add_mult_distrib mult_1)
  with hi show "blob_size (chunk_of f (?n - 1)) \<le> CHUNK_SIZE"
    unfolding c blob_size_def by simp
  show "0 < blob_size (chunk_of f (?n - 1))" using lo unfolding c blob_size_def by simp
qed

lemma int_chunkCount_of:
  "fsize f < 2 ^ 53 \<Longrightarrow> int (chunkCount_of f) = \<lceil>rat_of_nat (fsize f) / rat_of_nat CHUNK_SIZE\<rceil>"
proof -
  assume "fsize f < 2 ^ 53"
  then have "chunkCount_of f = nat \<lceil>rat_of_nat (fsize f) / rat_of_nat CHUNK_SIZE\<rceil>"
    by (simp add: chunkCount_of_def Math_ceil_div_def ceil_fl_div)
  moreover have "(0::rat) \<le> rat_of_nat (fsize f) / rat_of_nat CHUNK_SIZE" by simp
  then have "0 \<le> \<lceil>rat_of_nat (fsize f) / rat_of_nat CHUNK_SIZE\<rceil>"
    unfolding zero_le_ceiling by linarith
  ultimately show ?thesis by simp
qed

text \<open>The events of a run, whatever its end.\<close>

lemma run_trace:
  obtains es tl where
    "trace (run w f) =
       [Ev_progress (Num 0), Ev_create_multipart (fileName_of w f) (ftype f) (chunkCount_of f)] @ es @ tl"
    "\<forall>e\<in>set es. is_transfer e"
    "\<forall>url b. Ev_put url b \<in> set es \<longrightarrow> (\<exists>i<chunkCount_of f. b = chunk_of f i)"
    "\<forall>e\<in>set tl. \<not> is_transfer e \<and> \<not> is_create e"
proof (cases w f rule: run_cases)
  case (create_failed err)
  then show ?thesis
    by (intro that [of "[]" "[Ev_message ''Failed to upload file'']"]) (simp_all add: run_eq)
next
  case (chunk_failed uid us err c3)
  from upload_loop_events [OF chunk_failed(2)] obtain es where
    es: "trace c3 = trace (before_loop w f) @ es" "\<forall>e\<in>set es. is_transfer e"
      "\<And>urls. us = Some urls \<Longrightarrow> list_all (is_chunk_event f urls (chunkCount_of f)) es"
    by metis
  have puts: "\<forall>url b. Ev_put url b \<in> set es \<longrightarrow> (\<exists>i<chunkCount_of f. b = chunk_of f i)"
  proof (cases us)
    case None
    from upload_loop_trace [OF chunk_failed(2)] None es(1) have "es = []" by auto
    then show ?thesis by simp
  next
    case (Some urls)
    from es(3) [OF this] show ?thesis by (fastforce simp: list_all_iff)
  qed
  show ?thesis
    using es(1,2) puts chunk_failed(3)
    by (intro that [of "Ev_progress (Num 0) # es" "[Ev_message ''Failed to upload file'']"])
       (simp_all add: run_eq trace_before_loop)
next
  case (complete_failed uid us c3)
  from upload_loop_events [OF complete_failed(2)] obtain es where
    es: "trace c3 = trace (before_loop w f) @ es" "\<forall>e\<in>set es. is_transfer e"
      "\<And>urls. us = Some urls \<Longrightarrow> list_all (is_chunk_event f urls (chunkCount_of f)) es"
    by metis
  have puts: "\<forall>url b. Ev_put url b \<in> set es \<longrightarrow> (\<exists>i<chunkCount_of f. b = chunk_of f i)"
  proof (cases us)
    case None
    from upload_loop_trace [OF complete_failed(2)] None es(1) have "es = []" by auto
    then show ?thesis by simp
  next
    case (Some urls)
    from es(3) [OF this] show ?thesis by (fastforce simp: list_all_iff)
  qed
  show ?thesis
    using es(1,2) puts complete_failed(4)
    by (intro that [of "Ev_progress (Num 0) # es"
          "[Ev_complete_multipart (fileName_of w f) uid (parts c3) (fsize f),
            Ev_message ''Failed to upload file'']"])
       (simp_all add: run_eq trace_before_loop)
next
  case (completed uid us c3 ok)
  from upload_loop_events [OF completed(2)] obtain es where
    es: "trace c3 = trace (before_loop w f) @ es" "\<forall>e\<in>set es. is_transfer e"
      "\<And>urls. us = Some urls \<Longrightarrow> list_all (is_chunk_event f urls (chunkCount_of f)) es"
    by metis
  have puts: "\<forall>url b. Ev_put url b \<in> set es \<longrightarrow> (\<exists>i<chunkCount_of f. b = chunk_of f i)"
  proof (cases us)
    case None
    from upload_loop_trace [OF completed(2)] None es(1) have "es = []" by auto
    then show ?thesis by simp
  next
    case (Some urls)
    from es(3) [OF this] show ?thesis by (fastforce simp: list_all_iff)
  qed
  show ?thesis
    using es(1,2) puts completed(4)
    by (intro that [of "Ev_progress (Num 0) # es"
          "[Ev_complete_multipart (fileName_of w f) uid (parts c3) (fsize f),
            Ev_onUploadComplete, Ev_message ''File uploaded successfully!'']"])
       (simp_all add: run_eq trace_before_loop)
qed

text \<open>
  Claim C2. For a file whose size is an integer that a double holds exactly, the number of
  chunks that the component computes and sends is the size divided by 5 MiB, rounded up;
  every chunk it uploads is the byte range from \<open>i * CHUNK_SIZE\<close> to
  \<open>min size ((i + 1) * CHUNK_SIZE)\<close> for an index \<open>i\<close> below that number; and the last chunk
  holds the \<open>size - (chunkCount - 1) * CHUNK_SIZE\<close> bytes that remain, at most 5 MiB.
\<close>

theorem chunking_covers_file:
  assumes "fsize f < 2 ^ 53"
  shows
    "int (chunkCount_of f) = \<lceil>rat_of_nat (fsize f) / rat_of_nat CHUNK_SIZE\<rceil> \<and>
     (\<forall>fileName fileType n. Ev_create_multipart fileName fileType n \<in> set (trace (run w f)) \<longrightarrow>
        n = chunkCount_of f) \<and>
     (\<forall>url b. Ev_put url b \<in> set (trace (run w f)) \<longrightarrow>
        (\<exists>i<chunkCount_of f.
           b = \<lparr>blob_start = i * CHUNK_SIZE, blob_end = min (fsize f) ((i + 1) * CHUNK_SIZE)\<rparr>)) \<and>
     (\<forall>i<chunkCount_of f.
        chunk_of f i = \<lparr>blob_start = i * CHUNK_SIZE, blob_end = min (fsize f) ((i + 1) * CHUNK_SIZE)\<rparr>) \<and>
     (0 < fsize f \<longrightarrow>
        blob_size (chunk_of f (chunkCount_of f - 1)) = fsize f - (chunkCount_of f - 1) * CHUNK_SIZE \<and>
        blob_size (chunk_of f (chunkCount_of f - 1)) \<le> CHUNK_SIZE)"
proof -
  obtain es tl where
    tr: "trace (run w f) =
       [Ev_progress (Num 0), Ev_create_multipart (fileName_of w f) (ftype f) (chunkCount_of f)] @ es @ tl"
    and es: "\<forall>e\<in>set es. is_transfer e"
    and puts: "\<forall>url b. Ev_put url b \<in> set es \<longrightarrow> (\<exists>i<chunkCount_of f. b = chunk_of f i)"
    and tl: "\<forall>e\<in>set tl. \<not> is_transfer e \<and> \<not> is_create e"
    by (rule run_trace)
  have a: "int (chunkCount_of f) = \<lceil>rat_of_nat (fsize f) / rat_of_nat CHUNK_SIZE\<rceil>"
    by (rule int_chunkCount_of [OF assms])
  have b: "n = chunkCount_of f"
    if "Ev_create_multipart fileName fileType n \<in> set (trace (run w f))" for fileName fileType n
    using that es tl unfolding tr by auto
  have c: "\<exists>i<chunkCount_of f.
           b = \<lparr>blob_start = i * CHUNK_SIZE, blob_end = min (fsize f) ((i + 1) * CHUNK_SIZE)\<rparr>"
    if "Ev_put url b \<in> set (trace (run w f))" for url b
  proof -
    from that tl have "Ev_put url b \<in> set es" unfolding tr by auto
    with puts obtain i where "i < chunkCount_of f" "b = chunk_of f i" by blast
    with chunk_of_explicit [OF assms] show ?thesis by auto
  qed
  have d: "\<forall>i<chunkCount_of f.
        chunk_of f i = \<lparr>blob_start = i * CHUNK_SIZE, blob_end = min (fsize f) ((i + 1) * CHUNK_SIZE)\<rparr>"
    using chunk_of_explicit [OF assms] by blast
  have e: "0 < fsize f \<longrightarrow>
        blob_size (chunk_of f (chunkCount_of f - 1)) = fsize f - (chunkCount_of f - 1) * CHUNK_SIZE \<and>
        blob_size (chunk_of f (chunkCount_of f - 1)) \<le> CHUNK_SIZE"
    using last_chunk_size [OF assms] by blast
  show ?thesis using a b c d e by blast
qed

lemma uploadChunkWithFetch_stored:
  "put_chunk w url chunk retry = Put_response True (Some t) \<Longrightarrow>
   uploadChunkWithFetch w url chunk (onProgress_of f i chunk) retry c =
     (None, chunk_done f i chunk t (emit (Ev_put url chunk) c))"
  by (subst uploadChunkWithFetch.simps) (simp add: try_upload_cases)

lemma uploadChunkWithFetch_again:
  "attempt_fails (put_chunk w url chunk retry) \<Longrightarrow> retry < MAX_RETRY \<Longrightarrow>
   uploadChunkWithFetch w url chunk (onProgress_of f i chunk) retry c =
     uploadChunkWithFetch w url chunk (onProgress_of f i chunk) (retry + 1)
       (delay (retry * 20 * 1000) (emit (Ev_put url chunk) c))"
  using try_upload_attempt_fails [of w url chunk retry f i c]
  by (auto simp: uploadChunkWithFetch_failed_attempt)

lemma uploadChunkWithFetch_unfold:
  "uploadChunkWithFetch w url chunk (onProgress_of f i chunk) retry c =
     (case put_chunk w url chunk retry of
        Put_rejected \<Rightarrow>
          if retry < MAX_RETRY
          then uploadChunkWithFetch w url chunk (onProgress_of f i chunk) (retry + 1)
                 (delay (retry * 20 * 1000) (emit (Ev_put url chunk) c))
          else (Some Network_error, emit (Ev_put url chunk) c)
      | Put_response ok etag \<Rightarrow>
          if \<not> ok then
            if retry < MAX_RETRY
            then uploadChunkWithFetch w url chunk (onProgress_of f i chunk) (retry + 1)
                   (delay (retry * 20 * 1000) (emit (Ev_put url chunk) c))
            else (Some Chunk_upload_failed, emit (Ev_put url chunk) c)
          else (case etag of
                  None \<Rightarrow>
                    if retry < MAX_RETRY
                    then uploadChunkWithFetch w url chunk (onProgress_of f i chunk) (retry + 1)
                           (delay (retry * 20 * 1000) (emit (Ev_put url chunk) c))
                    else (Some TypeError, emit (Ev_put url chunk) c)
                | Some t \<Rightarrow> (None, chunk_done f i chunk t (emit (Ev_put url chunk) c))))"
  by (subst uploadChunkWithFetch.simps)
     (simp add: try_upload_cases split: put_response.split option.split)

lemma round_5_8: "\<lfloor>fl (fl (5 / 8) * 100) + 1 / 2\<rfloor> = 63"
  by code_simp

lemma percent_5_of_8_MiB: "percent_of 5242880 8388608 = Num 63"
  by (simp add: percent_of_pos round_5_8)

lemma two_chunk_file_fields:
  "fsize two_chunk_file = 8388608" "fname two_chunk_file = ''a''" "ftype two_chunk_file = ''t''"
  by (simp_all add: two_chunk_file_def)

lemma chunkCount_two_chunk_file: "chunkCount_of two_chunk_file = 2"
  by (simp add: chunkCount_of_def two_chunk_file_fields Math_ceil_div_CHUNK_SIZE)
     (simp add: CHUNK_SIZE_def)

lemma chunks_two_chunk_file:
  "chunk_of two_chunk_file 0 = \<lparr>blob_start = 0, blob_end = 5242880\<rparr>"
  "chunk_of two_chunk_file (Suc 0) = \<lparr>blob_start = 5242880, blob_end = 8388608\<rparr>"
  by (simp_all add: chunk_of_def slice_def two_chunk_file_fields CHUNK_SIZE_def)

lemma before_loop_flaky:
  "before_loop flaky_world two_chunk_file =
     \<lparr>file_state = Some two_chunk_file, progress = Some (Num 0), message = [], input_value = ''a'',
      totalUploadedBytes = 0, parts = [],
      trace = [Ev_progress (Num 0), Ev_create_multipart ''17_a'' ''t'' 2, Ev_progress (Num 0)]\<rparr>"
  by (simp add: before_loop_def fileName_of_def flaky_world_def two_chunk_file_fields
      chunkCount_two_chunk_file)

lemma loop_flaky:
  "upload_loop flaky_world two_chunk_file (Some [''s'', ''s'']) 2 0
     (before_loop flaky_world two_chunk_file) = (None, flaky_after_loop)"
  unfolding before_loop_flaky
  by (simp add: upload_loop_step upload_loop_stop uploadChunkWithFetch_unfold chunks_two_chunk_file
      flaky_world_def url_at_def MAX_RETRY_def chunk_done_def blob_size_def two_chunk_file_fields
      percent_5_of_8_MiB percent_of_full strip_quoted_etag emit_def delay_def setProgress_def
      flaky_after_loop_def Let_def)

lemma run_flaky:
  "run flaky_world two_chunk_file =
     flaky_after_loop
       \<lparr>message := ''File uploaded successfully!'',
        trace := trace flaky_after_loop @
          [Ev_complete_multipart ''17_a'' (Some ''u'')
             [\<lparr>PartNumber = 1, ETag = ''e''\<rparr>, \<lparr>PartNumber = 2, ETag = ''e''\<rparr>] 8388608,
           Ev_onUploadComplete, Ev_message ''File uploaded successfully!'']\<rparr>"
proof -
  have cr: "create_multipart flaky_world (fileName_of flaky_world two_chunk_file) (ftype two_chunk_file)
          (chunkCount_of two_chunk_file) = Create_json (Some ''u'') (Some [''s'', ''s''])"
    by (simp add: flaky_world_def chunkCount_two_chunk_file numeral_2_eq_2)
  have co: "complete_multipart flaky_world fileName uploadId ps fileSize = Complete_response True"
    for fileName uploadId ps fileSize
    by (simp add: flaky_world_def)
  have n: "fileName_of flaky_world two_chunk_file = ''17_a''"
    by (simp add: fileName_of_def flaky_world_def two_chunk_file_fields)
  show ?thesis
    unfolding run_completed [OF cr loop_flaky [folded chunkCount_two_chunk_file] co]
    by (simp add: n setMessage_def emit_def two_chunk_file_fields flaky_after_loop_def)
qed

theorem finalization_parts_contiguous_witness:
  "Ev_complete_multipart ''17_a'' (Some ''u'')
     [\<lparr>PartNumber = 1, ETag = ''e''\<rparr>, \<lparr>PartNumber = 2, ETag = ''e''\<rparr>] 8388608
     \<in> set (trace (run flaky_world two_chunk_file)) \<and>
   length [\<lparr>PartNumber = 1, ETag = ''e''\<rparr>, \<lparr>PartNumber = 2, ETag = ''e''\<rparr>] =
     chunkCount_of two_chunk_file \<and>
   map PartNumber [\<lparr>PartNumber = 1, ETag = ''e''\<rparr>, \<lparr>PartNumber = 2, ETag = ''e''\<rparr>] =
     [1..<chunkCount_of two_chunk_file + 1]"
proof -
  have h: "Ev_complete_multipart ''17_a'' (Some ''u'')
     [\<lparr>PartNumber = 1, ETag = ''e''\<rparr>, \<lparr>PartNumber = 2, ETag = ''e''\<rparr>] 8388608
     \<in> set (trace (run flaky_world two_chunk_file))"
    by (simp add: run_flaky)
  from finalization_parts_contiguous [OF h] h show ?thesis by blast
qed

theorem chunking_covers_file_witness:
  "fsize two_chunk_file < 2 ^ 53 \<and> 0 < fsize two_chunk_file \<and>
   Ev_create_multipart ''17_a'' ''t'' 2 \<in> set (trace (run flaky_world two_chunk_file)) \<and>
   Ev_put (Some ''s'') \<lparr>blob_start = 5242880, blob_end = 8388608\<rparr>
     \<in> set (trace (run flaky_world two_chunk_file)) \<and>
   int (chunkCount_of two_chunk_file) = \<lceil>rat_of_nat 8388608 / rat_of_nat CHUNK_SIZE\<rceil> \<and>
   chunkCount_of two_chunk_file = 2 \<and>
   (\<exists>i<chunkCount_of two_chunk_file.
      \<lparr>blob_start = 5242880, blob_end = 8388608\<rparr> =
      \<lparr>blob_start = i * CHUNK_SIZE, blob_end = min (fsize two_chunk_file) ((i + 1) * CHUNK_SIZE)\<rparr>) \<and>
   blob_size (chunk_of two_chunk_file (chunkCount_of two_chunk_file - 1)) =
     fsize two_chunk_file - (chunkCount_of two_chunk_file - 1) * CHUNK_SIZE \<and>
   blob_size (chunk_of two_chunk_file (chunkCount_of two_chunk_file - 1)) \<le> CHUNK_SIZE"
proof -
  have size: "fsize two_chunk_file < 2 ^ 53" "0 < fsize two_chunk_file"
    by (simp_all add: two_chunk_file_fields)
  have cr: "Ev_create_multipart ''17_a'' ''t'' 2 \<in> set (trace (run flaky_world two_chunk_file))"
    by (simp add: run_flaky flaky_after_loop_def)
  have put: "Ev_put (Some ''s'') \<lparr>blob_start = 5242880, blob_end = 8388608\<rparr>
     \<in> set (trace (run flaky_world two_chunk_file))"
    by (simp add: run_flaky flaky_after_loop_def)
  note * = chunking_covers_file [OF size(1), of flaky_world]
  from * have "int (chunkCount_of two_chunk_file) = \<lceil>rat_of_nat 8388608 / rat_of_nat CHUNK_SIZE\<rceil>"
    by (simp add: two_chunk_file_fields)
  moreover from * have "\<forall>fileName fileType n.
      Ev_create_multipart fileName fileType n \<in> set (trace (run flaky_world two_chunk_file)) \<longrightarrow>
      n = chunkCount_of two_chunk_file"
    by (elim conjE)
  with cr have "chunkCount_of two_chunk_file = 2" by (metis (full_types))
  moreover from * have "\<forall>url b. Ev_put url b \<in> set (trace (run flaky_world two_chunk_file)) \<longrightarrow>
      (\<exists>i<chunkCount_of two_chunk_file.
         b = \<lparr>blob_start = i * CHUNK_SIZE, blob_end = min (fsize two_chunk_file) ((i + 1) * CHUNK_SIZE)\<rparr>)"
    by (elim conjE)
  with put have "\<exists>i<chunkCount_of two_chunk_file.
      \<lparr>blob_start = 5242880, blob_end = 8388608\<rparr> =
      \<lparr>blob_start = i * CHUNK_SIZE, blob_end = min (fsize two_chunk_file) ((i + 1) * CHUNK_SIZE)\<rparr>"
    by (metis (full_types))
  moreover from * size(2) have
    "blob_size (chunk_of two_chunk_file (chunkCount_of two_chunk_file - 1)) =
       fsize two_chunk_file - (chunkCount_of two_chunk_file - 1) * CHUNK_SIZE \<and>
     blob_size (chunk_of two_chunk_file (chunkCount_of two_chunk_file - 1)) \<le> CHUNK_SIZE"
    by (elim conjE impE) simp_all
  ultimately show ?thesis using size cr put by (intro conjI) simp_all
qed

lemma sign_loop_stop: "\<not> i < n \<Longrightarrow> sign_loop be Key UploadId n i urls s = (Inr urls, s)"
  by (simp add: sign_loop.simps [of be Key UploadId n i urls s])

lemma sign_loop_step:
  "i < n \<Longrightarrow>
   sign_loop be Key UploadId n i urls s =
     (case s3_getSignedUrl_uploadPart be (part_params be Key UploadId (i + 1)) of
        Inl err \<Rightarrow> (Inl err, call (Call_getSignedUrl_uploadPart (part_params be Key UploadId (i + 1))) s)
      | Inr signedUrl \<Rightarrow>
          sign_loop be Key UploadId n (i + 1) (urls @ [signedUrl])
            (call (Call_getSignedUrl_uploadPart (part_params be Key UploadId (i + 1))) s))"
  by (simp add: sign_loop.simps [of be Key UploadId n i urls s] part_params_def Let_def
      split: sum.split)

lemma sign_loop_urls:
  "sign_loop be Key UploadId n i urls s = (Inr us, s') \<Longrightarrow> i \<le> n \<Longrightarrow>
   length us = length urls + (n - i) \<and> take (length urls) us = urls \<and>
   (\<forall>j. i \<le> j \<and> j < n \<longrightarrow>
      s3_getSignedUrl_uploadPart be (part_params be Key UploadId (j + 1)) = Inr (us ! (length urls + (j - i)))) \<and>
   docs s' = docs s"
proof (induction k \<equiv> "n - i" arbitrary: i urls s)
  case 0
  then show ?case by (auto simp: sign_loop_stop)
next
  case (Suc k)
  then have i: "i < n" by simp
  let ?p = "part_params be Key UploadId (i + 1)"
  obtain u where u: "s3_getSignedUrl_uploadPart be ?p = Inr u"
    using Suc.prems(1) i by (cases "s3_getSignedUrl_uploadPart be ?p") (simp_all add: sign_loop_step)
  with Suc.prems(1) i have
    "sign_loop be Key UploadId n (i + 1) (urls @ [u]) (call (Call_getSignedUrl_uploadPart ?p) s) = (Inr us, s')"
    by (simp add: sign_loop_step)
  moreover have "k = n - (i + 1)" "i + 1 \<le> n" using Suc.hyps(2) by simp_all
  ultimately have ih:
    "length us = length (urls @ [u]) + (n - (i + 1))" "take (length (urls @ [u])) us = urls @ [u]"
    "\<forall>j. i + 1 \<le> j \<and> j < n \<longrightarrow>
      s3_getSignedUrl_uploadPart be (part_params be Key UploadId (j + 1)) =
      Inr (us ! (length (urls @ [u]) + (j - (i + 1))))"
    "docs s' = docs (call (Call_getSignedUrl_uploadPart ?p) s)"
    using Suc.hyps(1) [of "i + 1" "urls @ [u]" "call (Call_getSignedUrl_uploadPart ?p) s"] by blast+
  have len: "length us = length urls + (n - i)" using ih(1) i by simp
  have ih2: "take (Suc (length urls)) us = urls @ [u]" using ih(2) by simp
  have tk: "take (length urls) us = urls"
  proof -
    have "take (length urls) us = take (length urls) (take (Suc (length urls)) us)"
      by (simp add: min_def)
    also have "\<dots> = urls" by (simp only: ih2) simp
    finally show ?thesis .
  qed
  have at_i: "us ! length urls = u"
  proof -
    have "us ! length urls = take (Suc (length urls)) us ! length urls" by simp
    also have "\<dots> = u" by (simp only: ih2) simp
    finally show ?thesis .
  qed
  have nth: "s3_getSignedUrl_uploadPart be (part_params be Key UploadId (j + 1)) = Inr (us ! (length urls + (j - i)))"
    if "i \<le> j" "j < n" for j
  proof (cases "j = i")
    case True
    then show ?thesis using u at_i by simp
  next
    case False
    with that have j: "i + 1 \<le> j" by simp
    then have "length (urls @ [u]) + (j - (i + 1)) = length urls + (j - i)" by simp
    with ih(3) j that(2) show ?thesis by auto
  qed
  show ?case using len tk nth ih(4) by (simp add: call_def)
qed

text \<open>
  Claim C7. When the controller answers a request to open a session with success, the body
  holds exactly \<open>chunkCount\<close> signed URLs; the URL at position \<open>i\<close> (from 0) is the one the
  storage signed for part number \<open>i + 1\<close> of this session, with an expiry of
  \<open>EXPIRATION_HOURS = 86400\<close> seconds, a full day.
\<close>

theorem createMultipartUpload_urls:
  "createMultipartUpload be req s = (Sent 200 (Body_create uploadId urls), s') \<Longrightarrow>
   length urls = cr_chunkCount req \<and>
   (\<forall>i<cr_chunkCount req.
      s3_getSignedUrl_uploadPart be
        \<lparr>up_Bucket = AWS_BUCKET_NAME be, up_Key = cr_fileName req, up_UploadId = uploadId,
         up_Expires = 24 * 60 * 60, up_PartNumber = i + 1\<rparr> = Inr (urls ! i)) \<and>
   EXPIRATION_HOURS = 24 * 60 * 60"
proof -
  assume r: "createMultipartUpload be req s = (Sent 200 (Body_create uploadId urls), s')"
  let ?s1 = "call (Call_createMultipartUpload (AWS_BUCKET_NAME be) (cr_fileName req) (cr_fileType req)) s"
  from r obtain uid where
    uid: "s3_createMultipartUpload be (AWS_BUCKET_NAME be) (cr_fileName req) (cr_fileType req) = Inr uid"
    by (cases "s3_createMultipartUpload be (AWS_BUCKET_NAME be) (cr_fileName req) (cr_fileType req)")
       (simp_all add: createMultipartUpload_def Let_def)
  obtain res s2 where l: "sign_loop be (cr_fileName req) uid (cr_chunkCount req) 0 [] ?s1 = (res, s2)"
    by force
  from r uid l have "res = Inr urls" "uid = uploadId"
    by (cases res; simp add: createMultipartUpload_def Let_def)+
  with l have "sign_loop be (cr_fileName req) uploadId (cr_chunkCount req) 0 [] ?s1 = (Inr urls, s2)"
    by simp
  from sign_loop_urls [OF this] have
    "length urls = cr_chunkCount req"
    "\<forall>j<cr_chunkCount req.
       s3_getSignedUrl_uploadPart be (part_params be (cr_fileName req) uploadId (j + 1)) = Inr (urls ! j)"
    by simp_all
  moreover have "EXPIRATION_HOURS = 24 * 60 * 60" by (simp add: EXPIRATION_HOURS_def)
  ultimately show ?thesis by (simp add: part_params_def)
qed

lemma createMultipartUpload_ok:
  "createMultipartUpload ok_backend create_request empty_server =
     (Sent 200 (Body_create ''u'' [''s'', ''ss'']),
      \<lparr>docs = [],
       calls = [Call_createMultipartUpload ''b'' ''17_a'' ''t'',
                Call_getSignedUrl_uploadPart (part_params ok_backend ''17_a'' ''u'' 1),
                Call_getSignedUrl_uploadPart (part_params ok_backend ''17_a'' ''u'' 2)]\<rparr>)"
  by (simp add: createMultipartUpload_def Let_def create_request_def ok_backend_def empty_server_def
      call_def sign_loop_step sign_loop_stop part_params_def numeral_2_eq_2)

theorem createMultipartUpload_urls_witness:
  "createMultipartUpload ok_backend create_request empty_server =
     (Sent 200 (Body_create ''u'' [''s'', ''ss'']),
      \<lparr>docs = [],
       calls = [Call_createMultipartUpload ''b'' ''17_a'' ''t'',
                Call_getSignedUrl_uploadPart (part_params ok_backend ''17_a'' ''u'' 1),
                Call_getSignedUrl_uploadPart (part_params ok_backend ''17_a'' ''u'' 2)]\<rparr>) \<and>
   length [''s'', ''ss''] = cr_chunkCount create_request \<and>
   s3_getSignedUrl_uploadPart ok_backend
     \<lparr>up_Bucket = ''b'', up_Key = ''17_a'', up_UploadId = ''u'', up_Expires = 86400,
      up_PartNumber = 1\<rparr> = Inr ''s'' \<and>
   s3_getSignedUrl_uploadPart ok_backend
     \<lparr>up_Bucket = ''b'', up_Key = ''17_a'', up_UploadId = ''u'', up_Expires = 86400,
      up_PartNumber = 2\<rparr> = Inr ''ss'' \<and>
   EXPIRATION_HOURS = 86400"
proof -
  note t = createMultipartUpload_urls [OF createMultipartUpload_ok]
  have n: "AWS_BUCKET_NAME ok_backend = ''b''" "cr_fileName create_request = ''17_a''"
    "cr_chunkCount create_request = 2"
    by (simp_all add: ok_backend_def create_request_def)
  from t have "length [''s'', ''ss''] = cr_chunkCount create_request" by blast
  moreover from t have "\<forall>i<cr_chunkCount create_request.
      s3_getSignedUrl_uploadPart ok_backend
        \<lparr>up_Bucket = AWS_BUCKET_NAME ok_backend, up_Key = cr_fileName create_request,
         up_UploadId = ''u'', up_Expires = 24 * 60 * 60, up_PartNumber = i + 1\<rparr> =
      Inr ([''s'', ''ss''] ! i)"
    by blast
  then have every: "s3_getSignedUrl_uploadPart ok_backend
        \<lparr>up_Bucket = ''b'', up_Key = ''17_a'', up_UploadId = ''u'', up_Expires = 24 * 60 * 60,
         up_PartNumber = i + 1\<rparr> =
      Inr ([''s'', ''ss''] ! i)" if "i < 2" for i
    unfolding n using that by blast
  from every [of 0] every [of 1] have "s3_getSignedUrl_uploadPart ok_backend
     \<lparr>up_Bucket = ''b'', up_Key = ''17_a'', up_UploadId = ''u'', up_Expires = 86400,
      up_PartNumber = 1\<rparr> = Inr ''s''"
    "s3_getSignedUrl_uploadPart ok_backend
     \<lparr>up_Bucket = ''b'', up_Key = ''17_a'', up_UploadId = ''u'', up_Expires = 86400,
      up_PartNumber = 2\<rparr> = Inr ''ss''"
    by (simp_all add: numeral_2_eq_2)
  moreover from t have "EXPIRATION_HOURS = 86400" by simp
  ultimately show ?thesis using createMultipartUpload_ok by blast
qed

text \<open>
  Claim C5. When the storage rejects the list of tokens, the controller answers with status
  500 and the message of the error, and stores no document: the metadata store is as it
  was. More generally, whenever the controller answers anything but success the store is
  unchanged.
\<close>

theorem completeMultipartUpload_rejected:
  "s3_completeMultipartUpload be (AWS_BUCKET_NAME be) (co_fileName req) (co_uploadId req) (co_parts req) =
     Inl err \<Longrightarrow>
   fst (completeMultipartUpload be req s) = Sent 500 (Body_error err) \<and>
   docs (snd (completeMultipartUpload be req s)) = docs s \<and>
   (\<forall>doc. Call_save doc \<notin> set (calls (snd (completeMultipartUpload be req s))) - set (calls s))"
  by (simp add: completeMultipartUpload_def Let_def call_def)

theorem completeMultipartUpload_rejected_witness:
  "s3_completeMultipartUpload no_assembly_backend (AWS_BUCKET_NAME no_assembly_backend)
     (co_fileName complete_request) (co_uploadId complete_request) (co_parts complete_request) =
     Inl ''InvalidPartOrder'' \<and>
   fst (completeMultipartUpload no_assembly_backend complete_request empty_server) =
     Sent 500 (Body_error ''InvalidPartOrder'') \<and>
   docs (snd (completeMultipartUpload no_assembly_backend complete_request empty_server)) = [] \<and>
   docs (snd (completeMultipartUpload ok_backend complete_request empty_server)) =
     [\<lparr>file_name = ''17_a'', file_size = 8388608, s3Key = ''17_a'', uploadDate = 17\<rparr>]"
proof -
  have h: "s3_completeMultipartUpload no_assembly_backend (AWS_BUCKET_NAME no_assembly_backend)
     (co_fileName complete_request) (co_uploadId complete_request) (co_parts complete_request) =
     Inl ''InvalidPartOrder''"
    by (simp add: no_assembly_backend_def)
  have ok: "docs (snd (completeMultipartUpload ok_backend complete_request empty_server)) =
     [\<lparr>file_name = ''17_a'', file_size = 8388608, s3Key = ''17_a'', uploadDate = 17\<rparr>]"
    by (simp add: completeMultipartUpload_def Let_def ok_backend_def complete_request_def
        empty_server_def call_def)
  from completeMultipartUpload_rejected [OF h, of empty_server] h ok show ?thesis
    by (simp add: empty_server_def)
qed

text \<open>
  Claim C6, as the code has it. The call that opens the session stands before the
  \<^verbatim>\<open>try\<close> block of \<^verbatim>\<open>createMultipartUpload\<close>: when the storage refuses, the promise of
  the handler rejects and the handler has sent no response, where a failure of the signing
  inside the block is answered with status 500. The storage is called once.
\<close>

theorem createMultipartUpload_rejection_uncaught:
  "createMultipartUpload no_session_backend create_request empty_server =
     (Rejected ''NoSuchBucket'',
      \<lparr>docs = [], calls = [Call_createMultipartUpload ''b'' ''17_a'' ''t'']\<rparr>) \<and>
   createMultipartUpload no_signing_backend create_request empty_server =
     (Sent 500 (Body_error ''CredentialsError''),
      \<lparr>docs = [],
       calls = [Call_createMultipartUpload ''b'' ''17_a'' ''t'',
                Call_getSignedUrl_uploadPart (part_params ok_backend ''17_a'' ''u'' 1)]\<rparr>)"
  by (simp add: createMultipartUpload_def Let_def create_request_def ok_backend_def empty_server_def
      no_session_backend_def no_signing_backend_def
      call_def sign_loop_step sign_loop_stop part_params_def numeral_2_eq_2)

lemma createMultipartUpload_no_session:
  "s3_createMultipartUpload be (AWS_BUCKET_NAME be) (cr_fileName req) (cr_fileType req) = Inl err \<Longrightarrow>
   createMultipartUpload be req s =
     (Rejected err, s\<lparr>calls := calls s @ [Call_createMultipartUpload (AWS_BUCKET_NAME be) (cr_fileName req) (cr_fileType req)]\<rparr>)"
  by (simp add: createMultipartUpload_def Let_def call_def)

lemma chunkCount_of_empty: "fsize f = 0 \<Longrightarrow> chunkCount_of f = 0"
  by (simp add: chunkCount_of_def Math_ceil_div_zero)

lemma run_of_empty:
  assumes "fsize f = 0"
    and "create_multipart w (fileName_of w f) (ftype f) 0 = Create_json uploadId preSignedUrls"
    and "complete_multipart w (fileName_of w f) uploadId [] 0 = Complete_response ok"
  shows "run w f =
     \<lparr>file_state = Some f, progress = Some (Num 0), message = ''File uploaded successfully!'',
      input_value = fname f, totalUploadedBytes = 0, parts = [],
      trace =
        [Ev_progress (Num 0), Ev_create_multipart (fileName_of w f) (ftype f) 0,
         Ev_progress (Num 0), Ev_complete_multipart (fileName_of w f) uploadId [] 0,
         Ev_onUploadComplete, Ev_message ''File uploaded successfully!'']\<rparr>"
proof -
  note n = chunkCount_of_empty [OF assms(1)]
  have loop: "upload_loop w f preSignedUrls (chunkCount_of f) 0 (before_loop w f) = (None, before_loop w f)"
    by (simp add: n upload_loop_stop)
  show ?thesis
    using run_completed [OF _ loop, of uploadId ok] assms(2,3)
    by (simp add: n assms(1) before_loop_def setMessage_def emit_def)
qed

lemma run_ok_empty_file:
  "run ok_world empty_file =
     \<lparr>file_state = Some empty_file, progress = Some (Num 0),
      message = ''File uploaded successfully!'', input_value = ''a'', totalUploadedBytes = 0,
      parts = [],
      trace =
        [Ev_progress (Num 0), Ev_create_multipart ''17_a'' ''t'' 0, Ev_progress (Num 0),
         Ev_complete_multipart ''17_a'' (Some ''u'') [] 0, Ev_onUploadComplete,
         Ev_message ''File uploaded successfully!'']\<rparr>"
proof -
  have "fsize empty_file = 0" by (simp add: empty_file_def)
  moreover have "create_multipart ok_world (fileName_of ok_world empty_file) (ftype empty_file) 0 =
      Create_json (Some ''u'') (Some [])"
    by (simp add: ok_world_def)
  moreover have "complete_multipart ok_world (fileName_of ok_world empty_file) (Some ''u'') [] 0 =
      Complete_response True"
    by (simp add: ok_world_def)
  ultimately have "run ok_world empty_file =
     \<lparr>file_state = Some empty_file, progress = Some (Num 0), message = ''File uploaded successfully!'',
      input_value = fname empty_file, totalUploadedBytes = 0, parts = [],
      trace =
        [Ev_progress (Num 0), Ev_create_multipart (fileName_of ok_world empty_file) (ftype empty_file) 0,
         Ev_progress (Num 0), Ev_complete_multipart (fileName_of ok_world empty_file) (Some ''u'') [] 0,
         Ev_onUploadComplete, Ev_message ''File uploaded successfully!'']\<rparr>"
    by (rule run_of_empty)
  moreover have "fileName_of ok_world empty_file = ''17_a''" "fname empty_file = ''a''" "ftype empty_file = ''t''"
    by (simp_all add: fileName_of_def ok_world_def empty_file_def)
  ultimately show ?thesis by simp
qed

text \<open>
  Claim C9. For an empty file the component computes zero chunks, uploads nothing and, once
  the session is open, still asks for finalization with an empty list of tokens. Progress is
  set to 0, twice, and never to 100: when the run is over the message says success, the file
  is still selected, and the file input and the button are disabled.
\<close>

theorem empty_file_run:
  "fsize f = 0 \<Longrightarrow>
   create_multipart w (fileName_of w f) (ftype f) 0 = Create_json uploadId preSignedUrls \<Longrightarrow>
   complete_multipart w (fileName_of w f) uploadId [] 0 = Complete_response ok \<Longrightarrow>
   chunkCount_of f = 0 \<and>
   trace (run w f) =
     [Ev_progress (Num 0), Ev_create_multipart (fileName_of w f) (ftype f) 0,
      Ev_progress (Num 0), Ev_complete_multipart (fileName_of w f) uploadId [] 0,
      Ev_onUploadComplete, Ev_message ''File uploaded successfully!''] \<and>
   progress_values (trace (run w f)) = [Num 0, Num 0] \<and>
   progress (run w f) = Some (Num 0) \<and>
   message (run w f) = ''File uploaded successfully!'' \<and>
   file_state (run w f) = Some f \<and>
   controls_disabled (run w f)"
proof -
  assume a: "fsize f = 0"
    "create_multipart w (fileName_of w f) (ftype f) 0 = Create_json uploadId preSignedUrls"
    "complete_multipart w (fileName_of w f) uploadId [] 0 = Complete_response ok"
  show ?thesis
    unfolding run_of_empty [OF a] using chunkCount_of_empty [OF a(1)]
    by (simp add: controls_disabled_def)
qed

theorem empty_file_run_witness:
  "fsize empty_file = 0 \<and>
   create_multipart ok_world (fileName_of ok_world empty_file) (ftype empty_file) 0 =
     Create_json (Some ''u'') (Some []) \<and>
   complete_multipart ok_world (fileName_of ok_world empty_file) (Some ''u'') [] 0 =
     Complete_response True \<and>
   chunkCount_of empty_file = 0 \<and>
   trace (run ok_world empty_file) =
     [Ev_progress (Num 0), Ev_create_multipart ''17_a'' ''t'' 0, Ev_progress (Num 0),
      Ev_complete_multipart ''17_a'' (Some ''u'') [] 0, Ev_onUploadComplete,
      Ev_message ''File uploaded successfully!''] \<and>
   controls_disabled (run ok_world empty_file)"
proof -
  have h: "fsize empty_file = 0"
    "create_multipart ok_world (fileName_of ok_world empty_file) (ftype empty_file) 0 =
       Create_json (Some ''u'') (Some [])"
    "complete_multipart ok_world (fileName_of ok_world empty_file) (Some ''u'') [] 0 =
       Complete_response True"
    by (simp_all add: empty_file_def ok_world_def)
  have n: "fileName_of ok_world empty_file = ''17_a''" "ftype empty_file = ''t''"
    by (simp_all add: fileName_of_def ok_world_def empty_file_def)
  from empty_file_run [OF h] h show ?thesis by (simp add: n)
qed

text \<open>
  Claim C10. A PUT that succeeds but shows no entity tag makes the callback throw before it
  has changed anything, inside the \<^verbatim>\<open>try\<close> block: no token is appended and no progress
  is made by this attempt, and the component goes on as after any failed attempt, waiting
  \<open>retry * 20\<close> seconds and trying again while \<open>retry\<close> is below \<open>MAX_RETRY\<close>, and throwing
  the error otherwise.
\<close>

theorem missing_etag_is_retried:
  "put_chunk w url chunk retry = Put_response True None \<Longrightarrow>
   try_upload w url chunk (onProgress_of f i chunk) retry c =
     (Some TypeError, emit (Ev_put url chunk) c) \<and>
   parts (snd (try_upload w url chunk (onProgress_of f i chunk) retry c)) = parts c \<and>
   totalUploadedBytes (snd (try_upload w url chunk (onProgress_of f i chunk) retry c)) =
     totalUploadedBytes c \<and>
   progress (snd (try_upload w url chunk (onProgress_of f i chunk) retry c)) = progress c \<and>
   uploadChunkWithFetch w url chunk (onProgress_of f i chunk) retry c =
     (if retry < MAX_RETRY
      then uploadChunkWithFetch w url chunk (onProgress_of f i chunk) (retry + 1)
             (delay (retry * 20 * 1000) (emit (Ev_put url chunk) c))
      else (Some TypeError, emit (Ev_put url chunk) c))"
proof -
  assume "put_chunk w url chunk retry = Put_response True None"
  then have t: "try_upload w url chunk (onProgress_of f i chunk) retry c =
     (Some TypeError, emit (Ev_put url chunk) c)"
    by (simp add: try_upload_cases)
  from uploadChunkWithFetch_failed_attempt [OF t] t show ?thesis by simp
qed

theorem missing_etag_is_retried_witness:
  "put_chunk flaky_world (Some ''s'') \<lparr>blob_start = 5242880, blob_end = 8388608\<rparr> 2 =
     Put_response True None \<and>
   try_upload flaky_world (Some ''s'') \<lparr>blob_start = 5242880, blob_end = 8388608\<rparr>
     (onProgress_of two_chunk_file 1 \<lparr>blob_start = 5242880, blob_end = 8388608\<rparr>) 2 mounted =
     (Some TypeError, emit (Ev_put (Some ''s'') \<lparr>blob_start = 5242880, blob_end = 8388608\<rparr>) mounted) \<and>
   uploadChunkWithFetch flaky_world (Some ''s'') \<lparr>blob_start = 5242880, blob_end = 8388608\<rparr>
     (onProgress_of two_chunk_file 1 \<lparr>blob_start = 5242880, blob_end = 8388608\<rparr>) 2 mounted =
   uploadChunkWithFetch flaky_world (Some ''s'') \<lparr>blob_start = 5242880, blob_end = 8388608\<rparr>
     (onProgress_of two_chunk_file 1 \<lparr>blob_start = 5242880, blob_end = 8388608\<rparr>) 3
     (delay 40000 (emit (Ev_put (Some ''s'') \<lparr>blob_start = 5242880, blob_end = 8388608\<rparr>) mounted))"
proof -
  have h: "put_chunk flaky_world (Some ''s'') \<lparr>blob_start = 5242880, blob_end = 8388608\<rparr> 2 =
     Put_response True None"
    by (simp add: flaky_world_def)
  from missing_etag_is_retried [OF h, of two_chunk_file 1 mounted] h show ?thesis
    by (simp add: MAX_RETRY_def)
qed

lemma non_success_step:
  "non_success (put_chunk w url chunk retry) \<Longrightarrow> retry < MAX_RETRY \<Longrightarrow>
   uploadChunkWithFetch w url chunk onProgress retry c =
     uploadChunkWithFetch w url chunk onProgress (retry + 1)
       (delay (retry * 20 * 1000) (emit (Ev_put url chunk) c))"
  using try_upload_non_success [of w url chunk retry onProgress c]
  by (auto simp: uploadChunkWithFetch_failed_attempt)

lemma non_success_last:
  "non_success (put_chunk w url chunk retry) \<Longrightarrow> \<not> retry < MAX_RETRY \<Longrightarrow>
   \<exists>err. uploadChunkWithFetch w url chunk onProgress retry c = (Some err, emit (Ev_put url chunk) c)"
  using try_upload_non_success [of w url chunk retry onProgress c]
  by (auto simp: uploadChunkWithFetch_failed_attempt)

lemma five_failed_attempts:
  assumes "\<forall>r. 1 \<le> r \<and> r \<le> MAX_RETRY \<longrightarrow> non_success (put_chunk w url chunk r)"
  shows "\<exists>err. uploadChunkWithFetch w url chunk onProgress 1 c =
     (Some err,
      c\<lparr>trace := trace c @
         [Ev_put url chunk, Ev_delay 20000, Ev_put url chunk, Ev_delay 40000, Ev_put url chunk,
          Ev_delay 60000, Ev_put url chunk, Ev_delay 80000, Ev_put url chunk]\<rparr>)"
proof -
  let ?U = "uploadChunkWithFetch w url chunk onProgress"
  let ?put = "emit (Ev_put url chunk)"
  have ns: "non_success (put_chunk w url chunk 1)" "non_success (put_chunk w url chunk 2)"
    "non_success (put_chunk w url chunk 3)" "non_success (put_chunk w url chunk 4)"
    "non_success (put_chunk w url chunk 5)"
    using assms by (simp_all add: MAX_RETRY_def)
  have lt: "1 < MAX_RETRY" "2 < MAX_RETRY" "3 < MAX_RETRY" "4 < MAX_RETRY" "\<not> 5 < MAX_RETRY"
    by (simp_all add: MAX_RETRY_def)
  have nx: "(1::nat) + 1 = 2" "(2::nat) + 1 = 3" "(3::nat) + 1 = 4" "(4::nat) + 1 = 5"
    by simp_all
  have ms: "(1::nat) * 20 * 1000 = 20000" "(2::nat) * 20 * 1000 = 40000"
    "(3::nat) * 20 * 1000 = 60000" "(4::nat) * 20 * 1000 = 80000"
    by simp_all
  have "?U 1 c = ?U 2 (delay 20000 (?put c))"
    by (rule non_success_step [OF ns(1) lt(1), unfolded nx ms])
  also have "\<dots> = ?U 3 (delay 40000 (?put (delay 20000 (?put c))))"
    by (rule non_success_step [OF ns(2) lt(2), unfolded nx ms])
  also have "\<dots> = ?U 4 (delay 60000 (?put (delay 40000 (?put (delay 20000 (?put c))))))"
    by (rule non_success_step [OF ns(3) lt(3), unfolded nx ms])
  also have "\<dots> = ?U 5 (delay 80000 (?put (delay 60000 (?put (delay 40000 (?put (delay 20000 (?put c))))))))"
    by (rule non_success_step [OF ns(4) lt(4), unfolded nx ms])
  finally have u: "?U 1 c =
      ?U 5 (delay 80000 (?put (delay 60000 (?put (delay 40000 (?put (delay 20000 (?put c))))))))" .
  from non_success_last [OF ns(5) lt(5), of onProgress
      "delay 80000 (?put (delay 60000 (?put (delay 40000 (?put (delay 20000 (?put c)))))))"]
  obtain err where "?U 5 (delay 80000 (?put (delay 60000 (?put (delay 40000 (?put (delay 20000 (?put c)))))))) =
     (Some err, ?put (delay 80000 (?put (delay 60000 (?put (delay 40000 (?put (delay 20000 (?put c))))))))) "
    by blast
  with u show ?thesis by (intro exI [of _ err]) (simp add: emit_def delay_def)
qed

lemma is_transfer_only:
  "is_transfer e \<Longrightarrow> \<not> is_complete e \<and> \<not> is_create e \<and> e \<noteq> Ev_onUploadComplete"
  by (cases e) simp_all

lemma run_aborts:
  assumes cr: "create_multipart w (fileName_of w f) (ftype f) (chunkCount_of f) = Create_json uploadId (Some urls)"
    and i: "i < chunkCount_of f"
    and fails: "\<forall>r. 1 \<le> r \<and> r \<le> MAX_RETRY \<longrightarrow> attempt_fails (put_chunk w (url_at urls i) (chunk_of f i) r)"
  shows "\<not> run_succeeds w f" and "message (run w f) = ''Failed to upload file''"
    and "\<forall>e\<in>set (trace (run w f)). \<not> is_complete e" and "Ev_onUploadComplete \<notin> set (trace (run w f))"
    and "\<forall>p\<in>set (parts (run w f)). PartNumber p \<noteq> i + 1"
proof -
  obtain err c3 where loop: "upload_loop w f (Some urls) (chunkCount_of f) 0 (before_loop w f) = (Some err, c3)"
    and up: "uploadChunks w f (setProgress (Num 0) (selected f)) = (Some err, c3)"
  proof (cases w f rule: run_cases)
    case (create_failed err)
    with cr show ?thesis by simp
  next
    case (chunk_failed uid us err c3)
    with cr that show ?thesis by simp
  next
    case (complete_failed uid us c3)
    with cr upload_loop_blocked [OF _ i fails, where i = 0 and c = "before_loop w f" and res = None and c' = c3]
    show ?thesis by simp
  next
    case (completed uid us c3 ok)
    with cr upload_loop_blocked [OF _ i fails, where i = 0 and c = "before_loop w f" and res = None and c' = c3]
    show ?thesis by simp
  qed
  have r: "run w f = setMessage ''Failed to upload file'' c3" by (simp add: run_eq up)
  from upload_loop_events [OF loop] obtain es where
    es: "trace c3 = trace (before_loop w f) @ es" "\<forall>e\<in>set es. is_transfer e" by metis
  from upload_loop_blocked [OF _ i fails loop]
  have p: "PartNumber ` set (parts c3) \<subseteq> {1..i}" by simp
  show "\<not> run_succeeds w f" by (simp add: run_succeeds_def up)
  show "message (run w f) = ''Failed to upload file''" by (simp add: r)
  show "\<forall>e\<in>set (trace (run w f)). \<not> is_complete e"
    using es by (auto simp: r trace_before_loop dest: is_transfer_only)
  show "Ev_onUploadComplete \<notin> set (trace (run w f))"
    using es by (auto simp: r trace_before_loop dest: is_transfer_only)
  show "\<forall>p\<in>set (parts (run w f)). PartNumber p \<noteq> i + 1"
    using p by (auto simp: r)
qed

text \<open>
  Claim C4. An attempt answered with anything but a success status (or not answered at all)
  appends no token. While \<open>retry\<close> is below \<open>MAX_RETRY = 5\<close> the component waits
  \<open>retry * 20\<close> seconds and tries again with \<open>retry + 1\<close>; at \<open>retry = MAX_RETRY\<close> it throws
  the error. A chunk that fails five times has been sent five times, with waits of 20, 40, 60
  and 80 seconds between; the run then ends with the failure message, without a token for
  this chunk, without a request for finalization and without the callback of the parent.
\<close>

theorem failed_attempts_retry_then_abort:
  "(non_success (put_chunk w url chunk retry) \<longrightarrow>
      (\<exists>err. try_upload w url chunk onProgress retry c = (Some err, emit (Ev_put url chunk) c) \<and>
         uploadChunkWithFetch w url chunk onProgress retry c =
           (if retry < MAX_RETRY
            then uploadChunkWithFetch w url chunk onProgress (retry + 1)
                   (delay (retry * 20 * 1000) (emit (Ev_put url chunk) c))
            else (Some err, emit (Ev_put url chunk) c)))) \<and>
   ((\<forall>r. 1 \<le> r \<and> r \<le> MAX_RETRY \<longrightarrow> non_success (put_chunk w url chunk r)) \<longrightarrow>
      (\<exists>err. uploadChunkWithFetch w url chunk onProgress 1 c =
         (Some err,
          c\<lparr>trace := trace c @
             [Ev_put url chunk, Ev_delay 20000, Ev_put url chunk, Ev_delay 40000, Ev_put url chunk,
              Ev_delay 60000, Ev_put url chunk, Ev_delay 80000, Ev_put url chunk]\<rparr>))) \<and>
   (create_multipart w (fileName_of w f) (ftype f) (chunkCount_of f) = Create_json uploadId (Some urls) \<and>
    i < chunkCount_of f \<and>
    (\<forall>r. 1 \<le> r \<and> r \<le> MAX_RETRY \<longrightarrow> non_success (put_chunk w (url_at urls i) (chunk_of f i) r)) \<longrightarrow>
      \<not> run_succeeds w f \<and> message (run w f) = ''Failed to upload file'' \<and>
      (\<forall>e\<in>set (trace (run w f)). \<not> is_complete e) \<and>
      Ev_onUploadComplete \<notin> set (trace (run w f)) \<and>
      (\<forall>p\<in>set (parts (run w f)). PartNumber p \<noteq> i + 1))"
proof (intro conjI impI)
  assume ns: "non_success (put_chunk w url chunk retry)"
  from try_upload_non_success [OF ns, of onProgress c] obtain err where
    t: "try_upload w url chunk onProgress retry c = (Some err, emit (Ev_put url chunk) c)" by blast
  from uploadChunkWithFetch_failed_attempt [OF t] t
  show "\<exists>err. try_upload w url chunk onProgress retry c = (Some err, emit (Ev_put url chunk) c) \<and>
         uploadChunkWithFetch w url chunk onProgress retry c =
           (if retry < MAX_RETRY
            then uploadChunkWithFetch w url chunk onProgress (retry + 1)
                   (delay (retry * 20 * 1000) (emit (Ev_put url chunk) c))
            else (Some err, emit (Ev_put url chunk) c))"
    by blast
next
  assume "\<forall>r. 1 \<le> r \<and> r \<le> MAX_RETRY \<longrightarrow> non_success (put_chunk w url chunk r)"
  then show "\<exists>err. uploadChunkWithFetch w url chunk onProgress 1 c =
         (Some err,
          c\<lparr>trace := trace c @
             [Ev_put url chunk, Ev_delay 20000, Ev_put url chunk, Ev_delay 40000, Ev_put url chunk,
              Ev_delay 60000, Ev_put url chunk, Ev_delay 80000, Ev_put url chunk]\<rparr>)"
    by (rule five_failed_attempts)
next
  assume a: "create_multipart w (fileName_of w f) (ftype f) (chunkCount_of f) = Create_json uploadId (Some urls) \<and>
    i < chunkCount_of f \<and>
    (\<forall>r. 1 \<le> r \<and> r \<le> MAX_RETRY \<longrightarrow> non_success (put_chunk w (url_at urls i) (chunk_of f i) r))"
  then have f: "\<forall>r. 1 \<le> r \<and> r \<le> MAX_RETRY \<longrightarrow> attempt_fails (put_chunk w (url_at urls i) (chunk_of f i) r)"
    by (simp add: non_success_attempt_fails)
  from a have cr: "create_multipart w (fileName_of w f) (ftype f) (chunkCount_of f) = Create_json uploadId (Some urls)"
    and i: "i < chunkCount_of f" by simp_all
  note r = run_aborts [OF cr i f]
  show "\<not> run_succeeds w f" by (rule r(1))
  show "message (run w f) = ''Failed to upload file''" by (rule r(2))
  show "\<forall>e\<in>set (trace (run w f)). \<not> is_complete e" by (rule r(3))
  show "Ev_onUploadComplete \<notin> set (trace (run w f))" by (rule r(4))
  show "\<forall>p\<in>set (parts (run w f)). PartNumber p \<noteq> i + 1" by (rule r(5))
qed

theorem failed_attempts_retry_then_abort_witness:
  "create_multipart stuck_world (fileName_of stuck_world two_chunk_file) (ftype two_chunk_file)
     (chunkCount_of two_chunk_file) = Create_json (Some ''u'') (Some [''s'', ''s'']) \<and>
   Suc 0 < chunkCount_of two_chunk_file \<and>
   non_success (put_chunk stuck_world (url_at [''s'', ''s''] (Suc 0)) (chunk_of two_chunk_file (Suc 0)) 5) \<and>
   (\<exists>err. uploadChunkWithFetch stuck_world (url_at [''s'', ''s''] (Suc 0)) (chunk_of two_chunk_file (Suc 0))
            (onProgress_of two_chunk_file (Suc 0) (chunk_of two_chunk_file (Suc 0))) 1 mounted =
      (Some err,
       mounted\<lparr>trace := trace mounted @
          [Ev_put (url_at [''s'', ''s''] (Suc 0)) (chunk_of two_chunk_file (Suc 0)), Ev_delay 20000,
           Ev_put (url_at [''s'', ''s''] (Suc 0)) (chunk_of two_chunk_file (Suc 0)), Ev_delay 40000,
           Ev_put (url_at [''s'', ''s''] (Suc 0)) (chunk_of two_chunk_file (Suc 0)), Ev_delay 60000,
           Ev_put (url_at [''s'', ''s''] (Suc 0)) (chunk_of two_chunk_file (Suc 0)), Ev_delay 80000,
           Ev_put (url_at [''s'', ''s''] (Suc 0)) (chunk_of two_chunk_file (Suc 0))]\<rparr>)) \<and>
   \<not> run_succeeds stuck_world two_chunk_file \<and>
   message (run stuck_world two_chunk_file) = ''Failed to upload file'' \<and>
   filter is_complete (trace (run stuck_world two_chunk_file)) = [] \<and>
   Ev_onUploadComplete \<notin> set (trace (run stuck_world two_chunk_file)) \<and>
   2 \<notin> PartNumber ` set (parts (run stuck_world two_chunk_file))"
proof -
  let ?url = "url_at [''s'', ''s''] (Suc 0)" and ?chunk = "chunk_of two_chunk_file (Suc 0)"
  have cr: "create_multipart stuck_world (fileName_of stuck_world two_chunk_file) (ftype two_chunk_file)
     (chunkCount_of two_chunk_file) = Create_json (Some ''u'') (Some [''s'', ''s''])"
    by (simp add: stuck_world_def chunkCount_two_chunk_file numeral_2_eq_2)
  have i: "Suc 0 < chunkCount_of two_chunk_file" by (simp add: chunkCount_two_chunk_file)
  have ns: "non_success (put_chunk stuck_world ?url ?chunk r)" for r
    by (simp add: stuck_world_def chunks_two_chunk_file)
  note t = failed_attempts_retry_then_abort [of stuck_world ?url ?chunk 5
      "onProgress_of two_chunk_file (Suc 0) ?chunk" mounted two_chunk_file "Some ''u''" "[''s'', ''s'']" "Suc 0"]
  from t ns have a: "\<exists>err. uploadChunkWithFetch stuck_world ?url ?chunk
            (onProgress_of two_chunk_file (Suc 0) ?chunk) 1 mounted =
      (Some err,
       mounted\<lparr>trace := trace mounted @
          [Ev_put ?url ?chunk, Ev_delay 20000, Ev_put ?url ?chunk, Ev_delay 40000,
           Ev_put ?url ?chunk, Ev_delay 60000, Ev_put ?url ?chunk, Ev_delay 80000,
           Ev_put ?url ?chunk]\<rparr>)"
    by blast
  from t cr i ns have b: "\<not> run_succeeds stuck_world two_chunk_file \<and>
      message (run stuck_world two_chunk_file) = ''Failed to upload file'' \<and>
      (\<forall>e\<in>set (trace (run stuck_world two_chunk_file)). \<not> is_complete e) \<and>
      Ev_onUploadComplete \<notin> set (trace (run stuck_world two_chunk_file)) \<and>
      (\<forall>p\<in>set (parts (run stuck_world two_chunk_file)). PartNumber p \<noteq> Suc 0 + 1)"
    by blast
  then have "filter is_complete (trace (run stuck_world two_chunk_file)) = []"
    by (simp add: filter_empty_conv)
  moreover from b have "2 \<notin> PartNumber ` set (parts (run stuck_world two_chunk_file))"
    by auto
  ultimately show ?thesis using cr i ns [of 5] a b by blast
qed

lemma percent_of_int:
  assumes "0 < s"
  shows "\<exists>k\<ge>0. percent_of t s = Num (of_int k)"
proof -
  have "0 \<le> fl (fl (of_nat t / of_nat s) * 100)"
    by (intro fl_nonneg mult_nonneg_nonneg) simp_all
  then have "0 \<le> \<lfloor>fl (fl (of_nat t / of_nat s) * 100) + 1 / 2\<rfloor>" by simp
  then show ?thesis using assms by (auto simp: percent_of_pos)
qed

lemma binade_less:
  assumes "0 < x" "x < 2 ^ n"
  shows "binade x < int n"
proof -
  have "(2::rat) powi binade x < 2 powi int n"
    using binade_bounds(1) [OF assms(1)] assms(2) by simp
  then show ?thesis by (rule powi_less_cancel)
qed

lemma fl_err_below:
  assumes "0 < x" "x < 2 ^ n"
  shows "\<bar>fl x - x\<bar> \<le> 2 powi (int n - 54)"
proof -
  have "binade x - 53 \<le> int n - 54" using binade_less [OF assms] by simp
  then have "(2::rat) powi (binade x - 53) \<le> 2 powi (int n - 54)"
    by (intro power_int_increasing) simp_all
  with fl_err [OF assms(1)] show ?thesis by linarith
qed

text \<open>How far the percentage of the component is from the exact one.\<close>

lemma percent_of_near:
  assumes "0 < s" "t \<le> s"
  shows "\<exists>k. percent_of t s = Num (of_int k) \<and> 0 \<le> k \<and> k \<le> 100 \<and>
           \<bar>rat_of_int k - 100 * rat_of_nat t / rat_of_nat s\<bar> \<le> 1 / 2 + 1 / 2 ^ 45"
proof -
  let ?x = "of_nat t / of_nat s :: rat"
  let ?z = "fl ?x * 100"
  define k where "k = \<lfloor>fl ?z + 1 / 2\<rfloor>"
  have p: "percent_of t s = Num (of_int k)" using assms(1) by (simp add: percent_of_pos k_def)
  have x1: "?x \<le> 1" using assms by simp
  have x0: "0 \<le> ?x" by simp
  have flx1: "fl ?x \<le> 1" using fl_mono [OF x0 x1] by (simp add: fl_1)
  have flx0: "0 \<le> fl ?x" by (rule fl_nonneg [OF x0])
  have z0: "0 \<le> ?z" using flx0 by simp
  have z100: "?z \<le> 100" using flx1 by simp
  have flz0: "0 \<le> fl ?z" by (rule fl_nonneg [OF z0])
  have flz100: "fl ?z \<le> 100" using fl_mono [OF z0 z100] by (simp add: fl_100)
  have k0: "0 \<le> k" unfolding k_def using flz0 by simp
  have k100: "k \<le> 100"
  proof -
    have "fl ?z + 1 / 2 < 101" using flz100 by simp
    then have "\<lfloor>fl ?z + 1 / 2\<rfloor> < 101" by (simp add: floor_less_iff)
    then show ?thesis by (simp add: k_def)
  qed
  have ex: "\<bar>fl ?x - ?x\<bar> \<le> 1 / 2 ^ 53"
  proof (cases "?x = 0")
    case True then show ?thesis unfolding True by (simp add: fl_def)
  next
    case False
    with x0 have "0 < ?x" by simp
    moreover have "?x < 2 ^ 1" using x1 by simp
    ultimately have "\<bar>fl ?x - ?x\<bar> \<le> 2 powi (int 1 - 54)" by (rule fl_err_below)
    then show ?thesis by (simp add: power_int_minus_divide)
  qed
  have ez: "\<bar>fl ?z - ?z\<bar> \<le> 1 / 2 ^ 47"
  proof (cases "?z = 0")
    case True then show ?thesis unfolding True by (simp add: fl_def)
  next
    case False
    with z0 have "0 < ?z" by simp
    moreover have "?z < 2 ^ 7" using z100 by simp
    ultimately have "\<bar>fl ?z - ?z\<bar> \<le> 2 powi (int 7 - 54)" by (rule fl_err_below)
    then show ?thesis by (simp add: power_int_minus_divide)
  qed
  have e: "?z - 100 * ?x = 100 * (fl ?x - ?x)" by (simp add: algebra_simps)
  have am: "\<bar>100 * a\<bar> = 100 * \<bar>a\<bar>" for a :: rat by (simp add: abs_mult)
  have "\<bar>?z - 100 * ?x\<bar> = 100 * \<bar>fl ?x - ?x\<bar>" unfolding e am ..
  with ex have "\<bar>?z - 100 * ?x\<bar> \<le> 100 / 2 ^ 53" by simp
  with ez have "\<bar>fl ?z - 100 * ?x\<bar> \<le> 1 / 2 ^ 47 + 100 / 2 ^ 53" by linarith
  also have "\<dots> \<le> (1::rat) / 2 ^ 45" by simp
  finally have near: "\<bar>fl ?z - 100 * ?x\<bar> \<le> 1 / 2 ^ 45" .
  have "of_int k \<le> fl ?z + 1 / 2" "fl ?z + 1 / 2 < of_int k + 1"
    unfolding k_def by linarith+
  with near have "\<bar>of_int k - 100 * ?x\<bar> \<le> 1 / 2 + 1 / 2 ^ 45" by linarith
  then show ?thesis using p k0 k100 by (intro exI [of _ k]) simp
qed

lemma sorted_progress:
  assumes "0 < s"
  shows "sorted_wrt js_le (Num 0 # Num 0 # map (\<lambda>i. percent_of (min s ((i + 1) * c)) s) [0..<n])"
proof -
  let ?g = "\<lambda>i. percent_of (min s ((i + 1) * c)) s"
  have zero: "js_le (Num 0) (?g i)" for i
    using percent_of_int [OF assms, of "min s ((i + 1) * c)"] by auto
  have mono: "js_le (?g i) (?g j)" if "i < j" for i j
  proof -
    have "(i + 1) * c \<le> (j + 1) * c" using that by (intro mult_le_mono1) simp
    then have "min s ((i + 1) * c) \<le> min s ((j + 1) * c)" by (intro min.mono) simp_all
    then show ?thesis by (rule percent_of_mono [OF assms])
  qed
  have "sorted_wrt js_le (map ?g [0..<n])"
    using mono by (simp add: sorted_wrt_map sorted_wrt_iff_nth_less)
  then show ?thesis using zero by auto
qed

text \<open>A run that succeeds, and one that does not.\<close>

lemma run_success:
  assumes "run_succeeds w f"
  obtains uploadId us c3 ok where
    "create_multipart w (fileName_of w f) (ftype f) (chunkCount_of f) = Create_json uploadId us"
    "upload_loop w f us (chunkCount_of f) 0 (before_loop w f) = (None, c3)"
    "complete_multipart w (fileName_of w f) uploadId (parts c3) (fsize f) = Complete_response ok"
    "run w f = setMessage ''File uploaded successfully!''
                 (emit Ev_onUploadComplete
                    (emit (Ev_complete_multipart (fileName_of w f) uploadId (parts c3) (fsize f)) c3))"
proof (cases w f rule: run_cases)
  case (create_failed err)
  with assms show ?thesis by (simp add: run_succeeds_def)
next
  case (chunk_failed uid us err c3)
  with assms show ?thesis by (simp add: run_succeeds_def)
next
  case (complete_failed uid us c3)
  with assms show ?thesis by (simp add: run_succeeds_def)
next
  case (completed uid us c3 ok)
  then show ?thesis by (intro that [of uid us c3 ok]) (simp_all add: run_eq)
qed

lemma tracked_emit:
  "progress_values [e] = [] \<Longrightarrow> tracked c \<Longrightarrow> tracked (emit e c)"
  by (simp add: tracked_def)

lemma run_failure:
  assumes "\<not> run_succeeds w f"
  obtains err c' where
    "uploadChunks w f (setProgress (Num 0) (selected f)) = (Some err, c')"
    "run w f = setMessage ''Failed to upload file'' c'"
    "tracked c'" "progress_values (trace c') \<noteq> []"
proof (cases w f rule: run_cases)
  case (create_failed err)
  let ?c = "(before_loop w f)\<lparr>trace := [Ev_progress (Num 0),
               Ev_create_multipart (fileName_of w f) (ftype f) (chunkCount_of f)]\<rparr>"
  have "tracked ?c" "progress_values (trace ?c) \<noteq> []"
    by (simp_all add: tracked_def before_loop_def)
  with create_failed(2) show ?thesis
    by (intro that [of err ?c]) (simp_all add: run_eq)
next
  case (chunk_failed uid us err c3)
  from upload_loop_events [OF chunk_failed(2)] tracked_before_loop obtain es where
    "trace c3 = trace (before_loop w f) @ es" "tracked c3" by metis
  with chunk_failed(3) show ?thesis
    by (intro that [of err c3]) (simp_all add: run_eq trace_before_loop)
next
  case (complete_failed uid us c3)
  from upload_loop_events [OF complete_failed(2)] tracked_before_loop obtain es where
    "trace c3 = trace (before_loop w f) @ es" "tracked c3" by metis
  with complete_failed(4) show ?thesis
    by (intro that [of Network_error
          "emit (Ev_complete_multipart (fileName_of w f) uid (parts c3) (fsize f)) c3"])
       (simp_all add: run_eq trace_before_loop tracked_emit)
next
  case (completed uid us c3 ok)
  with assms show ?thesis by (simp add: run_succeeds_def)
qed

lemma successful_run_progress:
  assumes "run_succeeds w f"
  shows "progress_values (trace (run w f)) =
           Num 0 # Num 0 #
           map (\<lambda>i. percent_of (min (fsize f) ((i + 1) * CHUNK_SIZE)) (fsize f)) [0..<chunkCount_of f]"
proof -
  from assms obtain uploadId us c3 ok where
    loop: "upload_loop w f us (chunkCount_of f) 0 (before_loop w f) = (None, c3)"
    and r: "run w f = setMessage ''File uploaded successfully!''
                 (emit Ev_onUploadComplete
                    (emit (Ev_complete_multipart (fileName_of w f) uploadId (parts c3) (fsize f)) c3))"
    by (rule run_success)
  from upload_loop_success [OF loop] show ?thesis by (simp add: r trace_before_loop)
qed

lemma successful_run_end:
  assumes "run_succeeds w f" "0 < fsize f" "fsize f < 2 ^ 53"
  shows "\<exists>pre uploadId ps.
           trace (run w f) =
             pre @ [Ev_progress (Num 100),
                    Ev_complete_multipart (fileName_of w f) uploadId ps (fsize f),
                    Ev_onUploadComplete, Ev_message ''File uploaded successfully!'']"
    and "file_state (run w f) = None" and "input_value (run w f) = []"
    and "progress (run w f) = Some (Num 100)"
proof -
  from assms(1) obtain uploadId us c3 ok where
    loop: "upload_loop w f us (chunkCount_of f) 0 (before_loop w f) = (None, c3)"
    and r: "run w f = setMessage ''File uploaded successfully!''
                 (emit Ev_onUploadComplete
                    (emit (Ev_complete_multipart (fileName_of w f) uploadId (parts c3) (fsize f)) c3))"
    by (rule run_success)
  have n: "0 < chunkCount_of f" by (rule chunk_count_covers(3) [OF assms(3,2)])
  have "min (fsize f) (chunkCount_of f * CHUNK_SIZE) = fsize f"
    using chunk_count_covers(1) [OF assms(3)] by simp
  then have full: "percent_of (min (fsize f) (chunkCount_of f * CHUNK_SIZE)) (fsize f) = Num 100"
    by (simp add: percent_of_full assms(2))
  from upload_loop_success [OF loop] n full obtain pre where
    c3: "trace c3 = pre @ [Ev_progress (Num 100)]" "progress c3 = Some (Num 100)"
      "file_state c3 = None" "input_value c3 = []"
    by auto
  show "\<exists>pre uploadId ps.
           trace (run w f) =
             pre @ [Ev_progress (Num 100),
                    Ev_complete_multipart (fileName_of w f) uploadId ps (fsize f),
                    Ev_onUploadComplete, Ev_message ''File uploaded successfully!'']"
    by (intro exI [of _ pre] exI [of _ uploadId] exI [of _ "parts c3"]) (simp add: r c3)
  show "file_state (run w f) = None" "input_value (run w f) = []" "progress (run w f) = Some (Num 100)"
    by (simp_all add: r c3)
qed

lemma upload_loop_ok_world:
  "\<exists>c'. upload_loop ok_world f (Some urls) n i c = (None, c')"
proof (induction k \<equiv> "n - i" arbitrary: i c)
  case 0
  then show ?case by (simp add: upload_loop_stop)
next
  case (Suc k)
  then have i: "i < n" by simp
  have put: "put_chunk ok_world url chunk retry = Put_response True (Some quoted_etag)" for url chunk retry
    by (simp add: ok_world_def)
  have "k = n - (i + 1)" using Suc.hyps(2) by simp
  from Suc.hyps(1) [OF this] show ?case
    by (simp add: upload_loop_step [OF i] uploadChunkWithFetch_stored [OF put])
qed

lemma run_succeeds_ok_world: "run_succeeds ok_world f"
proof (cases ok_world f rule: run_cases)
  case (create_failed err)
  then show ?thesis by (simp add: ok_world_def)
next
  case (chunk_failed uid us err c3)
  then have "us = Some (replicate (chunkCount_of f) ''s'')" by (simp add: ok_world_def)
  with chunk_failed(2)
    upload_loop_ok_world [of f "replicate (chunkCount_of f) ''s''" "chunkCount_of f" 0 "before_loop ok_world f"]
  show ?thesis by auto
next
  case (complete_failed uid us c3)
  then show ?thesis by (simp add: ok_world_def)
next
  case (completed uid us c3 ok)
  then show ?thesis by (simp add: run_succeeds_def)
qed

lemma file_200MiB_fields:
  "fsize file_200MiB = 209715200" "fname file_200MiB = ''a''" "ftype file_200MiB = ''t''"
  by (simp_all add: file_200MiB_def)

lemma chunkCount_file_200MiB: "chunkCount_of file_200MiB = 40"
  by (simp add: chunkCount_of_def file_200MiB_fields Math_ceil_div_CHUNK_SIZE)
     (simp add: CHUNK_SIZE_def)

lemma round_23_40: "\<lfloor>fl (fl (23 / 40) * 100) + 1 / 2\<rfloor> = 57"
  by code_simp

lemma percent_23_of_40: "percent_of 120586240 209715200 = Num 57"
  by (simp add: percent_of_pos round_23_40)

lemma exact_23_of_40: "\<lfloor>100 * rat_of_nat 120586240 / rat_of_nat 209715200 + 1 / 2\<rfloor> = 58"
  by simp

lemma nth_progress_file_200MiB:
  "progress_values (trace (run ok_world file_200MiB)) ! 24 = Num 57"
proof -
  have "progress_values (trace (run ok_world file_200MiB)) ! 24 =
      map (\<lambda>i. percent_of (min (fsize file_200MiB) ((i + 1) * CHUNK_SIZE)) (fsize file_200MiB)) [0..<40] ! 22"
    by (simp add: successful_run_progress [OF run_succeeds_ok_world] chunkCount_file_200MiB)
  also have "\<dots> = percent_of (min (fsize file_200MiB) (23 * CHUNK_SIZE)) (fsize file_200MiB)"
    by (subst nth_map) simp_all
  also have "\<dots> = Num 57"
    by (simp add: file_200MiB_fields CHUNK_SIZE_def percent_23_of_40)
  finally show ?thesis .
qed

lemma rev_end:
  "tr = pre @ [a, b, c, d] \<Longrightarrow> rev tr ! 3 = a \<and> rev tr ! 2 = b \<and> rev tr ! 1 = c \<and> rev tr ! 0 = d"
  by (simp add: numeral_3_eq_3 numeral_2_eq_2)

lemma run_succeedsI:
  "create_multipart w (fileName_of w f) (ftype f) (chunkCount_of f) = Create_json uploadId us \<Longrightarrow>
   upload_loop w f us (chunkCount_of f) 0 (before_loop w f) = (None, c3) \<Longrightarrow>
   complete_multipart w (fileName_of w f) uploadId (parts c3) (fsize f) = Complete_response ok \<Longrightarrow>
   run_succeeds w f"
  by (cases w f rule: run_cases) (auto simp: run_succeeds_def)

lemma create_flaky:
  "create_multipart flaky_world (fileName_of flaky_world two_chunk_file) (ftype two_chunk_file)
     (chunkCount_of two_chunk_file) = Create_json (Some ''u'') (Some [''s'', ''s''])"
  by (simp add: flaky_world_def chunkCount_two_chunk_file numeral_2_eq_2)

lemma complete_flaky:
  "complete_multipart flaky_world fileName uploadId ps fileSize = Complete_response True"
  by (simp add: flaky_world_def)

lemma run_succeeds_flaky: "run_succeeds flaky_world two_chunk_file"
  by (rule run_succeedsI [OF create_flaky loop_flaky [folded chunkCount_two_chunk_file] complete_flaky])

lemma before_loop_stuck:
  "before_loop stuck_world two_chunk_file =
     \<lparr>file_state = Some two_chunk_file, progress = Some (Num 0), message = [], input_value = ''a'',
      totalUploadedBytes = 0, parts = [],
      trace = [Ev_progress (Num 0), Ev_create_multipart ''17_a'' ''t'' 2, Ev_progress (Num 0)]\<rparr>"
  by (simp add: before_loop_def fileName_of_def stuck_world_def two_chunk_file_fields
      chunkCount_two_chunk_file)

lemma loop_stuck:
  "upload_loop stuck_world two_chunk_file (Some [''s'', ''s'']) 2 0
     (before_loop stuck_world two_chunk_file) = (Some Chunk_upload_failed, stuck_after_loop)"
  unfolding before_loop_stuck
  by (simp add: upload_loop_step upload_loop_stop uploadChunkWithFetch_unfold chunks_two_chunk_file
      stuck_world_def url_at_def MAX_RETRY_def chunk_done_def blob_size_def two_chunk_file_fields
      percent_5_of_8_MiB percent_of_full strip_quoted_etag emit_def delay_def setProgress_def
      stuck_after_loop_def Let_def)

lemma create_stuck:
  "create_multipart stuck_world (fileName_of stuck_world two_chunk_file) (ftype two_chunk_file)
     (chunkCount_of two_chunk_file) = Create_json (Some ''u'') (Some [''s'', ''s''])"
  by (simp add: stuck_world_def chunkCount_two_chunk_file numeral_2_eq_2)

lemma uploadChunks_stuck:
  "uploadChunks stuck_world two_chunk_file (setProgress (Num 0) (selected two_chunk_file)) =
     (Some Chunk_upload_failed, stuck_after_loop)"
  using create_stuck loop_stuck [folded chunkCount_two_chunk_file]
  by (cases stuck_world two_chunk_file rule: run_cases) auto

text \<open>
  Claim C8, as stated, fails. After a successful run progress is not reset: it stays at 100,
  the value for which the controls are enabled. And the file cell and the file input are
  cleared by the effect that fires when progress becomes 100, not by the success of
  finalization: after the successful run of an empty file, where progress never becomes 100,
  the message says success, the file is still selected and the controls are disabled.
\<close>

theorem end_of_run_counterexample:
  "run_succeeds flaky_world two_chunk_file \<and>
   message (run flaky_world two_chunk_file) = ''File uploaded successfully!'' \<and>
   progress (run flaky_world two_chunk_file) = Some (Num 100) \<and>
   progress (run flaky_world two_chunk_file) \<noteq> progress mounted \<and>
   run_succeeds ok_world empty_file \<and>
   complete_multipart ok_world ''17_a'' (Some ''u'') [] 0 = Complete_response True \<and>
   message (run ok_world empty_file) = ''File uploaded successfully!'' \<and>
   file_state (run ok_world empty_file) = Some empty_file \<and>
   input_value (run ok_world empty_file) = ''a'' \<and>
   progress (run ok_world empty_file) = Some (Num 0) \<and>
   controls_disabled (run ok_world empty_file)"
proof -
  have "complete_multipart ok_world ''17_a'' (Some ''u'') [] 0 = Complete_response True"
    by (simp add: ok_world_def)
  then show ?thesis
    using run_succeeds_flaky run_succeeds_ok_world [of empty_file]
    by (simp add: run_flaky run_ok_empty_file flaky_after_loop_def mounted_def
        controls_disabled_def)
qed

text \<open>
  Claim C8, amended. When the session is opened, every chunk is stored and finalization is
  answered with success, the run ends with the success message; if the file is not empty, the
  file cell and the file input have been cleared, progress is 100, not reset, and the controls
  are enabled. When \<^verbatim>\<open>uploadChunks\<close> throws, the run ends with the generic failure message,
  and the file cell and progress are as the failure left them: progress is the last value
  that was set.
\<close>

theorem end_of_run:
  "(create_multipart w (fileName_of w f) (ftype f) (chunkCount_of f) = Create_json uploadId us \<and>
    upload_loop w f us (chunkCount_of f) 0 (before_loop w f) = (None, c3) \<and>
    complete_multipart w (fileName_of w f) uploadId (parts c3) (fsize f) = Complete_response True \<longrightarrow>
      message (run w f) = ''File uploaded successfully!'' \<and>
      (0 < fsize f \<and> fsize f < 2 ^ 53 \<longrightarrow>
         file_state (run w f) = None \<and> input_value (run w f) = [] \<and>
         progress (run w f) = Some (Num 100) \<and> \<not> controls_disabled (run w f))) \<and>
   (uploadChunks w f (setProgress (Num 0) (selected f)) = (Some err, c') \<longrightarrow>
      message (run w f) = ''Failed to upload file'' \<and>
      file_state (run w f) = file_state c' \<and>
      progress (run w f) = progress c' \<and>
      progress_values (trace (run w f)) \<noteq> [] \<and>
      progress (run w f) = Some (last (progress_values (trace (run w f)))))"
proof (intro conjI impI; (elim conjE)?)
  assume a: "create_multipart w (fileName_of w f) (ftype f) (chunkCount_of f) = Create_json uploadId us"
    "upload_loop w f us (chunkCount_of f) 0 (before_loop w f) = (None, c3)"
    "complete_multipart w (fileName_of w f) uploadId (parts c3) (fsize f) = Complete_response True"
  show "message (run w f) = ''File uploaded successfully!''"
    by (simp add: run_completed [OF a])
  assume size: "0 < fsize f" "fsize f < 2 ^ 53"
  note s = run_succeedsI [OF a]
  show "file_state (run w f) = None" "input_value (run w f) = []"
    "progress (run w f) = Some (Num 100)"
    by (rule successful_run_end [OF s size])+
  then show "\<not> controls_disabled (run w f)" by (simp add: controls_disabled_def)
next
  assume u: "uploadChunks w f (setProgress (Num 0) (selected f)) = (Some err, c')"
  then have "\<not> run_succeeds w f" by (simp add: run_succeeds_def)
  then obtain err' c'' where
    f: "uploadChunks w f (setProgress (Num 0) (selected f)) = (Some err', c'')"
    "run w f = setMessage ''Failed to upload file'' c''"
    "tracked c''" "progress_values (trace c'') \<noteq> []"
    by (rule run_failure)
  from u f(1) have c: "c'' = c'" by simp
  show "message (run w f) = ''Failed to upload file''" by (simp add: f(2))
  show "file_state (run w f) = file_state c'" by (simp add: f(2) c)
  show "progress (run w f) = progress c'" by (simp add: f(2) c)
  show "progress_values (trace (run w f)) \<noteq> []" using f(4) by (simp add: f(2))
  show "progress (run w f) = Some (last (progress_values (trace (run w f))))"
    using f(3,4) by (simp add: f(2) tracked_def)
qed

theorem end_of_run_witness:
  "create_multipart flaky_world (fileName_of flaky_world two_chunk_file) (ftype two_chunk_file)
     (chunkCount_of two_chunk_file) = Create_json (Some ''u'') (Some [''s'', ''s'']) \<and>
   upload_loop flaky_world two_chunk_file (Some [''s'', ''s'']) (chunkCount_of two_chunk_file) 0
     (before_loop flaky_world two_chunk_file) = (None, flaky_after_loop) \<and>
   complete_multipart flaky_world (fileName_of flaky_world two_chunk_file) (Some ''u'')
     (parts flaky_after_loop) (fsize two_chunk_file) = Complete_response True \<and>
   0 < fsize two_chunk_file \<and> fsize two_chunk_file < 2 ^ 53 \<and>
   message (run flaky_world two_chunk_file) = ''File uploaded successfully!'' \<and>
   file_state (run flaky_world two_chunk_file) = None \<and>
   input_value (run flaky_world two_chunk_file) = [] \<and>
   progress (run flaky_world two_chunk_file) = Some (Num 100) \<and>
   \<not> controls_disabled (run flaky_world two_chunk_file) \<and>
   uploadChunks stuck_world two_chunk_file (setProgress (Num 0) (selected two_chunk_file)) =
     (Some Chunk_upload_failed, stuck_after_loop) \<and>
   message (run stuck_world two_chunk_file) = ''Failed to upload file'' \<and>
   file_state (run stuck_world two_chunk_file) = Some two_chunk_file \<and>
   progress (run stuck_world two_chunk_file) = Some (Num 63) \<and>
   last (progress_values (trace (run stuck_world two_chunk_file))) = Num 63 \<and>
   controls_disabled (run stuck_world two_chunk_file)"
proof -
  note lf = loop_flaky [folded chunkCount_two_chunk_file]
  have size: "0 < fsize two_chunk_file" "fsize two_chunk_file < 2 ^ 53"
    by (simp_all add: two_chunk_file_fields)
  from end_of_run [of flaky_world two_chunk_file "Some ''u''" "Some [''s'', ''s'']" flaky_after_loop]
    create_flaky lf complete_flaky size
  have ok: "message (run flaky_world two_chunk_file) = ''File uploaded successfully!''"
    "file_state (run flaky_world two_chunk_file) = None"
    "input_value (run flaky_world two_chunk_file) = []"
    "progress (run flaky_world two_chunk_file) = Some (Num 100)"
    "\<not> controls_disabled (run flaky_world two_chunk_file)"
    by blast+
  from end_of_run [of stuck_world two_chunk_file _ _ _ Chunk_upload_failed stuck_after_loop]
    uploadChunks_stuck
  have ko: "message (run stuck_world two_chunk_file) = ''Failed to upload file''"
    "file_state (run stuck_world two_chunk_file) = file_state stuck_after_loop"
    "progress (run stuck_world two_chunk_file) = progress stuck_after_loop"
    "progress (run stuck_world two_chunk_file) =
       Some (last (progress_values (trace (run stuck_world two_chunk_file))))"
    by blast+
  have st: "file_state stuck_after_loop = Some two_chunk_file" "progress stuck_after_loop = Some (Num 63)"
    by (simp_all add: stuck_after_loop_def)
  from ko st have d: "controls_disabled (run stuck_world two_chunk_file)"
    "last (progress_values (trace (run stuck_world two_chunk_file))) = Num 63"
    by (simp_all add: controls_disabled_def)
  from create_flaky lf complete_flaky size ok uploadChunks_stuck ko(1) ko(2,3) [unfolded st] d
  show ?thesis by blast
qed

lemma file_5MiB_1_fields:
  "fsize file_5MiB_1 = 5242881" "fname file_5MiB_1 = ''a''" "ftype file_5MiB_1 = ''t''"
  by (simp_all add: file_5MiB_1_def)

lemma chunkCount_file_5MiB_1: "chunkCount_of file_5MiB_1 = 2"
  by (simp add: chunkCount_of_def file_5MiB_1_fields Math_ceil_div_CHUNK_SIZE)
     (simp add: CHUNK_SIZE_def)

lemma round_all_but_one_byte: "\<lfloor>fl (fl (5242880 / 5242881) * 100) + 1 / 2\<rfloor> = 100"
  by code_simp

lemma percent_all_but_one_byte: "percent_of 5242880 5242881 = Num 100"
  by (simp add: percent_of_pos round_all_but_one_byte)

lemma progress_file_5MiB_1:
  "map (\<lambda>i. percent_of (min (fsize file_5MiB_1) ((i + 1) * CHUNK_SIZE)) (fsize file_5MiB_1))
     [0..<chunkCount_of file_5MiB_1] = [Num 100, Num 100]"
proof -
  have up: "[0..<chunkCount_of file_5MiB_1] = [0, Suc 0]"
    by (simp add: chunkCount_file_5MiB_1 upt_rec)
  have "percent_of (min (fsize file_5MiB_1) ((0 + 1) * CHUNK_SIZE)) (fsize file_5MiB_1) = Num 100"
    by (simp add: file_5MiB_1_fields CHUNK_SIZE_def percent_all_but_one_byte)
  moreover have "percent_of (min (fsize file_5MiB_1) ((Suc 0 + 1) * CHUNK_SIZE)) (fsize file_5MiB_1) = Num 100"
    by (simp add: file_5MiB_1_fields CHUNK_SIZE_def percent_of_full)
  ultimately show ?thesis unfolding up by (simp only: list.map)
qed

lemma run_file_5MiB_1:
  "progress_values (trace (run ok_world file_5MiB_1)) = [Num 0, Num 0, Num 100, Num 100]"
  unfolding successful_run_progress [OF run_succeeds_ok_world] progress_file_5MiB_1 by simp

lemma percent_of_100_band:
  assumes "0 < s" "t \<le> s"
  shows "\<exists>k. percent_of t s = Num (of_int k) \<and> 0 \<le> k \<and> k \<le> 100 \<and>
           \<bar>rat_of_int k - 100 * rat_of_nat t / rat_of_nat s\<bar> \<le> 1 / 2 + 1 / 2 ^ 45 \<and>
           (k = 100 \<longrightarrow> 199 / 2 - 1 / 2 ^ 45 \<le> 100 * rat_of_nat t / rat_of_nat s) \<and>
           (199 / 2 + 1 / 2 ^ 45 < 100 * rat_of_nat t / rat_of_nat s \<longrightarrow> k = 100)"
proof -
  define x where "x = 100 * rat_of_nat t / rat_of_nat s"
  from percent_of_near [OF assms] obtain k where
    k: "percent_of t s = Num (of_int k)" "0 \<le> k" "k \<le> 100"
      "\<bar>rat_of_int k - x\<bar> \<le> 1 / 2 + 1 / 2 ^ 45"
    unfolding x_def by blast
  have a: "199 / 2 - 1 / 2 ^ 45 \<le> x" if "k = 100"
  proof -
    have "rat_of_int k = 100" by (simp add: that)
    with k(4) show ?thesis by linarith
  qed
  have b: "k = 100" if "199 / 2 + 1 / 2 ^ 45 < x"
  proof -
    from k(4) that have "99 < rat_of_int k" by linarith
    then have "99 < k" by linarith
    with k(3) show ?thesis by simp
  qed
  from k a b show ?thesis unfolding x_def by blast
qed

lemma successful_run_trace:
  assumes "run_succeeds w f" "fsize f < 2 ^ 53"
  shows "\<exists>es uploadId ps.
     trace (run w f) =
       es @ [Ev_complete_multipart (fileName_of w f) uploadId ps (fsize f),
             Ev_onUploadComplete, Ev_message ''File uploaded successfully!''] \<and>
     progress_values es = progress_values (trace (run w f)) \<and>
     (\<forall>e\<in>set es. \<not> is_complete e) \<and>
     (0 < fsize f \<longrightarrow> (\<exists>pre. es = pre @ [Ev_progress (Num 100)]))"
proof -
  from assms(1) obtain uploadId us c3 ok where
    loop: "upload_loop w f us (chunkCount_of f) 0 (before_loop w f) = (None, c3)"
    and r: "run w f = setMessage ''File uploaded successfully!''
                 (emit Ev_onUploadComplete
                    (emit (Ev_complete_multipart (fileName_of w f) uploadId (parts c3) (fsize f)) c3))"
    by (rule run_success)
  have tr: "trace (run w f) =
       trace c3 @ [Ev_complete_multipart (fileName_of w f) uploadId (parts c3) (fsize f),
             Ev_onUploadComplete, Ev_message ''File uploaded successfully!'']"
    by (simp add: r)
  have pv: "progress_values (trace c3) = progress_values (trace (run w f))"
    by (simp add: tr)
  from upload_loop_events [OF loop] obtain es where
    es: "trace c3 = trace (before_loop w f) @ es" "\<forall>e\<in>set es. is_transfer e" by metis
  have nc: "\<forall>e\<in>set (trace c3). \<not> is_complete e"
    using es by (auto simp: trace_before_loop dest: is_transfer_only)
  have last: "\<exists>pre. trace c3 = pre @ [Ev_progress (Num 100)]"
    if "0 < fsize f"
  proof -
    from that assms(2) have size: "0 < fsize f \<and> fsize f < 2 ^ 53" by simp
    then have n: "0 < chunkCount_of f" by (simp add: chunk_count_covers(3))
    have "min (fsize f) (chunkCount_of f * CHUNK_SIZE) = fsize f"
      using chunk_count_covers(1) [of f] size by simp
    then have full: "percent_of (min (fsize f) (chunkCount_of f * CHUNK_SIZE)) (fsize f) = Num 100"
      using size by (simp add: percent_of_full)
    from upload_loop_success [OF loop] n full show ?thesis by auto
  qed
  show ?thesis
    apply (rule exI [of _ "trace c3"], rule exI [of _ uploadId], rule exI [of _ "parts c3"])
    apply (intro conjI impI)
       apply (rule tr)
      apply (rule pv)
     apply (rule nc)
    apply (erule last)
    done
qed

text \<open>
  Claim C3, as stated, fails. In a run that uploads a file of 200 MiB without any failure, the
  value set after the 23rd of the 40 chunks is 57, where
  \<open>round (100 * bytesUploadedSoFar / fileSize) = round 57.5 = 58\<close>: the double nearest to
  \<open>23 / 40\<close>, times 100, is the double just below 57.5. And progress is set to 100 by the
  callback of the last chunk: the event after it is the request for finalization, which has
  not been sent yet, let alone answered. It can be set to 100 even before the last chunk is
  sent: for a file of 5 MiB and one byte the value after the first of the two chunks is
  already 100.
\<close>

theorem progress_counterexample:
  "run_succeeds ok_world file_200MiB \<and>
   progress_values (trace (run ok_world file_200MiB)) ! 24 = Num 57 \<and>
   \<lfloor>100 * rat_of_nat (23 * CHUNK_SIZE) / rat_of_nat (fsize file_200MiB) + 1 / 2\<rfloor> = 58 \<and>
   rev (trace (run ok_world file_200MiB)) ! 3 = Ev_progress (Num 100) \<and>
   is_complete (rev (trace (run ok_world file_200MiB)) ! 2) \<and>
   run_succeeds ok_world file_5MiB_1 \<and>
   chunkCount_of file_5MiB_1 = 2 \<and>
   progress_values (trace (run ok_world file_5MiB_1)) = [Num 0, Num 0, Num 100, Num 100]"
proof -
  have size: "0 < fsize file_200MiB" "fsize file_200MiB < 2 ^ 53"
    by (simp_all add: file_200MiB_fields)
  from successful_run_end(1) [OF run_succeeds_ok_world size] obtain pre uploadId ps where
    "trace (run ok_world file_200MiB) =
       pre @ [Ev_progress (Num 100),
              Ev_complete_multipart (fileName_of ok_world file_200MiB) uploadId ps (fsize file_200MiB),
              Ev_onUploadComplete, Ev_message ''File uploaded successfully!'']"
    by blast
  from rev_end [OF this] have
    "rev (trace (run ok_world file_200MiB)) ! 3 = Ev_progress (Num 100)"
    "is_complete (rev (trace (run ok_world file_200MiB)) ! 2)"
    by simp_all
  moreover have "\<lfloor>100 * rat_of_nat (23 * CHUNK_SIZE) / rat_of_nat (fsize file_200MiB) + 1 / 2\<rfloor> = 58"
    by (simp add: CHUNK_SIZE_def file_200MiB_fields)
  ultimately show ?thesis
    using run_succeeds_ok_world nth_progress_file_200MiB chunkCount_file_5MiB_1 run_file_5MiB_1
    by blast
qed

text \<open>
  Claim C3, amended. In a run that succeeds, the values passed to \<^verbatim>\<open>setProgress\<close> are 0, 0
  and then, after chunk \<open>i\<close>, the value that \<^verbatim>\<open>Math.round\<close> makes of the double product
  \<^verbatim>\<open>(totalUploadedBytes / file.size) * 100\<close>; they never decrease; each is an integer from
  0 to 100 within \<open>1 / 2 + 2 ^ - 45\<close> of \<open>100 * bytesUploadedSoFar / fileSize\<close>. The value
  after a chunk is 100 only if the bytes uploaded so far are at least \<open>99.5 - 2 ^ - 45\<close>
  percent of the file, and it is 100 whenever they are more than \<open>99.5 + 2 ^ - 45\<close> percent:
  so 100 may be set before the last chunk is sent. For a file that is not empty the last value
  is 100. Every value, 100 included, is set before the one request for finalization is sent:
  the trace of the run is the events up to the last \<^verbatim>\<open>setProgress\<close>, none of them a request
  for finalization, then the request for finalization, the callback of the parent and the
  message of success.
\<close>

theorem progress_of_successful_run:
  assumes "run_succeeds w f" "fsize f < 2 ^ 53"
  shows
    "progress_values (trace (run w f)) =
       Num 0 # Num 0 #
       map (\<lambda>i. percent_of (min (fsize f) ((i + 1) * CHUNK_SIZE)) (fsize f)) [0..<chunkCount_of f] \<and>
     sorted_wrt js_le (progress_values (trace (run w f))) \<and>
     (\<forall>i<chunkCount_of f.
        \<exists>k. percent_of (min (fsize f) ((i + 1) * CHUNK_SIZE)) (fsize f) = Num (of_int k) \<and>
            0 \<le> k \<and> k \<le> 100 \<and>
            \<bar>rat_of_int k - 100 * rat_of_nat (min (fsize f) ((i + 1) * CHUNK_SIZE)) / rat_of_nat (fsize f)\<bar>
              \<le> 1 / 2 + 1 / 2 ^ 45 \<and>
            (k = 100 \<longrightarrow>
               199 / 2 - 1 / 2 ^ 45
                 \<le> 100 * rat_of_nat (min (fsize f) ((i + 1) * CHUNK_SIZE)) / rat_of_nat (fsize f)) \<and>
            (199 / 2 + 1 / 2 ^ 45
               < 100 * rat_of_nat (min (fsize f) ((i + 1) * CHUNK_SIZE)) / rat_of_nat (fsize f) \<longrightarrow>
             k = 100)) \<and>
     (0 < fsize f \<longrightarrow> last (progress_values (trace (run w f))) = Num 100) \<and>
     (\<exists>es uploadId ps.
        trace (run w f) =
          es @ [Ev_complete_multipart (fileName_of w f) uploadId ps (fsize f),
                Ev_onUploadComplete, Ev_message ''File uploaded successfully!''] \<and>
        progress_values es = progress_values (trace (run w f)) \<and>
        (\<forall>e\<in>set es. \<not> is_complete e) \<and>
        (0 < fsize f \<longrightarrow> (\<exists>pre. es = pre @ [Ev_progress (Num 100)])))"
proof -
  note pv = successful_run_progress [OF assms(1)]
  have sorted: "sorted_wrt js_le (progress_values (trace (run w f)))"
  proof (cases "fsize f = 0")
    case True
    then have "chunkCount_of f = 0" by (rule chunkCount_of_empty)
    then show ?thesis by (simp add: pv)
  next
    case False
    then show ?thesis unfolding pv by (intro sorted_progress) simp
  qed
  have near: "\<exists>k. percent_of (min (fsize f) ((i + 1) * CHUNK_SIZE)) (fsize f) = Num (of_int k) \<and>
            0 \<le> k \<and> k \<le> 100 \<and>
            \<bar>rat_of_int k - 100 * rat_of_nat (min (fsize f) ((i + 1) * CHUNK_SIZE)) / rat_of_nat (fsize f)\<bar>
              \<le> 1 / 2 + 1 / 2 ^ 45 \<and>
            (k = 100 \<longrightarrow>
               199 / 2 - 1 / 2 ^ 45
                 \<le> 100 * rat_of_nat (min (fsize f) ((i + 1) * CHUNK_SIZE)) / rat_of_nat (fsize f)) \<and>
            (199 / 2 + 1 / 2 ^ 45
               < 100 * rat_of_nat (min (fsize f) ((i + 1) * CHUNK_SIZE)) / rat_of_nat (fsize f) \<longrightarrow>
             k = 100)"
    if "i < chunkCount_of f" for i
  proof -
    have "0 < fsize f"
    proof (rule ccontr)
      assume "\<not> 0 < fsize f"
      then have "chunkCount_of f = 0" by (simp add: chunkCount_of_empty)
      with that show False by simp
    qed
    then show ?thesis by (intro percent_of_100_band) simp_all
  qed
  note ex = successful_run_trace [OF assms]
  then obtain es uploadId ps where
    tr: "trace (run w f) =
          es @ [Ev_complete_multipart (fileName_of w f) uploadId ps (fsize f),
                Ev_onUploadComplete, Ev_message ''File uploaded successfully!'']"
      "progress_values es = progress_values (trace (run w f))"
      "\<forall>e\<in>set es. \<not> is_complete e"
      "0 < fsize f \<longrightarrow> (\<exists>pre. es = pre @ [Ev_progress (Num 100)])"
    by (elim exE conjE)
  have last: "last (progress_values (trace (run w f))) = Num 100" if "0 < fsize f"
  proof -
    from tr(4) that obtain pre where "es = pre @ [Ev_progress (Num 100)]" by blast
    then have "progress_values es = progress_values pre @ [Num 100]" by simp
    then show ?thesis unfolding tr(2) [symmetric] by simp
  qed
  show ?thesis
    apply (intro conjI allI impI)
        apply (rule pv)
       apply (rule sorted)
      apply (erule near)
     apply (erule last)
    apply (rule ex)
    done
qed

theorem progress_of_successful_run_witness:
  "run_succeeds flaky_world two_chunk_file \<and> fsize two_chunk_file < 2 ^ 53 \<and>
   0 < fsize two_chunk_file \<and>
   progress_values (trace (run flaky_world two_chunk_file)) = [Num 0, Num 0, Num 63, Num 100] \<and>
   sorted_wrt js_le (progress_values (trace (run flaky_world two_chunk_file))) \<and>
   \<bar>63 - 100 * rat_of_nat (min (fsize two_chunk_file) ((0 + 1) * CHUNK_SIZE)) / rat_of_nat (fsize two_chunk_file)\<bar>
     \<le> 1 / 2 + 1 / 2 ^ 45 \<and>
   last (progress_values (trace (run flaky_world two_chunk_file))) = Num 100 \<and>
   (\<exists>es uploadId ps.
      trace (run flaky_world two_chunk_file) =
        es @ [Ev_complete_multipart (fileName_of flaky_world two_chunk_file) uploadId ps
                (fsize two_chunk_file),
              Ev_onUploadComplete, Ev_message ''File uploaded successfully!''] \<and>
      progress_values es = [Num 0, Num 0, Num 63, Num 100] \<and>
      filter is_complete es = [] \<and>
      (\<exists>pre. es = pre @ [Ev_progress (Num 100)])) \<and>
   run_succeeds ok_world file_5MiB_1 \<and> fsize file_5MiB_1 < 2 ^ 53 \<and>
   0 < chunkCount_of file_5MiB_1 \<and>
   progress_values (trace (run ok_world file_5MiB_1)) = [Num 0, Num 0, Num 100, Num 100] \<and>
   199 / 2 - 1 / 2 ^ 45
     \<le> 100 * rat_of_nat (min (fsize file_5MiB_1) ((0 + 1) * CHUNK_SIZE)) / rat_of_nat (fsize file_5MiB_1)"
proof -
  have size: "fsize two_chunk_file < 2 ^ 53" "0 < fsize two_chunk_file"
    by (simp_all add: two_chunk_file_fields)
  note t = progress_of_successful_run [OF run_succeeds_flaky size(1)]
  have p0: "percent_of (min (fsize two_chunk_file) ((0 + 1) * CHUNK_SIZE)) (fsize two_chunk_file) = Num 63"
    by (simp add: two_chunk_file_fields CHUNK_SIZE_def percent_5_of_8_MiB)
  have p1: "percent_of (min (fsize two_chunk_file) ((Suc 0 + 1) * CHUNK_SIZE)) (fsize two_chunk_file) = Num 100"
    by (simp add: two_chunk_file_fields CHUNK_SIZE_def percent_of_full)
  have up: "[0..<chunkCount_of two_chunk_file] = [0, Suc 0]"
    by (simp add: chunkCount_two_chunk_file upt_rec)
  from t have "progress_values (trace (run flaky_world two_chunk_file)) =
       Num 0 # Num 0 #
       map (\<lambda>i. percent_of (min (fsize two_chunk_file) ((i + 1) * CHUNK_SIZE)) (fsize two_chunk_file))
         [0..<chunkCount_of two_chunk_file]"
    by blast
  then have pv: "progress_values (trace (run flaky_world two_chunk_file)) = [Num 0, Num 0, Num 63, Num 100]"
    unfolding up using p0 p1 by simp
  from t have s: "sorted_wrt js_le (progress_values (trace (run flaky_world two_chunk_file)))"
    by blast
  have "0 < chunkCount_of two_chunk_file" by (simp add: chunkCount_two_chunk_file)
  with t obtain k where
    "percent_of (min (fsize two_chunk_file) ((0 + 1) * CHUNK_SIZE)) (fsize two_chunk_file) = Num (of_int k)"
    "\<bar>rat_of_int k - 100 * rat_of_nat (min (fsize two_chunk_file) ((0 + 1) * CHUNK_SIZE)) / rat_of_nat (fsize two_chunk_file)\<bar>
       \<le> 1 / 2 + 1 / 2 ^ 45"
    by blast
  with p0 have near: "\<bar>63 - 100 * rat_of_nat (min (fsize two_chunk_file) ((0 + 1) * CHUNK_SIZE)) / rat_of_nat (fsize two_chunk_file)\<bar>
     \<le> 1 / 2 + 1 / 2 ^ 45"
    by (metis jsnum.inject of_int_eq_numeral_iff of_int_numeral)
  from t size(2) have l: "last (progress_values (trace (run flaky_world two_chunk_file))) = Num 100"
    by blast
  from t size(2) obtain es uploadId ps where
    e: "trace (run flaky_world two_chunk_file) =
        es @ [Ev_complete_multipart (fileName_of flaky_world two_chunk_file) uploadId ps
                (fsize two_chunk_file),
              Ev_onUploadComplete, Ev_message ''File uploaded successfully!'']"
      "progress_values es = progress_values (trace (run flaky_world two_chunk_file))"
      "\<forall>e\<in>set es. \<not> is_complete e"
      "\<exists>pre. es = pre @ [Ev_progress (Num 100)]"
    by blast
  from e(3) have "filter is_complete es = []" by (simp add: filter_empty_conv)
  with e(1,2,4) pv have tr: "\<exists>es uploadId ps.
      trace (run flaky_world two_chunk_file) =
        es @ [Ev_complete_multipart (fileName_of flaky_world two_chunk_file) uploadId ps
                (fsize two_chunk_file),
              Ev_onUploadComplete, Ev_message ''File uploaded successfully!''] \<and>
      progress_values es = [Num 0, Num 0, Num 63, Num 100] \<and>
      filter is_complete es = [] \<and>
      (\<exists>pre. es = pre @ [Ev_progress (Num 100)])"
    by auto
  have size': "fsize file_5MiB_1 < 2 ^ 53" by (simp add: file_5MiB_1_fields)
  have n': "0 < chunkCount_of file_5MiB_1" by (simp add: chunkCount_file_5MiB_1)
  note t' = progress_of_successful_run [OF run_succeeds_ok_world size']
  from t' have pv': "progress_values (trace (run ok_world file_5MiB_1)) = [Num 0, Num 0, Num 100, Num 100]"
    unfolding progress_file_5MiB_1 by blast
  have q0: "percent_of (min (fsize file_5MiB_1) ((0 + 1) * CHUNK_SIZE)) (fsize file_5MiB_1) = Num 100"
    by (simp add: file_5MiB_1_fields CHUNK_SIZE_def percent_all_but_one_byte)
  from t' n' obtain k' where
    k': "percent_of (min (fsize file_5MiB_1) ((0 + 1) * CHUNK_SIZE)) (fsize file_5MiB_1) = Num (of_int k')"
    "k' = 100 \<longrightarrow> 199 / 2 - 1 / 2 ^ 45
       \<le> 100 * rat_of_nat (min (fsize file_5MiB_1) ((0 + 1) * CHUNK_SIZE)) / rat_of_nat (fsize file_5MiB_1)"
    by blast
  from k'(1) q0 have "k' = 100"
    by (metis jsnum.inject of_int_eq_numeral_iff of_int_numeral)
  with k'(2) have band: "199 / 2 - 1 / 2 ^ 45
       \<le> 100 * rat_of_nat (min (fsize file_5MiB_1) ((0 + 1) * CHUNK_SIZE)) / rat_of_nat (fsize file_5MiB_1)"
    by blast
  from run_succeeds_flaky size pv s near l tr run_succeeds_ok_world [of file_5MiB_1] size' n' pv' band
  show ?thesis by blast
qed

end
